theory Spec2Isabelle
  imports Main
begin

section \<open>JavaScript values, thrown values and the built-ins the saver calls\<close>

text \<open>
  Write values, checkpoint bodies and metadata are opaque to the saver (\<^verbatim>\<open>any\<close> in the
  source). They are modelled by a datatype of run-time values: the JSON data, \<^verbatim>\<open>undefined\<close>,
  and the kinds of value the source's comments name as not serialisable (functions, symbols,
  object graphs with a cycle). \<open>JCyclic\<close> is a cycle of ordinary objects, which
  \<^verbatim>\<open>JSON.stringify\<close> refuses and \<^verbatim>\<open>String\<close> renders; \<open>JBareCycle\<close> is a cycle of objects
  without a prototype (\<^verbatim>\<open>o = Object.create(null); o.self = o\<close>), which both refuse. Numbers
  are modelled by the integers; the saver never computes with them.
\<close>

datatype jsvalue =
    JUndefined
  | JNull
  | JBool bool
  | JNum int
  | JStr string
  | JArr "jsvalue list"
  | JObj "(string \<times> jsvalue) list"
  | JFunction string
  | JSymbol string
  | JCyclic
  | JBareCycle

text \<open>
  \<^verbatim>\<open>class CallbackSaverError extends Error { constructor (message, public readonly cause?: Error) }\<close>.
  An \<^verbatim>\<open>Error\<close> instance is either a plain error with a message or a
  \<^verbatim>\<open>CallbackSaverError\<close> with a message and an optional cause.
\<close>

datatype js_error =
    Error string
  | CallbackSaverError string "js_error option"

fun message :: "js_error \<Rightarrow> string" where
  "message (Error m) = m"
| "message (CallbackSaverError m c) = m"

fun cause :: "js_error \<Rightarrow> js_error option" where
  "cause (Error m) = None"
| "cause (CallbackSaverError m c) = c"

fun is_CallbackSaverError :: "js_error \<Rightarrow> bool" where
  "is_CallbackSaverError (Error m) = False"
| "is_CallbackSaverError (CallbackSaverError m c) = True"

text \<open>
  JavaScript can throw (and a promise can reject with) any value: an \<^verbatim>\<open>Error\<close> instance
  or something else. \<^verbatim>\<open>error instanceof Error\<close> tells the two apart.
\<close>

datatype thrown =
    ThrownError js_error
  | ThrownValue jsvalue

text \<open>
  The built-ins of the language that the saver calls, taken as parameters:
  \<^verbatim>\<open>JSON.stringify\<close> throws, returns \<^verbatim>\<open>undefined\<close> (\<open>None\<close>) or returns a string;
  \<^verbatim>\<open>JSON.parse\<close> throws or returns a value; \<^verbatim>\<open>String(value)\<close> renders a value as a
  string, or throws a \<^verbatim>\<open>TypeError\<close> when the value cannot be converted to a primitive (an
  object without a usable \<^verbatim>\<open>toString\<close>).
\<close>

record js_runtime =
  JSON_stringify :: "jsvalue \<Rightarrow> thrown + string option"
  JSON_parse :: "string \<Rightarrow> thrown + jsvalue"
  String_of :: "jsvalue \<Rightarrow> thrown + string"

text \<open>\<^verbatim>\<open>try { body } catch (error) { handler }\<close> on a computation that returns or throws.\<close>

definition try_catch :: "thrown + 'a \<Rightarrow> (thrown \<Rightarrow> thrown + 'a) \<Rightarrow> thrown + 'a" where
  "try_catch body handler = (case body of Inl error \<Rightarrow> handler error | Inr v \<Rightarrow> Inr v)"

text \<open>
  Truthiness, as \<^verbatim>\<open>!x\<close>, \<^verbatim>\<open>x || y\<close> and \<^verbatim>\<open>if (x)\<close> test it: an optional string is
  truthy when it is defined and not empty, an optional number when it is defined and not zero.
\<close>

fun truthy :: "string option \<Rightarrow> bool" where
  "truthy None = False"
| "truthy (Some s) = (s \<noteq> [])"

fun truthy_num :: "nat option \<Rightarrow> bool" where
  "truthy_num None = False"
| "truthy_num (Some n) = (n \<noteq> 0)"

section \<open>The data model (types.ts)\<close>

text \<open>
  \<^verbatim>\<open>Checkpoint\<close> and \<^verbatim>\<open>CheckpointMetadata\<close> come from the host library; the saver reads
  only \<^verbatim>\<open>checkpoint.id\<close>. The remaining fields are kept as one opaque value.
\<close>

record Checkpoint =
  id_field :: string
  content :: jsvalue

record StoredCheckpoint =
  threadId :: string
  namespace :: string
  checkpointId :: string
  parentCheckpointId :: "string option"
  checkpoint :: Checkpoint
  metadata :: jsvalue
  createdAt :: nat
  expiresAt :: "nat option"

record StoredWrite =
  w_threadId :: string
  w_namespace :: string
  w_checkpointId :: string
  taskId :: string
  idx :: nat
  channel :: string
  write_type :: string
  write_value :: jsvalue
  w_createdAt :: nat
  w_expiresAt :: "nat option"

record ListCheckpointsOptions =
  l_threadId :: string
  l_namespace :: string
  limit :: "nat option"
  before :: "string option"
  filter_field :: "jsvalue option"

record ListCheckpointsResult =
  checkpoints :: "StoredCheckpoint list"
  nextCursor :: "string option"

text \<open>
  The backend is a set of asynchronous callbacks over a store the saver never sees. A callback
  takes the store, resolves (\<open>Inr\<close>) or rejects (\<open>Inl\<close>), and leaves a store behind.
\<close>

type_synonym ('s, 'a) callback = "'s \<Rightarrow> (thrown + 'a) \<times> 's"

record 's CallbackSaverConfig =
  getCheckpoint :: "string \<Rightarrow> string \<Rightarrow> string option \<Rightarrow> ('s, StoredCheckpoint option) callback"
  putCheckpoint :: "StoredCheckpoint \<Rightarrow> ('s, unit) callback"
  getWrites :: "string \<Rightarrow> string \<Rightarrow> string \<Rightarrow> ('s, StoredWrite list) callback"
  putWrites :: "StoredWrite list \<Rightarrow> ('s, unit) callback"
  listCheckpoints :: "ListCheckpointsOptions \<Rightarrow> ('s, ListCheckpointsResult) callback"
  deleteThread :: "string \<Rightarrow> ('s, unit) callback"
  cfg_namespace :: "string option"
  serialize :: "bool option"

text \<open>
  The constructor lays the caller's configuration over the defaults
  \<^verbatim>\<open>{ namespace: 'default', serialize: true, ...config }\<close>: a key the caller gives wins, also
  when its value is \<^verbatim>\<open>undefined\<close>. \<open>None\<close> is a key left out, \<open>Some None\<close> a key given as
  \<^verbatim>\<open>undefined\<close>.
\<close>

definition CallbackSaver_new ::
  "'s CallbackSaverConfig \<Rightarrow> string option option \<Rightarrow> bool option option \<Rightarrow> 's CallbackSaverConfig" where
  "CallbackSaver_new config ns ser =
     config\<lparr>cfg_namespace := (case ns of None \<Rightarrow> Some ''default'' | Some n \<Rightarrow> n),
            serialize := (case ser of None \<Rightarrow> Some True | Some b \<Rightarrow> b)\<rparr>"

text \<open>\<^verbatim>\<open>RunnableConfig\<close>: the addressing bag \<^verbatim>\<open>config.configurable\<close>, itself optional.\<close>

record Configurable =
  thread_id :: "string option"
  checkpoint_ns :: "string option"
  checkpoint_id :: "string option"
  checkpoint_parent_id :: "string option"

record RunnableConfig =
  configurable :: "Configurable option"

text \<open>\<^verbatim>\<open>config.configurable?.field\<close>\<close>

definition opt_field :: "(Configurable \<Rightarrow> string option) \<Rightarrow> RunnableConfig \<Rightarrow> string option" where
  "opt_field f config = (case configurable config of None \<Rightarrow> None | Some c \<Rightarrow> f c)"

record CheckpointTuple =
  t_config :: RunnableConfig
  t_checkpoint :: Checkpoint
  t_metadata :: jsvalue
  parentConfig :: "RunnableConfig option"
  pendingWrites :: "(string \<times> string \<times> jsvalue) list"

text \<open>
  Modelled from the spec: the type \<^verbatim>\<open>CheckpointListOptions\<close> is imported from the host
  library and is not declared in the sources. The caller's options carry an optional limit,
  an optional before cursor (a config addressing a checkpoint) and an optional filter.
\<close>

record CheckpointListOptions =
  o_limit :: "nat option"
  o_before :: "RunnableConfig option"
  o_filter :: "jsvalue option"

section \<open>Backend calls and their trace\<close>

datatype call =
    GetCheckpointCall string string "string option"
  | PutCheckpointCall StoredCheckpoint
  | GetWritesCall string string string
  | PutWritesCall "StoredWrite list"
  | ListCheckpointsCall ListCheckpointsOptions
  | DeleteThreadCall string

text \<open>
  The world the saver runs in: the backend's store and the trace of the callback invocations
  made so far, each with the value it rejected with, if it did.
\<close>

record 's world =
  store :: 's
  trace :: "(call \<times> thrown option) list"

definition rejection :: "thrown + 'a \<Rightarrow> thrown option" where
  "rejection r = (case r of Inl e \<Rightarrow> Some e | Inr v \<Rightarrow> None)"

text \<open>\<^verbatim>\<open>await callback(args)\<close>: run the callback on the store and record the invocation.\<close>

definition await :: "call \<Rightarrow> ('s, 'a) callback \<Rightarrow> 's world \<Rightarrow> (thrown + 'a) \<times> 's world" where
  "await c f w =
     (case f (store w) of
        (r, s') \<Rightarrow> (r, \<lparr>store = s', trace = trace w @ [(c, rejection r)]\<rparr>))"

section \<open>The value codec (saver.ts, serializeValue and deserializeValue)\<close>

text \<open>\<^verbatim>\<open>return String(value)\<close>: the rendering as a string value, or what \<^verbatim>\<open>String\<close> throws.\<close>

definition String_value :: "js_runtime \<Rightarrow> jsvalue \<Rightarrow> thrown + jsvalue" where
  "String_value rt v = (case String_of rt v of Inl error \<Rightarrow> Inl error | Inr s \<Rightarrow> Inr (JStr s))"

text \<open>
  \<^verbatim>\<open>serializeValue\<close>: pass-through when \<^verbatim>\<open>serialize === false\<close>; otherwise
  \<^verbatim>\<open>JSON.stringify(value)\<close>, with \<^verbatim>\<open>String(value)\<close> when the result is \<^verbatim>\<open>undefined\<close>
  and, in the \<^verbatim>\<open>catch\<close>, when something in the \<^verbatim>\<open>try\<close> throws. Nothing guards the
  \<^verbatim>\<open>String(value)\<close> of the \<^verbatim>\<open>catch\<close>: what it throws leaves the function.
\<close>

definition serializeValue :: "js_runtime \<Rightarrow> 's CallbackSaverConfig \<Rightarrow> jsvalue \<Rightarrow> thrown + jsvalue" where
  "serializeValue rt this v =
     (if serialize this = Some False then Inr v
      else try_catch
             (case JSON_stringify rt v of
                Inl error \<Rightarrow> Inl error
              | Inr None \<Rightarrow> String_value rt v
              | Inr (Some jsonResult) \<Rightarrow> Inr (JStr jsonResult))
             (\<lambda>error. String_value rt v))"

text \<open>
  \<^verbatim>\<open>deserializeValue\<close>: pass-through when \<^verbatim>\<open>serialize === false\<close> and when
  \<^verbatim>\<open>typeof value !== 'string'\<close>; otherwise \<^verbatim>\<open>JSON.parse(value)\<close>, with the value itself
  in the \<^verbatim>\<open>catch\<close>.
\<close>

definition deserializeValue :: "js_runtime \<Rightarrow> 's CallbackSaverConfig \<Rightarrow> jsvalue \<Rightarrow> thrown + jsvalue" where
  "deserializeValue rt this v =
     (if serialize this = Some False then Inr v
      else case v of
             JStr s \<Rightarrow> try_catch (JSON_parse rt s) (\<lambda>error. Inr v)
           | _ \<Rightarrow> Inr v)"

text \<open>\<^verbatim>\<open>Array.prototype.map\<close> with a function that may throw: the first throw ends the map.\<close>

fun map_throwing :: "('a \<Rightarrow> thrown + 'b) \<Rightarrow> 'a list \<Rightarrow> thrown + 'b list" where
  "map_throwing f [] = Inr []"
| "map_throwing f (x # xs) =
     (case f x of
        Inl error \<Rightarrow> Inl error
      | Inr y \<Rightarrow> (case map_throwing f xs of Inl error \<Rightarrow> Inl error | Inr ys \<Rightarrow> Inr (y # ys)))"

section \<open>The saver (saver.ts)\<close>

text \<open>
  The \<^verbatim>\<open>catch\<close> every public operation ends with:
  \<^verbatim>\<open>throw new CallbackSaverError(`<what>: ${error instanceof Error ? error.message : String(error)}`,
  error instanceof Error ? error : undefined)\<close>.
  \<open>wrap\<close> is what leaves the \<^verbatim>\<open>catch\<close>: the \<^verbatim>\<open>CallbackSaverError\<close>, or, when the caught value
  is no \<^verbatim>\<open>Error\<close> and \<^verbatim>\<open>String(error)\<close> throws while the message is built, what
  \<^verbatim>\<open>String\<close> throws.
\<close>

definition wrap :: "js_runtime \<Rightarrow> string \<Rightarrow> thrown \<Rightarrow> thrown" where
  "wrap rt what error =
     (case error of
        ThrownError e \<Rightarrow> ThrownError (CallbackSaverError (what @ '': '' @ message e) (Some e))
      | ThrownValue v \<Rightarrow>
          (case String_of rt v of
             Inl thrown_by_String \<Rightarrow> thrown_by_String
           | Inr s \<Rightarrow> ThrownError (CallbackSaverError (what @ '': '' @ s) None)))"

definition rethrow :: "js_runtime \<Rightarrow> string \<Rightarrow> (thrown + 'a) \<times> 's world \<Rightarrow> (thrown + 'a) \<times> 's world" where
  "rethrow rt what r =
     (case r of
        (Inl error, w) \<Rightarrow> (Inl (wrap rt what error), w)
      | (Inr v, w) \<Rightarrow> (Inr v, w))"

definition thread_id_required :: thrown where
  "thread_id_required = ThrownError (CallbackSaverError ''thread_id is required in config.configurable'' None)"

definition checkpoint_id_required :: thrown where
  "checkpoint_id_required = ThrownError (CallbackSaverError ''checkpoint_id is required in config.configurable'' None)"

text \<open>\<^verbatim>\<open>config.configurable?.checkpoint_ns || this.config.namespace || 'default'\<close>\<close>

definition resolve_namespace :: "'s CallbackSaverConfig \<Rightarrow> RunnableConfig \<Rightarrow> string" where
  "resolve_namespace this config =
     (if truthy (opt_field checkpoint_ns config) then the (opt_field checkpoint_ns config)
      else if truthy (cfg_namespace this) then the (cfg_namespace this)
      else ''default'')"

text \<open>
  The conversion of a stored checkpoint and its stored writes to a \<^verbatim>\<open>CheckpointTuple\<close>;
  \<^verbatim>\<open>getTuple\<close> and \<^verbatim>\<open>list\<close> contain the same text for it.
\<close>

definition toPendingWrite ::
  "js_runtime \<Rightarrow> 's CallbackSaverConfig \<Rightarrow> StoredWrite \<Rightarrow> thrown + (string \<times> string \<times> jsvalue)" where
  "toPendingWrite rt this write =
     (case (if serialize this = Some False then Inr (write_value write)
            else deserializeValue rt this (write_value write)) of
        Inl error \<Rightarrow> Inl error
      | Inr v \<Rightarrow> Inr (taskId write, channel write, v))"

definition toTuple ::
  "js_runtime \<Rightarrow> 's CallbackSaverConfig \<Rightarrow> StoredCheckpoint \<Rightarrow> StoredWrite list \<Rightarrow> thrown + CheckpointTuple" where
  "toTuple rt this storedCheckpoint writes =
     (case map_throwing (toPendingWrite rt this) writes of
        Inl error \<Rightarrow> Inl error
      | Inr pending \<Rightarrow>
          Inr \<lparr>t_config = \<lparr>configurable = Some
                 \<lparr>thread_id = Some (threadId storedCheckpoint),
                  checkpoint_ns = Some (namespace storedCheckpoint),
                  checkpoint_id = Some (checkpointId storedCheckpoint),
                  checkpoint_parent_id =
                    (if truthy (parentCheckpointId storedCheckpoint)
                     then parentCheckpointId storedCheckpoint else None)\<rparr>\<rparr>,
               t_checkpoint = checkpoint storedCheckpoint,
               t_metadata = metadata storedCheckpoint,
               parentConfig =
                 (if truthy (parentCheckpointId storedCheckpoint)
                  then Some \<lparr>configurable = Some
                         \<lparr>thread_id = Some (threadId storedCheckpoint),
                          checkpoint_ns = Some (namespace storedCheckpoint),
                          checkpoint_id = parentCheckpointId storedCheckpoint,
                          checkpoint_parent_id = None\<rparr>\<rparr>
                  else None),
               pendingWrites = pending\<rparr>)"

subsection \<open>getTuple\<close>

definition getTuple_try ::
  "js_runtime \<Rightarrow> 's CallbackSaverConfig \<Rightarrow> RunnableConfig \<Rightarrow> 's world
     \<Rightarrow> (thrown + CheckpointTuple option) \<times> 's world" where
  "getTuple_try rt this config w =
     (let tid = opt_field thread_id config in
      if \<not> truthy tid then (Inl thread_id_required, w)
      else
        let ns = resolve_namespace this config;
            cid = opt_field checkpoint_id config
        in case await (GetCheckpointCall (the tid) ns cid)
                      (getCheckpoint this (the tid) ns cid) w of
             (Inl error, w1) \<Rightarrow> (Inl error, w1)
           | (Inr None, w1) \<Rightarrow> (Inr None, w1)
           | (Inr (Some storedCheckpoint), w1) \<Rightarrow>
               (case await (GetWritesCall (threadId storedCheckpoint) (namespace storedCheckpoint)
                                          (checkpointId storedCheckpoint))
                           (getWrites this (threadId storedCheckpoint) (namespace storedCheckpoint)
                                           (checkpointId storedCheckpoint)) w1 of
                  (Inl error, w2) \<Rightarrow> (Inl error, w2)
                | (Inr writes, w2) \<Rightarrow>
                    (case toTuple rt this storedCheckpoint writes of
                       Inl error \<Rightarrow> (Inl error, w2)
                     | Inr tuple \<Rightarrow> (Inr (Some tuple), w2))))"

definition CallbackSaver_getTuple ::
  "js_runtime \<Rightarrow> 's CallbackSaverConfig \<Rightarrow> RunnableConfig \<Rightarrow> 's world
     \<Rightarrow> (thrown + CheckpointTuple option) \<times> 's world" where
  "CallbackSaver_getTuple rt this config w =
     rethrow rt ''Failed to get checkpoint tuple'' (getTuple_try rt this config w)"

subsection \<open>put\<close>

text \<open>\<open>now\<close> is what \<^verbatim>\<open>new Date()\<close> reads. \<^verbatim>\<open>newVersions\<close> is not used by the source.\<close>

definition put_try ::
  "'s CallbackSaverConfig \<Rightarrow> nat \<Rightarrow> RunnableConfig \<Rightarrow> Checkpoint \<Rightarrow> jsvalue \<Rightarrow> 's world
     \<Rightarrow> (thrown + RunnableConfig) \<times> 's world" where
  "put_try this now config cp md w =
     (let tid = opt_field thread_id config in
      if \<not> truthy tid then (Inl thread_id_required, w)
      else
        let ns = resolve_namespace this config;
            cid = id_field cp;
            parent = opt_field checkpoint_id config;
            storedCheckpoint =
              \<lparr>threadId = the tid, namespace = ns, checkpointId = cid,
               parentCheckpointId = parent, checkpoint = cp, metadata = md,
               createdAt = now, expiresAt = None\<rparr>
        in case await (PutCheckpointCall storedCheckpoint) (putCheckpoint this storedCheckpoint) w of
             (Inl error, w1) \<Rightarrow> (Inl error, w1)
           | (Inr u, w1) \<Rightarrow>
               (Inr \<lparr>configurable = Some
                      \<lparr>thread_id = tid, checkpoint_ns = Some ns,
                       checkpoint_id = Some cid, checkpoint_parent_id = None\<rparr>\<rparr>, w1))"

definition CallbackSaver_put ::
  "js_runtime \<Rightarrow> 's CallbackSaverConfig \<Rightarrow> nat \<Rightarrow> RunnableConfig \<Rightarrow> Checkpoint \<Rightarrow> jsvalue
     \<Rightarrow> (string \<times> jsvalue) list \<Rightarrow> 's world \<Rightarrow> (thrown + RunnableConfig) \<times> 's world" where
  "CallbackSaver_put rt this now config cp md newVersions w =
     rethrow rt ''Failed to save checkpoint'' (put_try this now config cp md w)"

subsection \<open>putWrites\<close>

text \<open>
  The function given to \<^verbatim>\<open>writes.map((write, idx) => ...)\<close>; \<open>now idx\<close> is what
  \<^verbatim>\<open>new Date()\<close> reads while the record at \<open>idx\<close> is built.
\<close>

definition toStoredWrite ::
  "js_runtime \<Rightarrow> 's CallbackSaverConfig \<Rightarrow> (nat \<Rightarrow> nat) \<Rightarrow> string \<Rightarrow> string \<Rightarrow> string \<Rightarrow> string
     \<Rightarrow> nat \<times> (string \<times> jsvalue) \<Rightarrow> thrown + StoredWrite" where
  "toStoredWrite rt this now tid ns cid task =
     (\<lambda>(i, (ch, v)).
        case (if serialize this = Some False then Inr v else serializeValue rt this v) of
          Inl error \<Rightarrow> Inl error
        | Inr stored \<Rightarrow>
            Inr \<lparr>w_threadId = tid, w_namespace = ns, w_checkpointId = cid,
                 taskId = task, idx = i, channel = ch, write_type = ''write'',
                 write_value = stored, w_createdAt = now i, w_expiresAt = None\<rparr>)"

definition putWrites_try ::
  "js_runtime \<Rightarrow> 's CallbackSaverConfig \<Rightarrow> (nat \<Rightarrow> nat) \<Rightarrow> RunnableConfig \<Rightarrow> (string \<times> jsvalue) list
     \<Rightarrow> string \<Rightarrow> 's world \<Rightarrow> (thrown + unit) \<times> 's world" where
  "putWrites_try rt this now config writes task w =
     (let tid = opt_field thread_id config in
      if \<not> truthy tid then (Inl thread_id_required, w)
      else
        let ns = resolve_namespace this config;
            cid = opt_field checkpoint_id config
        in if \<not> truthy cid then (Inl checkpoint_id_required, w)
           else
             case map_throwing
                    (toStoredWrite rt this now (the tid) ns (the cid) task)
                    (enumerate 0 writes) of
               Inl error \<Rightarrow> (Inl error, w)
             | Inr storedWrites \<Rightarrow>
                 await (PutWritesCall storedWrites) (putWrites this storedWrites) w)"

definition CallbackSaver_putWrites ::
  "js_runtime \<Rightarrow> 's CallbackSaverConfig \<Rightarrow> (nat \<Rightarrow> nat) \<Rightarrow> RunnableConfig \<Rightarrow> (string \<times> jsvalue) list
     \<Rightarrow> string \<Rightarrow> 's world \<Rightarrow> (thrown + unit) \<times> 's world" where
  "CallbackSaver_putWrites rt this now config writes task w =
     rethrow rt ''Failed to save writes'' (putWrites_try rt this now config writes task w)"

subsection \<open>deleteThread\<close>

definition CallbackSaver_deleteThread ::
  "js_runtime \<Rightarrow> 's CallbackSaverConfig \<Rightarrow> string \<Rightarrow> 's world \<Rightarrow> (thrown + unit) \<times> 's world" where
  "CallbackSaver_deleteThread rt this tid w =
     rethrow rt ''Failed to delete thread'' (await (DeleteThreadCall tid) (deleteThread this tid) w)"

subsection \<open>list\<close>

text \<open>
  \<^verbatim>\<open>list\<close> is an asynchronous generator. The model is the generator consumed to its end:
  the tuples it yields, in the order it yields them, and the error it ends with, if it throws.

  The body of \<^verbatim>\<open>for (const storedCheckpoint of result.checkpoints)\<close>: fetch the writes,
  build the tuple, yield it.
\<close>

type_synonym yielded = "CheckpointTuple list \<times> thrown option"

fun yield_tuples ::
  "js_runtime \<Rightarrow> 's CallbackSaverConfig \<Rightarrow> StoredCheckpoint list \<Rightarrow> 's world \<Rightarrow> yielded \<times> 's world" where
  "yield_tuples rt this [] w = (([], None), w)"
| "yield_tuples rt this (storedCheckpoint # rest) w =
     (case await (GetWritesCall (threadId storedCheckpoint) (namespace storedCheckpoint)
                                (checkpointId storedCheckpoint))
                 (getWrites this (threadId storedCheckpoint) (namespace storedCheckpoint)
                                 (checkpointId storedCheckpoint)) w of
        (Inl error, w1) \<Rightarrow> (([], Some error), w1)
      | (Inr writes, w1) \<Rightarrow>
          (case toTuple rt this storedCheckpoint writes of
             Inl error \<Rightarrow> (([], Some error), w1)
           | Inr tuple \<Rightarrow>
               (case yield_tuples rt this rest w1 of
                  ((tuples, r), w2) \<Rightarrow> ((tuple # tuples, r), w2))))"

text \<open>
  The \<^verbatim>\<open>do { ... } while (nextCursor)\<close> loop. Nothing bounds it but the backend, which may
  return a cursor for ever: the model counts the iterations left and is \<open>None\<close> when they run
  out before the loop ends.
\<close>

fun list_loop ::
  "nat \<Rightarrow> js_runtime \<Rightarrow> 's CallbackSaverConfig \<Rightarrow> ListCheckpointsOptions \<Rightarrow> 's world
     \<Rightarrow> (yielded \<times> 's world) option" where
  "list_loop 0 rt this listOptions w = None"
| "list_loop (Suc n) rt this listOptions w =
     (case await (ListCheckpointsCall listOptions) (listCheckpoints this listOptions) w of
        (Inl error, w1) \<Rightarrow> Some (([], Some error), w1)
      | (Inr result, w1) \<Rightarrow>
          (case yield_tuples rt this (checkpoints result) w1 of
             ((tuples, Some error), w2) \<Rightarrow> Some ((tuples, Some error), w2)
           | ((tuples, None), w2) \<Rightarrow>
               if truthy (nextCursor result)
               then (case list_loop n rt this (listOptions\<lparr>before := nextCursor result\<rparr>) w2 of
                       None \<Rightarrow> None
                     | Some ((later, r), w3) \<Rightarrow> Some ((tuples @ later, r), w3))
               else Some ((tuples, None), w2)))"

text \<open>
  The listing request built before the loop. \<open>before_arg\<close> and \<open>limit_arg\<close> are the third and
  fourth parameters \<^verbatim>\<open>_before\<close> and \<^verbatim>\<open>_limit\<close>.
\<close>

definition listOptions_of ::
  "string \<Rightarrow> string \<Rightarrow> CheckpointListOptions option \<Rightarrow> RunnableConfig option \<Rightarrow> nat option
     \<Rightarrow> ListCheckpointsOptions" where
  "listOptions_of tid ns options before_arg limit_arg =
     \<lparr>l_threadId = tid,
      l_namespace = ns,
      limit = (if truthy_num limit_arg then limit_arg
               else case options of None \<Rightarrow> None | Some opts \<Rightarrow> o_limit opts),
      before = (case before_arg of None \<Rightarrow> None | Some b \<Rightarrow> opt_field checkpoint_id b),
      filter_field = (case options of None \<Rightarrow> None | Some opts \<Rightarrow> o_filter opts)\<rparr>"

definition list_try ::
  "nat \<Rightarrow> js_runtime \<Rightarrow> 's CallbackSaverConfig \<Rightarrow> RunnableConfig \<Rightarrow> CheckpointListOptions option
     \<Rightarrow> RunnableConfig option \<Rightarrow> nat option \<Rightarrow> 's world \<Rightarrow> (yielded \<times> 's world) option" where
  "list_try fuel rt this config options before_arg limit_arg w =
     (let tid = opt_field thread_id config in
      if \<not> truthy tid then Some (([], Some thread_id_required), w)
      else
        let ns = resolve_namespace this config;
            listOptions = listOptions_of (the tid) ns options before_arg limit_arg
        in list_loop fuel rt this listOptions w)"

definition CallbackSaver_list ::
  "nat \<Rightarrow> js_runtime \<Rightarrow> 's CallbackSaverConfig \<Rightarrow> RunnableConfig \<Rightarrow> CheckpointListOptions option
     \<Rightarrow> RunnableConfig option \<Rightarrow> nat option \<Rightarrow> 's world \<Rightarrow> (yielded \<times> 's world) option" where
  "CallbackSaver_list fuel rt this config options before_arg limit_arg w =
     (case list_try fuel rt this config options before_arg limit_arg w of
        None \<Rightarrow> None
      | Some ((tuples, None), w') \<Rightarrow> Some ((tuples, None), w')
      | Some ((tuples, Some error), w') \<Rightarrow>
          Some ((tuples, Some (wrap rt ''Failed to list checkpoints'' error)), w'))"

section \<open>Reference instances: the built-ins and three backends\<close>

text \<open>
  The saver is parametric in the built-ins and in the backend. This section gives one
  implementation of \<^verbatim>\<open>JSON.stringify\<close>, \<^verbatim>\<open>JSON.parse\<close> and \<^verbatim>\<open>String\<close> on the values
  modelled (JSON text without white space, integers for numbers), and three backends, so that
  the saver can be run on concrete inputs.
\<close>

subsection \<open>Writing JSON text\<close>

definition quote_char :: char where
  "quote_char = CHR 0x22"

definition backslash :: char where
  "backslash = CHR 0x5C"

text \<open>The decimal digits of a natural number, and of an integer.\<close>

fun digits :: "nat \<Rightarrow> string" where
  "digits n = (if n < 10 then [''0123456789'' ! n] else digits (n div 10) @ [''0123456789'' ! (n mod 10)])"

declare digits.simps [simp del]

definition decimal :: "int \<Rightarrow> string" where
  "decimal i = (if i < 0 then CHR ''-'' # digits (nat (- i)) else digits (nat i))"

text \<open>
  A string in JSON text: between quotes, with the quote, the backslash and the control
  characters written as a backslash and an escape (the letters b, f, n, r, t for the five
  short forms, u00XX in hexadecimal for the other characters below 0x20).
\<close>

definition hex_digit :: "nat \<Rightarrow> char" where
  "hex_digit n = ''0123456789abcdef'' ! n"

definition escape_char :: "char \<Rightarrow> string" where
  "escape_char c =
     (if c = quote_char then [backslash, quote_char]
      else if c = backslash then [backslash, backslash]
      else if c = CHR 0x08 then [backslash, CHR ''b'']
      else if c = CHR 0x0C then [backslash, CHR ''f'']
      else if c = CHR 0x0A then [backslash, CHR ''n'']
      else if c = CHR 0x0D then [backslash, CHR ''r'']
      else if c = CHR 0x09 then [backslash, CHR ''t'']
      else if (of_char c :: nat) < 32
        then [backslash, CHR ''u'', CHR ''0'', CHR ''0'', hex_digit (of_char c div 16), hex_digit (of_char c mod 16)]
      else [c])"

definition quoted :: "string \<Rightarrow> string" where
  "quoted s = quote_char # concat (map escape_char s) @ [quote_char]"

fun join :: "string \<Rightarrow> string list \<Rightarrow> string" where
  "join sep [] = []"
| "join sep [x] = x"
| "join sep (x # y # ys) = x @ sep @ join sep (y # ys)"

text \<open>
  \<^verbatim>\<open>JSON.stringify\<close> has no text for \<^verbatim>\<open>undefined\<close>, functions and symbols: it returns
  \<^verbatim>\<open>undefined\<close> for them, leaves them out of objects and writes \<^verbatim>\<open>null\<close> for them in
  arrays. It throws a \<^verbatim>\<open>TypeError\<close> on a structure with a cycle.
\<close>

fun omitted :: "jsvalue \<Rightarrow> bool" where
  "omitted JUndefined = True"
| "omitted (JFunction f) = True"
| "omitted (JSymbol d) = True"
| "omitted v = False"

fun cyclic :: "jsvalue \<Rightarrow> bool" where
  "cyclic JCyclic = True"
| "cyclic JBareCycle = True"
| "cyclic (JArr xs) = (\<exists>x \<in> set xs. cyclic x)"
| "cyclic (JObj kvs) = (\<exists>kv \<in> set kvs. cyclic (snd kv))"
| "cyclic v = False"

fun json_text :: "jsvalue \<Rightarrow> string" where
  "json_text JNull = ''null''"
| "json_text (JBool b) = (if b then ''true'' else ''false'')"
| "json_text (JNum i) = decimal i"
| "json_text (JStr s) = quoted s"
| "json_text (JArr xs) = ''['' @ join '','' (map json_text xs) @ '']''"
| "json_text (JObj kvs) =
     ''{'' @ join '','' (map (\<lambda>kv. quoted (fst kv) @ '':'' @ json_text (snd kv))
                              (filter (\<lambda>kv. \<not> omitted (snd kv)) kvs)) @ ''}''"
| "json_text v = ''null''"


text \<open>
  \<^verbatim>\<open>String(value)\<close>. An object without a prototype has no \<^verbatim>\<open>toString\<close>, so its conversion
  throws a \<^verbatim>\<open>TypeError\<close>. An array is converted by joining the conversions of its elements,
  \<^verbatim>\<open>undefined\<close> and \<^verbatim>\<open>null\<close> giving the empty string; an element that is a symbol, or whose
  conversion throws, makes the array's conversion throw.
\<close>

fun string_of :: "jsvalue \<Rightarrow> thrown + string"
  and element_strings :: "jsvalue list \<Rightarrow> thrown + string list" where
  "string_of JUndefined = Inr ''undefined''"
| "string_of JNull = Inr ''null''"
| "string_of (JBool b) = Inr (if b then ''true'' else ''false'')"
| "string_of (JNum i) = Inr (decimal i)"
| "string_of (JStr s) = Inr s"
| "string_of (JArr xs) =
     (case element_strings xs of
        Inl error \<Rightarrow> Inl error
      | Inr renderings \<Rightarrow> Inr (join '','' renderings))"
| "string_of (JObj kvs) = Inr ''[object Object]''"
| "string_of (JFunction src) = Inr src"
| "string_of (JSymbol d) = Inr (''Symbol('' @ d @ '')'')"
| "string_of JCyclic = Inr ''[object Object]''"
| "string_of JBareCycle = Inl (ThrownError (Error ''Cannot convert object to primitive value''))"
| "element_strings [] = Inr []"
| "element_strings (x # xs) =
     (case (case x of
              JUndefined \<Rightarrow> Inr []
            | JNull \<Rightarrow> Inr []
            | JSymbol d \<Rightarrow> Inl (ThrownError (Error ''Cannot convert a Symbol value to a string''))
            | _ \<Rightarrow> string_of x) of
        Inl error \<Rightarrow> Inl error
      | Inr rendering \<Rightarrow>
          (case element_strings xs of
             Inl error \<Rightarrow> Inl error
           | Inr renderings \<Rightarrow> Inr (rendering # renderings)))"

subsection \<open>Reading JSON text\<close>

definition hex_value :: "char \<Rightarrow> nat option" where
  "hex_value c =
     (let n = (of_char c :: nat) in
      if 48 \<le> n \<and> n \<le> 57 then Some (n - 48)
      else if 97 \<le> n \<and> n \<le> 102 then Some (n - 87)
      else if 65 \<le> n \<and> n \<le> 70 then Some (n - 55)
      else None)"

definition unescape :: "char \<Rightarrow> char option" where
  "unescape e =
     (if e = quote_char then Some quote_char
      else if e = backslash then Some backslash
      else if e = CHR ''/'' then Some CHR ''/''
      else if e = CHR ''b'' then Some (CHR 0x08)
      else if e = CHR ''f'' then Some (CHR 0x0C)
      else if e = CHR ''n'' then Some (CHR 0x0A)
      else if e = CHR ''r'' then Some (CHR 0x0D)
      else if e = CHR ''t'' then Some (CHR 0x09)
      else None)"

definition hex4 :: "char \<Rightarrow> char \<Rightarrow> char \<Rightarrow> char \<Rightarrow> char option" where
  "hex4 a b c d =
     (case (hex_value a, hex_value b, hex_value c, hex_value d) of
        (Some p, Some q, Some r, Some s) \<Rightarrow>
          (if p = 0 \<and> q = 0 then Some (char_of (16 * r + s)) else None)
      | _ \<Rightarrow> None)"

text \<open>The characters of a string up to its closing quote, and what follows the quote.\<close>

fun parse_chars :: "string \<Rightarrow> (string \<times> string) option" where
  "parse_chars [] = None"
| "parse_chars (c # cs) =
     (if c = quote_char then Some ([], cs)
      else if c = backslash then
        (case cs of
           [] \<Rightarrow> None
         | e # cs1 \<Rightarrow>
             if e = CHR ''u'' then
               (case cs1 of
                  a # b # x # y # cs2 \<Rightarrow>
                    (case hex4 a b x y of
                       None \<Rightarrow> None
                     | Some ch \<Rightarrow> map_option (apfst ((#) ch)) (parse_chars cs2))
                | _ \<Rightarrow> None)
             else (case unescape e of
                     None \<Rightarrow> None
                   | Some ch \<Rightarrow> map_option (apfst ((#) ch)) (parse_chars cs1)))
      else if (of_char c :: nat) < 32 then None
      else map_option (apfst ((#) c)) (parse_chars cs))"

definition is_digit :: "char \<Rightarrow> bool" where
  "is_digit c = (48 \<le> (of_char c :: nat) \<and> (of_char c :: nat) \<le> 57)"

definition digits_value :: "string \<Rightarrow> nat" where
  "digits_value ds = foldl (\<lambda>acc c. 10 * acc + (of_char c - 48)) 0 ds"

definition parse_number :: "string \<Rightarrow> (jsvalue \<times> string) option" where
  "parse_number s =
     (case s of
        [] \<Rightarrow> None
      | c # cs \<Rightarrow>
          if c = CHR ''-'' then
            (let ds = takeWhile is_digit cs in
             if ds = [] then None
             else Some (JNum (- int (digits_value ds)), dropWhile is_digit cs))
          else
            (let ds = takeWhile is_digit s in
             if ds = [] then None
             else Some (JNum (int (digits_value ds)), dropWhile is_digit s)))"

definition keyword :: "string \<Rightarrow> jsvalue \<Rightarrow> string \<Rightarrow> (jsvalue \<times> string) option" where
  "keyword k v s = (if take (length k) s = k then Some (v, drop (length k) s) else None)"

text \<open>
  A recursive-descent parser: a value at the head of the text, and the text that follows it.
  The first argument bounds the depth of the recursion; \<open>None\<close> is a syntax error.
\<close>

fun parse_value :: "nat \<Rightarrow> string \<Rightarrow> (jsvalue \<times> string) option"
and parse_elements :: "nat \<Rightarrow> string \<Rightarrow> (jsvalue list \<times> string) option"
and parse_members :: "nat \<Rightarrow> string \<Rightarrow> ((string \<times> jsvalue) list \<times> string) option" where
  "parse_value 0 s = None"
| "parse_value (Suc n) s =
     (case s of
        [] \<Rightarrow> None
      | c # cs \<Rightarrow>
          if c = CHR ''n'' then keyword ''null'' JNull s
          else if c = CHR ''t'' then keyword ''true'' (JBool True) s
          else if c = CHR ''f'' then keyword ''false'' (JBool False) s
          else if c = quote_char then map_option (apfst JStr) (parse_chars cs)
          else if c = CHR ''['' then
            (case cs of
               [] \<Rightarrow> None
             | d # ds \<Rightarrow> if d = CHR '']'' then Some (JArr [], ds)
                         else map_option (apfst JArr) (parse_elements n cs))
          else if c = CHR ''{'' then
            (case cs of
               [] \<Rightarrow> None
             | d # ds \<Rightarrow> if d = CHR ''}'' then Some (JObj [], ds)
                         else map_option (apfst JObj) (parse_members n cs))
          else parse_number s)"
| "parse_elements 0 s = None"
| "parse_elements (Suc n) s =
     (case parse_value n s of
        None \<Rightarrow> None
      | Some (v, r) \<Rightarrow>
          (case r of
             [] \<Rightarrow> None
           | d # ds \<Rightarrow>
               if d = CHR '','' then map_option (apfst ((#) v)) (parse_elements n ds)
               else if d = CHR '']'' then Some ([v], ds)
               else None))"
| "parse_members 0 s = None"
| "parse_members (Suc n) s =
     (case s of
        [] \<Rightarrow> None
      | q # s1 \<Rightarrow>
          if q \<noteq> quote_char then None
          else
            (case parse_chars s1 of
               None \<Rightarrow> None
             | Some (k, s2) \<Rightarrow>
                 (case s2 of
                    [] \<Rightarrow> None
                  | colon # s3 \<Rightarrow>
                      if colon \<noteq> CHR '':'' then None
                      else
                        (case parse_value n s3 of
                           None \<Rightarrow> None
                         | Some (v, r) \<Rightarrow>
                             (case r of
                                [] \<Rightarrow> None
                              | d # ds \<Rightarrow>
                                  if d = CHR '','' then map_option (apfst ((#) (k, v))) (parse_members n ds)
                                  else if d = CHR ''}'' then Some ([(k, v)], ds)
                                  else None)))))"

subsection \<open>The built-ins\<close>

definition reference_runtime :: js_runtime where
  "reference_runtime =
     \<lparr>JSON_stringify = (\<lambda>v. if cyclic v then Inl (ThrownError (Error ''Converting circular structure to JSON''))
                              else if omitted v then Inr None
                              else Inr (Some (json_text v))),
      JSON_parse = (\<lambda>s. case parse_value (Suc (length s)) s of
                           Some (v, []) \<Rightarrow> Inr v
                         | _ \<Rightarrow> Inl (ThrownError (Error ''Unexpected token in JSON''))),
      String_of = string_of\<rparr>"


subsection \<open>Backends and inputs\<close>

text \<open>
  A backend whose lister answers with the pages it holds, one per call, whatever the request;
  the other callbacks resolve and leave the pages alone.
\<close>

definition paged_backend ::
  "StoredCheckpoint option \<Rightarrow> (string \<Rightarrow> string \<Rightarrow> string \<Rightarrow> StoredWrite list)
     \<Rightarrow> (ListCheckpointsResult list) CallbackSaverConfig" where
  "paged_backend found ws =
     \<lparr>getCheckpoint = (\<lambda>tid ns cid s. (Inr found, s)),
      putCheckpoint = (\<lambda>sc s. (Inr (), s)),
      getWrites = (\<lambda>tid ns cid s. (Inr (ws tid ns cid), s)),
      putWrites = (\<lambda>batch s. (Inr (), s)),
      listCheckpoints = (\<lambda>opts s. case s of
                                     [] \<Rightarrow> (Inr \<lparr>checkpoints = [], nextCursor = None\<rparr>, [])
                                   | p # ps \<Rightarrow> (Inr p, ps)),
      deleteThread = (\<lambda>tid s. (Inr (), s)),
      cfg_namespace = Some ''default'',
      serialize = Some True\<rparr>"

text \<open>A backend every callback of which rejects with the same value.\<close>

definition rejecting_backend :: "thrown \<Rightarrow> unit CallbackSaverConfig" where
  "rejecting_backend t =
     \<lparr>getCheckpoint = (\<lambda>tid ns cid s. (Inl t, s)),
      putCheckpoint = (\<lambda>sc s. (Inl t, s)),
      getWrites = (\<lambda>tid ns cid s. (Inl t, s)),
      putWrites = (\<lambda>batch s. (Inl t, s)),
      listCheckpoints = (\<lambda>opts s. (Inl t, s)),
      deleteThread = (\<lambda>tid s. (Inl t, s)),
      cfg_namespace = Some ''default'',
      serialize = Some True\<rparr>"

text \<open>
  A backend whose lister answers from a script, one answer per call, each a page or a
  rejection, whatever the request; its \<^verbatim>\<open>getWrites\<close> resolves or rejects as a given function
  of the checkpoint's address says; the other callbacks resolve.
\<close>

definition scripted_backend ::
  "(string \<Rightarrow> string \<Rightarrow> string \<Rightarrow> thrown + StoredWrite list)
     \<Rightarrow> ((thrown + ListCheckpointsResult) list) CallbackSaverConfig" where
  "scripted_backend ws =
     \<lparr>getCheckpoint = (\<lambda>tid ns cid s. (Inr None, s)),
      putCheckpoint = (\<lambda>sc s. (Inr (), s)),
      getWrites = (\<lambda>tid ns cid s. (ws tid ns cid, s)),
      putWrites = (\<lambda>batch s. (Inr (), s)),
      listCheckpoints = (\<lambda>opts s. case s of
                                     [] \<Rightarrow> (Inr \<lparr>checkpoints = [], nextCursor = None\<rparr>, [])
                                   | answer # answers \<Rightarrow> (answer, answers)),
      deleteThread = (\<lambda>tid s. (Inr (), s)),
      cfg_namespace = Some ''default'',
      serialize = Some True\<rparr>"

text \<open>
  A page after which the loop goes on: it has a cursor, and the writes of each of its
  checkpoints resolve.
\<close>

definition writes_resolve ::
  "(string \<Rightarrow> string \<Rightarrow> string \<Rightarrow> thrown + StoredWrite list) \<Rightarrow> StoredCheckpoint \<Rightarrow> bool" where
  "writes_resolve ws sc =
     (case ws (threadId sc) (namespace sc) (checkpointId sc) of Inl t \<Rightarrow> False | Inr x \<Rightarrow> True)"

definition resolved_page ::
  "(string \<Rightarrow> string \<Rightarrow> string \<Rightarrow> thrown + StoredWrite list) \<Rightarrow> ListCheckpointsResult \<Rightarrow> bool" where
  "resolved_page ws q = (truthy (nextCursor q) \<and> list_all (writes_resolve ws) (checkpoints q))"

text \<open>
  The request the loop sends once it has consumed the pages \<open>qs\<close>: the first request, with
  \<open>before\<close> set to the cursor of each page in turn.
\<close>

definition request_after :: "ListCheckpointsOptions \<Rightarrow> ListCheckpointsResult list \<Rightarrow> ListCheckpointsOptions" where
  "request_after opts qs = foldl (\<lambda>request q. request\<lparr>before := nextCursor q\<rparr>) opts qs"

text \<open>Writes that are rejected for one checkpoint id and resolve, empty, for every other.\<close>

definition writes_failing_at ::
  "string \<Rightarrow> thrown \<Rightarrow> string \<Rightarrow> string \<Rightarrow> string \<Rightarrow> thrown + StoredWrite list" where
  "writes_failing_at bad t tid ns cid = (if cid = bad then Inl t else Inr [])"

text \<open>Configs, stored checkpoints, stored writes, a starting world and a clock.\<close>

definition thread_config :: "string \<Rightarrow> string option \<Rightarrow> RunnableConfig" where
  "thread_config tid cid =
     \<lparr>configurable = Some \<lparr>thread_id = Some tid, checkpoint_ns = None,
                            checkpoint_id = cid, checkpoint_parent_id = None\<rparr>\<rparr>"

definition stored :: "string \<Rightarrow> string option \<Rightarrow> StoredCheckpoint" where
  "stored cid parent =
     \<lparr>threadId = ''t1'', namespace = ''default'', checkpointId = cid,
      parentCheckpointId = parent,
      checkpoint = \<lparr>id_field = cid, content = JObj [(''v'', JNum 1)]\<rparr>,
      metadata = JObj [(''step'', JNum 1)], createdAt = 0, expiresAt = None\<rparr>"

definition is_ListCheckpointsCall :: "call \<Rightarrow> bool" where
  "is_ListCheckpointsCall c = (case c of ListCheckpointsCall opts \<Rightarrow> True | _ \<Rightarrow> False)"

definition no_writes :: "string \<Rightarrow> string \<Rightarrow> string \<Rightarrow> StoredWrite list" where
  "no_writes tid ns cid = []"

definition one_write :: "string \<Rightarrow> string \<Rightarrow> string \<Rightarrow> StoredWrite list" where
  "one_write tid ns cid =
     [\<lparr>w_threadId = tid, w_namespace = ns, w_checkpointId = cid, taskId = ''task-1'', idx = 0,
       channel = ''channel1'', write_type = ''write'', write_value = JStr ''[1,2]'',
       w_createdAt = 0, w_expiresAt = None\<rparr>]"

definition no_config :: RunnableConfig where
  "no_config = \<lparr>configurable = None\<rparr>"

definition start :: "'s \<Rightarrow> 's world" where
  "start s = \<lparr>store = s, trace = []\<rparr>"

definition midnight :: "nat \<Rightarrow> nat" where
  "midnight i = 0"

subsection \<open>Reading traces\<close>

text \<open>The invocations an operation added to the trace.\<close>

definition new_calls :: "'s world \<Rightarrow> 's world \<Rightarrow> (call \<times> thrown option) list" where
  "new_calls w w' = drop (length (trace w)) (trace w')"

text \<open>
  A trace in which a rejection, if there is one, is the last invocation and is what was raised.
\<close>

definition surfaced :: "thrown option \<Rightarrow> (call \<times> thrown option) list \<Rightarrow> bool" where
  "surfaced raised evs =
     (\<forall>c t. (c, Some t) \<in> set evs \<longrightarrow>
        raised = Some t \<and> (\<exists>pre. evs = pre @ [(c, Some t)] \<and> (\<forall>x \<in> set pre. snd x = None)))"

definition database_down :: thrown where
  "database_down = ThrownError (Error ''Database down'')"

subsection \<open>JSON data\<close>

text \<open>
  The JSON data: null, booleans, numbers, strings, and arrays and objects of JSON data. These
  are the values the reference \<^verbatim>\<open>JSON.stringify\<close> writes out in full.
\<close>

fun json_data :: "jsvalue \<Rightarrow> bool" where
  "json_data JNull = True"
| "json_data (JBool b) = True"
| "json_data (JNum i) = True"
| "json_data (JStr s) = True"
| "json_data (JArr xs) = (\<forall>x \<in> set xs. json_data x)"
| "json_data (JObj kvs) = (\<forall>kv \<in> set kvs. json_data (snd kv))"
| "json_data v = False"

text \<open>A number in a JSON text ends where the text ends or a character that is no digit follows.\<close>

definition number_end :: "string \<Rightarrow> bool" where
  "number_end r = (case r of [] \<Rightarrow> True | c # cs \<Rightarrow> \<not> is_digit c)"

text \<open>
  A value round-trips when the parser, given at least as many steps as its text has characters,
  reads the value back from its text and leaves what follows the text.
\<close>

definition round_trips :: "jsvalue \<Rightarrow> bool" where
  "round_trips v =
     (\<forall>n r. length (json_text v) \<le> n \<longrightarrow> number_end r \<longrightarrow> parse_value n (json_text v @ r) = Some (v, r))"

section \<open>Properties\<close>

subsection \<open>Where the codec and the conversions return\<close>

text \<open>
  A saver constructed without \<^verbatim>\<open>namespace\<close> and \<^verbatim>\<open>serialize\<close> has the defaults, and only an
  explicit \<^verbatim>\<open>serialize: false\<close> disables the codec.
\<close>

lemma CallbackSaver_new_defaults:
  "cfg_namespace (CallbackSaver_new config None None) = Some ''default''"
  "serialize (CallbackSaver_new config None None) = Some True"
  "serialize (CallbackSaver_new config ns ser) = Some False \<longleftrightarrow> ser = Some (Some False)"
  by (auto simp: CallbackSaver_new_def split: option.splits)

lemma serializeValue_enabled:
  "serialize this \<noteq> Some False \<Longrightarrow>
   serializeValue rt this v =
     (case JSON_stringify rt v of Inr (Some j) \<Rightarrow> Inr (JStr j) | _ \<Rightarrow> String_value rt v)"
  by (auto simp: serializeValue_def try_catch_def String_value_def split: sum.splits option.splits)

lemma serializeValue_disabled:
  "serialize this = Some False \<Longrightarrow> serializeValue rt this v = Inr v"
  by (simp add: serializeValue_def)

lemma deserializeValue_total: "\<exists>v'. deserializeValue rt this v = Inr v'"
  by (auto simp: deserializeValue_def try_catch_def split: sum.splits jsvalue.splits)

lemma map_throwing_Inr:
  "(\<And>x. x \<in> set xs \<Longrightarrow> f x = Inr (g x)) \<Longrightarrow> map_throwing f xs = Inr (map g xs)"
  by (induction xs) auto

lemma map_throwing_total:
  "(\<And>x. \<exists>y. f x = Inr y) \<Longrightarrow> \<exists>ys. map_throwing f xs = Inr ys"
proof (induction xs)
  case Nil
  show ?case by simp
next
  case (Cons x xs)
  from Cons obtain ys where "map_throwing f xs = Inr ys" by blast
  moreover from Cons.prems obtain y where "f x = Inr y" by blast
  ultimately show ?case by simp
qed

lemma toStoredWrite_Inr:
  "serializeValue rt this v = Inr kept \<Longrightarrow>
   toStoredWrite rt this now tid ns cid task (i, (ch, v)) =
     Inr \<lparr>w_threadId = tid, w_namespace = ns, w_checkpointId = cid,
          taskId = task, idx = i, channel = ch, write_type = ''write'',
          write_value = kept, w_createdAt = now i, w_expiresAt = None\<rparr>"
  by (auto simp: toStoredWrite_def serializeValue_disabled)

lemma toStoredWrite_Inl:
  "serialize this \<noteq> Some False \<Longrightarrow> serializeValue rt this v = Inl error \<Longrightarrow>
   toStoredWrite rt this now tid ns cid task (i, (ch, v)) = Inl error"
  by (simp add: toStoredWrite_def)

text \<open>
  When the codec returns for every value of the input, \<^verbatim>\<open>writes.map\<close> returns one record per
  write, in the input's order, numbered from the first index on.
\<close>

lemma storedWrites_Inr:
  "\<forall>x \<in> set writes. \<exists>kept. serializeValue rt this (snd x) = Inr kept \<Longrightarrow>
   \<exists>batch. map_throwing (toStoredWrite rt this now tid ns cid task) (enumerate n writes) = Inr batch
     \<and> map idx batch = map fst (enumerate n writes)
     \<and> map channel batch = map fst writes"
proof (induction writes arbitrary: n)
  case Nil
  then show ?case by simp
next
  case (Cons a writes)
  obtain ch v where a: "a = (ch, v)" by (cases a)
  from Cons.prems a obtain kept where k: "serializeValue rt this v = Inr kept" by auto
  from Cons.prems have "\<forall>x \<in> set writes. \<exists>kept. serializeValue rt this (snd x) = Inr kept" by simp
  from Cons.IH [OF this, of "Suc n"] obtain batch where
    b: "map_throwing (toStoredWrite rt this now tid ns cid task) (enumerate (Suc n) writes) = Inr batch"
      "map idx batch = map fst (enumerate (Suc n) writes)"
      "map channel batch = map fst writes"
    by blast
  show ?case
    using b by (simp add: a toStoredWrite_Inr [OF k])
qed

lemma toPendingWrite_total: "\<exists>p. toPendingWrite rt this x = Inr p"
  using deserializeValue_total [of rt this "write_value x"]
  by (auto simp: toPendingWrite_def)

lemma toTuple_Inr:
  "\<exists>pending. toTuple rt this sc ws =
     Inr \<lparr>t_config = \<lparr>configurable = Some
                 \<lparr>thread_id = Some (threadId sc),
                  checkpoint_ns = Some (namespace sc),
                  checkpoint_id = Some (checkpointId sc),
                  checkpoint_parent_id =
                    (if truthy (parentCheckpointId sc) then parentCheckpointId sc else None)\<rparr>\<rparr>,
               t_checkpoint = checkpoint sc,
               t_metadata = metadata sc,
               parentConfig =
                 (if truthy (parentCheckpointId sc)
                  then Some \<lparr>configurable = Some
                         \<lparr>thread_id = Some (threadId sc),
                          checkpoint_ns = Some (namespace sc),
                          checkpoint_id = parentCheckpointId sc,
                          checkpoint_parent_id = None\<rparr>\<rparr>
                  else None),
               pendingWrites = pending\<rparr>"
proof -
  obtain pending where "map_throwing (toPendingWrite rt this) ws = Inr pending"
    using map_throwing_total [of "toPendingWrite rt this" ws] toPendingWrite_total by blast
  then show ?thesis by (simp add: toTuple_def)
qed

lemma await_eq:
  "await c f w = (fst (f (store w)), \<lparr>store = snd (f (store w)), trace = trace w @ [(c, rejection (fst (f (store w))))]\<rparr>)"
  by (simp add: await_def split: prod.splits)

subsection \<open>Where a rejection sits in the trace\<close>

lemma surfaced_None: "surfaced None evs \<Longrightarrow> \<forall>x \<in> set evs. snd x = None"
proof
  fix x assume s: "surfaced None evs" and x: "x \<in> set evs"
  show "snd x = None"
  proof (cases "snd x")
    case None then show ?thesis .
  next
    case (Some t)
    then have "(fst x, Some t) \<in> set evs" using x by (metis prod.collapse)
    with s show ?thesis unfolding surfaced_def by blast
  qed
qed

lemma surfaced_append:
  assumes "\<forall>x \<in> set evs1. snd x = None" and "surfaced r evs2"
  shows "surfaced r (evs1 @ evs2)"
  unfolding surfaced_def
proof (intro allI impI)
  fix c t assume "(c, Some t) \<in> set (evs1 @ evs2)"
  with assms(1) have "(c, Some t) \<in> set evs2" by force
  with assms(2) obtain pre where "r = Some t" "evs2 = pre @ [(c, Some t)]" "\<forall>x \<in> set pre. snd x = None"
    unfolding surfaced_def by blast
  with assms(1) show "r = Some t \<and> (\<exists>pre. evs1 @ evs2 = pre @ [(c, Some t)] \<and> (\<forall>x \<in> set pre. snd x = None))"
    by (intro conjI exI [of _ "evs1 @ pre"]) auto
qed

lemma surfaced_single: "surfaced (rejection r) [(c, rejection r)]"
  unfolding surfaced_def by auto

lemma surfaced_single_Inl: "surfaced (Some t) [(c, Some t)]"
  unfolding surfaced_def by auto

lemma surfaced_single_None: "surfaced r [(c, None)]"
  unfolding surfaced_def by auto

lemma surfaced_Nil: "surfaced r []"
  unfolding surfaced_def by auto

lemma surfacedD:
  "surfaced r evs \<Longrightarrow> (c, Some t) \<in> set evs \<Longrightarrow>
     r = Some t \<and> (\<exists>pre. evs = pre @ [(c, Some t)] \<and> (\<forall>x \<in> set pre. snd x = None))"
  unfolding surfaced_def by blast

lemma yield_tuples_surfaced:
  "yield_tuples rt this cps w = ((ts, r), w') \<Longrightarrow> \<exists>evs. trace w' = trace w @ evs \<and> surfaced r evs"
proof (induction cps arbitrary: w ts r w')
  case Nil
  then show ?case by (auto simp: surfaced_Nil)
next
  case (Cons sc cps)
  obtain res s1 where g: "getWrites this (threadId sc) (namespace sc) (checkpointId sc) (store w) = (res, s1)"
    by (cases "getWrites this (threadId sc) (namespace sc) (checkpointId sc) (store w)")
  let ?c = "GetWritesCall (threadId sc) (namespace sc) (checkpointId sc)"
  show ?case
  proof (cases res)
    case (Inl e)
    with Cons.prems g have "r = Some e" "trace w' = trace w @ [(?c, Some e)]"
      by (auto simp: await_eq rejection_def)
    then show ?thesis using surfaced_single_Inl by blast
  next
    case (Inr ws)
    obtain tuple where t: "toTuple rt this sc ws = Inr tuple" using toTuple_Inr by blast
    let ?w1 = "\<lparr>store = s1, trace = trace w @ [(?c, None)]\<rparr>"
    obtain ts2 r2 w2 where y: "yield_tuples rt this cps ?w1 = ((ts2, r2), w2)"
      by (metis prod.collapse)
    from Cons.IH [OF y] obtain evs where e: "trace w2 = trace ?w1 @ evs" "surfaced r2 evs" by blast
    from Cons.prems g Inr t y have "r = r2" "w' = w2"
      by (auto simp: await_eq rejection_def)
    with e have "trace w' = trace w @ ([(?c, None)] @ evs)" by simp
    moreover have "surfaced r ([(?c, None)] @ evs)"
      using e(2) \<open>r = r2\<close> by (intro surfaced_append) auto
    ultimately show ?thesis by blast
  qed
qed

lemma list_loop_surfaced:
  "list_loop n rt this opts w = Some ((ts, r), w') \<Longrightarrow> \<exists>evs. trace w' = trace w @ evs \<and> surfaced r evs"
proof (induction n arbitrary: opts w ts r w')
  case 0
  then show ?case by simp
next
  case (Suc n)
  obtain res s1 where l: "listCheckpoints this opts (store w) = (res, s1)"
    by (cases "listCheckpoints this opts (store w)")
  let ?c = "ListCheckpointsCall opts"
  show ?case
  proof (cases res)
    case (Inl e)
    with Suc.prems l have "r = Some e" "trace w' = trace w @ [(?c, Some e)]"
      by (auto simp: await_eq rejection_def)
    then show ?thesis using surfaced_single_Inl by blast
  next
    case (Inr page)
    let ?w1 = "\<lparr>store = s1, trace = trace w @ [(?c, None)]\<rparr>"
    obtain ts1 r1 w2 where y: "yield_tuples rt this (checkpoints page) ?w1 = ((ts1, r1), w2)"
      by (metis prod.collapse)
    from yield_tuples_surfaced [OF y] obtain evs1 where
      e1: "trace w2 = trace ?w1 @ evs1" "surfaced r1 evs1" by blast
    show ?thesis
    proof (cases r1)
      case (Some e)
      with Suc.prems l Inr y have "r = r1" "w' = w2"
        by (auto simp: await_eq rejection_def)
      with e1 have "trace w' = trace w @ ([(?c, None)] @ evs1)" by simp
      moreover have "surfaced r ([(?c, None)] @ evs1)"
        using e1(2) \<open>r = r1\<close> by (intro surfaced_append) auto
      ultimately show ?thesis by blast
    next
      case None
      have clean1: "\<forall>x \<in> set ([(?c, None)] @ evs1). snd x = None"
        using surfaced_None e1(2) None by auto
      show ?thesis
      proof (cases "truthy (nextCursor page)")
        case False
        with Suc.prems l Inr y None have "r = None" "w' = w2"
          by (auto simp: await_eq rejection_def)
        with e1 have "trace w' = trace w @ ([(?c, None)] @ evs1)" by simp
        moreover have "surfaced r ([(?c, None)] @ evs1)"
          using clean1 unfolding surfaced_def by force
        ultimately show ?thesis by blast
      next
        case True
        with Suc.prems l Inr y None obtain later where
          rec: "list_loop n rt this (opts\<lparr>before := nextCursor page\<rparr>) w2 = Some ((later, r), w')"
          by (auto simp: await_eq rejection_def split: option.splits)
        from Suc.IH [OF rec] obtain evs2 where e2: "trace w' = trace w2 @ evs2" "surfaced r evs2" by blast
        have "trace w' = trace w @ (([(?c, None)] @ evs1) @ evs2)" using e1 e2 by simp
        moreover have "surfaced r (([(?c, None)] @ evs1) @ evs2)"
          using clean1 e2(2) by (rule surfaced_append)
        ultimately show ?thesis by blast
      qed
    qed
  qed
qed

lemma getTuple_try_surfaced:
  "getTuple_try rt this config w = (r, w') \<Longrightarrow>
     \<exists>evs. trace w' = trace w @ evs \<and> (\<forall>c t. (c, Some t) \<in> set evs \<longrightarrow> r = Inl t) \<and> surfaced (rejection r) evs"
proof -
  assume a: "getTuple_try rt this config w = (r, w')"
  show ?thesis
  proof (cases "truthy (opt_field thread_id config)")
    case False
    with a have "w' = w" by (simp add: getTuple_try_def Let_def)
    then show ?thesis by (intro exI [of _ "[]"]) (simp add: surfaced_Nil)
  next
    case True
    let ?tid = "the (opt_field thread_id config)" and ?ns = "resolve_namespace this config"
      and ?cid = "opt_field checkpoint_id config"
    obtain res s1 where g: "getCheckpoint this ?tid ?ns ?cid (store w) = (res, s1)"
      by (metis prod.collapse)
    show ?thesis
    proof (cases res)
      case (Inl e)
      with a g True have "r = Inl e" "trace w' = trace w @ [(GetCheckpointCall ?tid ?ns ?cid, Some e)]"
        by (auto simp: getTuple_try_def Let_def await_eq rejection_def)
      then show ?thesis
        by (intro exI [of _ "[(GetCheckpointCall ?tid ?ns ?cid, Some e)]"])
           (simp add: surfaced_single_Inl rejection_def)
    next
      case (Inr found)
      show ?thesis
      proof (cases found)
        case None
        with a g True Inr have "r = Inr None" "trace w' = trace w @ [(GetCheckpointCall ?tid ?ns ?cid, None)]"
          by (auto simp: getTuple_try_def Let_def await_eq rejection_def)
        then show ?thesis
          by (intro exI [of _ "[(GetCheckpointCall ?tid ?ns ?cid, None)]"])
             (simp add: surfaced_single_None)
      next
        case (Some sc)
        obtain res2 s2 where g2: "getWrites this (threadId sc) (namespace sc) (checkpointId sc) s1 = (res2, s2)"
          by (metis prod.collapse)
        let ?c2 = "GetWritesCall (threadId sc) (namespace sc) (checkpointId sc)"
        show ?thesis
        proof (cases res2)
          case (Inl e)
          with a g g2 True Inr Some have "r = Inl e"
            "trace w' = trace w @ [(GetCheckpointCall ?tid ?ns ?cid, None), (?c2, Some e)]"
            by (auto simp: getTuple_try_def Let_def await_eq rejection_def)
          moreover have "surfaced (Some e) ([(GetCheckpointCall ?tid ?ns ?cid, None)] @ [(?c2, Some e)])"
            by (intro surfaced_append surfaced_single_Inl) simp
          ultimately show ?thesis
            by (intro exI [of _ "[(GetCheckpointCall ?tid ?ns ?cid, None), (?c2, Some e)]"])
               (simp add: rejection_def)
        next
          case (Inr ws)
          obtain tuple where "toTuple rt this sc ws = Inr tuple" using toTuple_Inr by blast
          with a g g2 True \<open>res = Inr found\<close> Some Inr have "r = Inr (Some tuple)"
            "trace w' = trace w @ [(GetCheckpointCall ?tid ?ns ?cid, None), (?c2, None)]"
            by (auto simp: getTuple_try_def Let_def await_eq rejection_def)
          then show ?thesis
            by (intro exI [of _ "[(GetCheckpointCall ?tid ?ns ?cid, None), (?c2, None)]"])
               (simp add: surfaced_def rejection_def)
        qed
      qed
    qed
  qed
qed

lemma await_surfaced:
  "await c f w = (r, w') \<Longrightarrow>
     \<exists>evs. trace w' = trace w @ evs \<and> (\<forall>c t. (c, Some t) \<in> set evs \<longrightarrow> r = Inl t) \<and> surfaced (rejection r) evs"
  by (intro exI [of _ "[(c, rejection r)]"])
     (auto simp: await_eq surfaced_single_Inl surfaced_single_None rejection_def split: sum.splits)

lemma put_try_surfaced:
  "put_try this now config cp md w = (r, w') \<Longrightarrow>
     \<exists>evs. trace w' = trace w @ evs \<and> (\<forall>c t. (c, Some t) \<in> set evs \<longrightarrow> r = Inl t) \<and> surfaced (rejection r) evs"
proof -
  assume a: "put_try this now config cp md w = (r, w')"
  show ?thesis
  proof (cases "truthy (opt_field thread_id config)")
    case False
    with a have "w' = w" by (simp add: put_try_def Let_def)
    then show ?thesis by (intro exI [of _ "[]"]) (simp add: surfaced_Nil)
  next
    case True
    let ?sc = "\<lparr>threadId = the (opt_field thread_id config), namespace = resolve_namespace this config,
                checkpointId = id_field cp, parentCheckpointId = opt_field checkpoint_id config,
                checkpoint = cp, metadata = md, createdAt = now, expiresAt = None\<rparr>"
    obtain res s1 where g: "putCheckpoint this ?sc (store w) = (res, s1)" by (metis prod.collapse)
    show ?thesis
    proof (cases res)
      case (Inl e)
      with a g True have "r = Inl e" "trace w' = trace w @ [(PutCheckpointCall ?sc, Some e)]"
        by (auto simp: put_try_def Let_def await_eq rejection_def)
      then show ?thesis
        by (intro exI [of _ "[(PutCheckpointCall ?sc, Some e)]"]) (simp add: surfaced_single_Inl rejection_def)
    next
      case (Inr u)
      with a g True have "\<exists>c. r = Inr c" "trace w' = trace w @ [(PutCheckpointCall ?sc, None)]"
        by (auto simp: put_try_def Let_def await_eq rejection_def)
      then show ?thesis
        by (intro exI [of _ "[(PutCheckpointCall ?sc, None)]"]) (auto simp: surfaced_single_None)
    qed
  qed
qed

lemma putWrites_try_surfaced:
  "putWrites_try rt this now config writes task w = (r, w') \<Longrightarrow>
     \<exists>evs. trace w' = trace w @ evs \<and> (\<forall>c t. (c, Some t) \<in> set evs \<longrightarrow> r = Inl t) \<and> surfaced (rejection r) evs"
proof -
  assume a: "putWrites_try rt this now config writes task w = (r, w')"
  show ?thesis
  proof (cases "truthy (opt_field thread_id config) \<and> truthy (opt_field checkpoint_id config)")
    case False
    with a have "w' = w" by (auto simp: putWrites_try_def Let_def split: if_splits)
    then show ?thesis by (intro exI [of _ "[]"]) (simp add: surfaced_Nil)
  next
    case True
    show ?thesis
    proof (cases "map_throwing (toStoredWrite rt this now (the (opt_field thread_id config))
          (resolve_namespace this config) (the (opt_field checkpoint_id config)) task) (enumerate 0 writes)")
      case (Inl error)
      with a True have "w' = w" by (simp add: putWrites_try_def Let_def)
      then show ?thesis by (intro exI [of _ "[]"]) (simp add: surfaced_Nil)
    next
      case (Inr batch)
      with a True have "await (PutWritesCall batch) (putWrites this batch) w = (r, w')"
        by (simp add: putWrites_try_def Let_def)
      then show ?thesis by (rule await_surfaced)
    qed
  qed
qed

lemma rethrow_surfaced:
  assumes "rethrow rt what (body) = (r, w')"
    and "\<And>r0. body = (r0, w') \<Longrightarrow> \<exists>evs. trace w' = trace w @ evs \<and> (\<forall>c t. (c, Some t) \<in> set evs \<longrightarrow> r0 = Inl t) \<and> surfaced (rejection r0) evs"
    and "(c, Some t) \<in> set (new_calls w w')"
  shows "r = Inl (wrap rt what t) \<and> (\<exists>pre. new_calls w w' = pre @ [(c, Some t)] \<and> (\<forall>x \<in> set pre. snd x = None))"
proof -
  obtain r0 where b: "body = (r0, w')" and r: "r = (case r0 of Inl e \<Rightarrow> Inl (wrap rt what e) | Inr v \<Rightarrow> Inr v)"
    using assms(1) by (cases body) (auto simp: rethrow_def split: sum.splits)
  from assms(2) [OF b] obtain evs where e: "trace w' = trace w @ evs"
    "\<forall>c t. (c, Some t) \<in> set evs \<longrightarrow> r0 = Inl t" "surfaced (rejection r0) evs" by blast
  have n: "new_calls w w' = evs" using e(1) by (simp add: new_calls_def)
  with assms(3) e(2) have "r0 = Inl t" by blast
  with r have "r = Inl (wrap rt what t)" by simp
  moreover from surfacedD [OF e(3)] assms(3) n
  have "\<exists>pre. new_calls w w' = pre @ [(c, Some t)] \<and> (\<forall>x \<in> set pre. snd x = None)" by simp
  ultimately show ?thesis by blast
qed

subsection \<open>The reference instances\<close>

lemma thread_config_fields:
  "opt_field thread_id (thread_config tid cid) = Some tid"
  "opt_field checkpoint_id (thread_config tid cid) = cid"
  "opt_field checkpoint_ns (thread_config tid cid) = None"
  by (simp_all add: thread_config_def opt_field_def)

lemma resolve_namespace_default:
  "cfg_namespace this = Some ''default'' \<Longrightarrow> resolve_namespace this (thread_config tid cid) = ''default''"
  by (simp add: resolve_namespace_def thread_config_fields)

lemma paged_backend_namespace: "cfg_namespace (paged_backend found ws) = Some ''default''"
  by (simp add: paged_backend_def)

lemma rejecting_backend_namespace: "cfg_namespace (rejecting_backend t) = Some ''default''"
  by (simp add: rejecting_backend_def)

lemma start_fields: "trace (start s) = []" "store (start s) = s"
  by (simp_all add: start_def)

lemma stored_fields:
  "threadId (stored cid parent) = ''t1''"
  "namespace (stored cid parent) = ''default''"
  "checkpointId (stored cid parent) = cid"
  "parentCheckpointId (stored cid parent) = parent"
  by (simp_all add: stored_def)

lemma reference_runtime_fields:
  "String_of reference_runtime = string_of"
  "JSON_stringify reference_runtime v =
     (if cyclic v then Inl (ThrownError (Error ''Converting circular structure to JSON''))
      else if omitted v then Inr None
      else Inr (Some (json_text v)))"
  "JSON_parse reference_runtime s =
     (case parse_value (Suc (length s)) s of
        Some (v, []) \<Rightarrow> Inr v
      | _ \<Rightarrow> Inl (ThrownError (Error ''Unexpected token in JSON'')))"
  by (simp_all add: reference_runtime_def)

lemma rejecting_backend_fields:
  "getCheckpoint (rejecting_backend t) tid ns cid s = (Inl t, s)"
  "putCheckpoint (rejecting_backend t) sc s = (Inl t, s)"
  "getWrites (rejecting_backend t) tid ns c s = (Inl t, s)"
  "putWrites (rejecting_backend t) batch s = (Inl t, s)"
  "listCheckpoints (rejecting_backend t) opts s = (Inl t, s)"
  "deleteThread (rejecting_backend t) tid s = (Inl t, s)"
  by (simp_all add: rejecting_backend_def)

lemma paged_backend_fields:
  "getWrites (paged_backend found ws) tid ns cid s = (Inr (ws tid ns cid), s)"
  "listCheckpoints (paged_backend found ws) opts (p # ps) = (Inr p, ps)"
  "getCheckpoint (paged_backend found ws) tid ns c s = (Inr found, s)"
  "putWrites (paged_backend found ws) batch s = (Inr (), s)"
  "serialize (paged_backend found ws) = Some True"
  by (simp_all add: paged_backend_def)

subsection \<open>The reference parser reads back what the reference printer writes\<close>

lemma digit_char: "n < 10 \<Longrightarrow> of_char (''0123456789'' ! n) = 48 + n"
proof -
  have "\<forall>k \<in> set [0 ..< 10]. of_char (''0123456789'' ! k) = 48 + k"
    by (simp add: upt_rec)
  then show "n < 10 \<Longrightarrow> of_char (''0123456789'' ! n) = 48 + n"
    by simp
qed

lemma digits_all: "\<forall>c \<in> set (digits n). is_digit c"
proof (induction n rule: digits.induct)
  case (1 n)
  show ?case
  proof (cases "n < 10")
    case True
    then show ?thesis by (subst digits.simps) (simp add: is_digit_def digit_char)
  next
    case False
    have "n mod 10 < 10" by simp
    then have "is_digit (''0123456789'' ! (n mod 10))"
      unfolding is_digit_def by (simp only: digit_char) simp
    with 1 False show ?thesis by (subst digits.simps) simp
  qed
qed

lemma digits_nonempty: "digits n \<noteq> []"
  by (subst digits.simps) simp

lemma digits_value_digits: "digits_value (digits n) = n"
proof (induction n rule: digits.induct)
  case (1 n)
  show ?case
  proof (cases "n < 10")
    case True
    then show ?thesis by (subst digits.simps) (simp add: digits_value_def digit_char)
  next
    case False
    have m: "n mod 10 < 10" by simp
    have "digits_value (digits n) = 10 * digits_value (digits (n div 10)) + (of_char (''0123456789'' ! (n mod 10)) - 48)"
      using False by (subst digits.simps) (simp add: digits_value_def)
    also have "\<dots> = 10 * (n div 10) + n mod 10"
      using 1 False by (simp only: digit_char [OF m]) simp
    finally show ?thesis by simp
  qed
qed

lemma takeWhile_digits:
  "number_end r \<Longrightarrow> takeWhile is_digit (digits n @ r) = digits n \<and> dropWhile is_digit (digits n @ r) = r"
  using digits_all [of n]
  by (cases r) (auto simp: number_end_def takeWhile_append2 dropWhile_append2 takeWhile_eq_all_conv)

lemma parse_number_decimal:
  assumes "number_end r"
  shows "parse_number (decimal i @ r) = Some (JNum i, r)"
proof (cases "i < 0")
  case True
  then show ?thesis
    using takeWhile_digits [OF assms, of "nat (- i)"] digits_nonempty [of "nat (- i)"]
    by (simp add: parse_number_def decimal_def digits_value_digits)
next
  case False
  obtain d ds where d: "digits (nat i) = d # ds" using digits_nonempty by (cases "digits (nat i)") auto
  have "is_digit d" using digits_all [of "nat i"] d by simp
  then have nm: "d \<noteq> CHR ''-''" by (auto simp: is_digit_def)
  have tw: "takeWhile is_digit (d # ds @ r) = d # ds" "dropWhile is_digit (d # ds @ r) = r"
    using takeWhile_digits [OF assms, of "nat i"] d by simp_all
  show ?thesis
    using False nm tw digits_value_digits [of "nat i"] d
    by (simp add: parse_number_def decimal_def del: takeWhile.simps dropWhile.simps)
qed

lemma hex_value_hex_digit: "k < 16 \<Longrightarrow> hex_value (hex_digit k) = Some k"
proof -
  have "\<forall>j \<in> set [0 ..< 16]. hex_value (hex_digit j) = Some j"
    by (simp add: upt_rec hex_value_def hex_digit_def)
  then show "k < 16 \<Longrightarrow> hex_value (hex_digit k) = Some k"
    by simp
qed

lemma hex4_control:
  assumes "(of_char c :: nat) < 32"
  shows "hex4 CHR ''0'' CHR ''0'' (hex_digit (of_char c div 16)) (hex_digit (of_char c mod 16)) = Some c"
proof -
  have a: "(of_char c :: nat) div 16 < 16" using assms by simp
  have b: "(of_char c :: nat) mod 16 < 16" by simp
  have z: "hex_value CHR ''0'' = Some 0" by (simp add: hex_value_def)
  have "char_of (16 * ((of_char c :: nat) div 16) + of_char c mod 16) = c" by simp
  then show ?thesis
    by (simp add: hex4_def z hex_value_hex_digit [OF a] hex_value_hex_digit [OF b])
qed

lemma parse_chars_escape:
  "parse_chars (escape_char c @ r) = map_option (apfst ((#) c)) (parse_chars r)"
proof -
  consider (is_quote) "c = quote_char" | (is_backslash) "c = backslash"
    | (c08) "c = CHR 0x08" | (c0C) "c = CHR 0x0C" | (c0A) "c = CHR 0x0A" | (c0D) "c = CHR 0x0D"
    | (c09) "c = CHR 0x09"
    | (control) "c \<noteq> quote_char" "c \<noteq> backslash" "c \<noteq> CHR 0x08" "c \<noteq> CHR 0x0C" "c \<noteq> CHR 0x0A"
        "c \<noteq> CHR 0x0D" "c \<noteq> CHR 0x09" "(of_char c :: nat) < 32"
    | (plain) "c \<noteq> quote_char" "c \<noteq> backslash" "c \<noteq> CHR 0x08" "c \<noteq> CHR 0x0C" "c \<noteq> CHR 0x0A"
        "c \<noteq> CHR 0x0D" "c \<noteq> CHR 0x09" "\<not> (of_char c :: nat) < 32"
    by blast
  then show ?thesis
  proof cases
    case control
    have u: "backslash \<noteq> quote_char" by (simp add: backslash_def quote_char_def)
    show ?thesis
      using control u
      by (simp add: escape_char_def hex4_control)
  next
    case plain
    then show ?thesis by (simp add: escape_char_def)
  qed (simp_all add: escape_char_def unescape_def quote_char_def backslash_def)
qed

lemma parse_chars_quoted:
  "parse_chars (concat (map escape_char s) @ quote_char # r) = Some (s, r)"
  by (induction s) (simp_all add: parse_chars_escape del: parse_chars.simps, simp)

lemma decimal_start:
  "\<exists>c cs. decimal i = c # cs \<and> (c = CHR ''-'' \<or> is_digit c)"
proof (cases "i < 0")
  case True
  then show ?thesis by (simp add: decimal_def)
next
  case False
  obtain d ds where d: "digits (nat i) = d # ds" using digits_nonempty by (cases "digits (nat i)") auto
  have "is_digit d" using digits_all [of "nat i"] d by simp
  with False d show ?thesis by (simp add: decimal_def)
qed

lemma json_text_start:
  "json_data v \<Longrightarrow> \<exists>c cs. json_text v = c # cs \<and> c \<noteq> CHR '']'' \<and> c \<noteq> CHR ''}''"
proof (cases v)
  case (JNum i)
  obtain c cs where "decimal i = c # cs" "c = CHR ''-'' \<or> is_digit c" using decimal_start by blast
  then show ?thesis using JNum by (auto simp: is_digit_def)
qed (auto simp: quoted_def quote_char_def)

lemma number_end_simps [simp]:
  "number_end (CHR '','' # r)" "number_end (CHR '']'' # r)" "number_end (CHR ''}'' # r)" "number_end []"
  by (simp_all add: number_end_def is_digit_def)

lemma parse_elements_join:
  assumes "\<And>x. x \<in> set xs \<Longrightarrow> round_trips x" and "xs \<noteq> []"
  shows "length (join '','' (map json_text xs)) < n \<Longrightarrow>
         parse_elements n (join '','' (map json_text xs) @ CHR '']'' # r) = Some (xs, r)"
  using assms
proof (induction xs arbitrary: n)
  case Nil
  then show ?case by simp
next
  case (Cons x xs)
  obtain m where n: "n = Suc m" using Cons.prems(1) by (cases n) auto
  have x: "round_trips x" using Cons.prems(2) by simp
  show ?case
  proof (cases xs)
    case Nil
    have "length (json_text x) \<le> m" using Cons.prems(1) n Nil by simp
    with x have "parse_value m (json_text x @ CHR '']'' # r) = Some (x, CHR '']'' # r)"
      unfolding round_trips_def by simp
    then show ?thesis using n Nil by simp
  next
    case (Cons y ys)
    have len: "length (json_text x) \<le> m" "length (join '','' (map json_text xs)) < m"
      using Cons.prems(1) n Cons by simp_all
    let ?rest = "join '','' (map json_text xs) @ CHR '']'' # r"
    from x len(1) have "parse_value m (json_text x @ CHR '','' # ?rest) = Some (x, CHR '','' # ?rest)"
      unfolding round_trips_def by simp
    moreover have "parse_elements m ?rest = Some (xs, r)"
      using Cons.IH [OF len(2)] Cons.prems(2) Cons by simp
    ultimately show ?thesis using n Cons by simp
  qed
qed

lemma parse_members_join:
  assumes "\<And>kv. kv \<in> set kvs \<Longrightarrow> round_trips (snd kv)" and "kvs \<noteq> []"
  shows "length (join '','' (map (\<lambda>kv. quoted (fst kv) @ '':'' @ json_text (snd kv)) kvs)) < n \<Longrightarrow>
         parse_members n (join '','' (map (\<lambda>kv. quoted (fst kv) @ '':'' @ json_text (snd kv)) kvs) @ CHR ''}'' # r)
           = Some (kvs, r)"
  using assms
proof (induction kvs arbitrary: n)
  case Nil
  then show ?case by simp
next
  case (Cons kv kvs)
  obtain k v where kv: "kv = (k, v)" by (cases kv)
  obtain m where n: "n = Suc m" using Cons.prems(1) by (cases n) auto
  have v: "round_trips v" using Cons.prems(2) [of kv] kv by simp
  show ?case
  proof (cases kvs)
    case Nil
    have "length (json_text v) \<le> m" using Cons.prems(1) n Nil kv by simp
    with v have "parse_value m (json_text v @ CHR ''}'' # r) = Some (v, CHR ''}'' # r)"
      unfolding round_trips_def by simp
    then show ?thesis using n Nil kv by (simp add: quoted_def parse_chars_quoted del: parse_chars.simps)
  next
    case (Cons kv2 kvs2)
    let ?member = "\<lambda>kv. quoted (fst kv) @ '':'' @ json_text (snd kv)"
    have len: "length (json_text v) \<le> m" "length (join '','' (map ?member kvs)) < m"
      using Cons.prems(1) n Cons kv by simp_all
    let ?rest = "join '','' (map ?member kvs) @ CHR ''}'' # r"
    from v len(1) have "parse_value m (json_text v @ CHR '','' # ?rest) = Some (v, CHR '','' # ?rest)"
      unfolding round_trips_def by simp
    moreover have "parse_members m ?rest = Some (kvs, r)"
      using Cons.IH [OF len(2)] Cons.prems(2) Cons by simp
    ultimately show ?thesis using n Cons kv
      by (simp add: quoted_def parse_chars_quoted del: parse_chars.simps)
  qed
qed

lemma filter_not_omitted:
  "\<forall>kv \<in> set kvs. json_data (snd kv) \<Longrightarrow> filter (\<lambda>kv. \<not> omitted (snd kv)) kvs = kvs"
proof -
  have "json_data v \<Longrightarrow> \<not> omitted v" for v by (cases v) auto
  then show "\<forall>kv \<in> set kvs. json_data (snd kv) \<Longrightarrow> filter (\<lambda>kv. \<not> omitted (snd kv)) kvs = kvs"
    by (simp add: filter_id_conv)
qed

lemma json_data_round_trips: "json_data v \<Longrightarrow> round_trips v"
proof (induction v)
  case JNull
  show ?case unfolding round_trips_def
  proof (intro allI impI)
    fix n r assume "length (json_text JNull) \<le> n"
    then obtain m where "n = Suc m" by (cases n) auto
    then show "parse_value n (json_text JNull @ r) = Some (JNull, r)" by (simp add: keyword_def)
  qed
next
  case (JBool b)
  show ?case unfolding round_trips_def
  proof (intro allI impI)
    fix n r assume "length (json_text (JBool b)) \<le> n"
    then obtain m where "n = Suc m" by (cases n) (auto split: if_splits)
    then show "parse_value n (json_text (JBool b) @ r) = Some (JBool b, r)" by (simp add: keyword_def)
  qed
next
  case (JNum i)
  show ?case unfolding round_trips_def
  proof (intro allI impI)
    fix n r assume len: "length (json_text (JNum i)) \<le> n" and r: "number_end r"
    obtain c cs where d: "decimal i = c # cs" "c = CHR ''-'' \<or> is_digit c" using decimal_start by blast
    from len d obtain m where n: "n = Suc m" by (cases n) auto
    have c: "c \<noteq> CHR ''n''" "c \<noteq> CHR ''t''" "c \<noteq> CHR ''f''" "c \<noteq> quote_char" "c \<noteq> CHR ''[''" "c \<noteq> CHR ''{''"
      using d(2) by (auto simp: is_digit_def quote_char_def)
    have "parse_value (Suc m) ((c # cs) @ r) = parse_number ((c # cs) @ r)"
      using c by simp
    then show "parse_value n (json_text (JNum i) @ r) = Some (JNum i, r)"
      using parse_number_decimal [OF r, of i] n d(1) by simp
  qed
next
  case (JStr s)
  show ?case unfolding round_trips_def
  proof (intro allI impI)
    fix n r assume "length (json_text (JStr s)) \<le> n"
    then obtain m where "n = Suc m" by (cases n) (auto simp: quoted_def)
    then show "parse_value n (json_text (JStr s) @ r) = Some (JStr s, r)"
      by (simp add: quoted_def parse_chars_quoted quote_char_def del: parse_chars.simps)
         (simp add: quote_char_def [symmetric] parse_chars_quoted del: parse_chars.simps)
  qed
next
  case (JArr xs)
  have ih: "\<And>x. x \<in> set xs \<Longrightarrow> round_trips x" using JArr by simp
  show ?case unfolding round_trips_def
  proof (intro allI impI)
    fix n r assume len: "length (json_text (JArr xs)) \<le> n"
    then obtain m where n: "n = Suc m" by (cases n) auto
    show "parse_value n (json_text (JArr xs) @ r) = Some (JArr xs, r)"
    proof (cases xs)
      case Nil
      then show ?thesis using n by (simp add: quote_char_def)
    next
      case (Cons y ys)
      have y: "json_data y" using JArr.prems Cons by simp
      obtain c cs where c: "json_text y = c # cs" "c \<noteq> CHR '']''" using json_text_start [OF y] by blast
      have "\<exists>cs'. join '','' (map json_text xs) = c # cs'"
        using Cons c(1) by (cases ys) auto
      then obtain cs' where j: "join '','' (map json_text xs) = c # cs'" by blast
      have lm: "length (join '','' (map json_text xs)) < m" using len n by simp
      have "parse_elements m (join '','' (map json_text xs) @ CHR '']'' # r) = Some (xs, r)"
        using parse_elements_join [OF ih _ lm] Cons by simp
      then show ?thesis using n j c(2) by (simp add: quote_char_def)
    qed
  qed
next
  case (JObj kvs)
  have ih: "\<And>kv. kv \<in> set kvs \<Longrightarrow> round_trips (snd kv)"
  proof -
    fix kv assume kv: "kv \<in> set kvs"
    obtain k v where p: "kv = (k, v)" by (cases kv)
    have "json_data v" using JObj.prems kv p by auto
    moreover have "v \<in> Basic_BNFs.snds kv" using p by simp
    ultimately show "round_trips (snd kv)" using JObj.IH [OF kv] p by simp
  qed
  have f: "filter (\<lambda>kv. \<not> omitted (snd kv)) kvs = kvs"
    using JObj.prems by (simp add: filter_not_omitted)
  let ?member = "\<lambda>kv. quoted (fst kv) @ '':'' @ json_text (snd kv)"
  show ?case unfolding round_trips_def
  proof (intro allI impI)
    fix n r assume len: "length (json_text (JObj kvs)) \<le> n"
    then obtain m where n: "n = Suc m" by (cases n) auto
    show "parse_value n (json_text (JObj kvs) @ r) = Some (JObj kvs, r)"
    proof (cases kvs)
      case Nil
      then show ?thesis using n by (simp add: quote_char_def)
    next
      case (Cons kv kvs')
      have "\<exists>cs'. join '','' (map ?member kvs) = quote_char # cs'"
        using Cons by (cases kvs') (auto simp: quoted_def)
      then obtain cs' where j: "join '','' (map ?member kvs) = quote_char # cs'" by blast
      have lm: "length (join '','' (map ?member kvs)) < m" using len n f by simp
      have "parse_members m (join '','' (map ?member kvs) @ CHR ''}'' # r) = Some (kvs, r)"
        using parse_members_join [OF ih _ lm] Cons by simp
      then show ?thesis using n j f by (simp add: quote_char_def)
    qed
  qed
qed simp_all

lemma reference_runtime_round_trips:
  assumes "json_data v"
  shows "JSON_stringify reference_runtime v = Inr (Some (json_text v))"
    and "JSON_parse reference_runtime (json_text v) = Inr v"
proof -
  have nc: "json_data v \<Longrightarrow> \<not> cyclic v" for v
    by (induction v) auto
  have no: "\<not> omitted v" using assms by (cases v) auto
  show "JSON_stringify reference_runtime v = Inr (Some (json_text v))"
    using nc [OF assms] no by (simp add: reference_runtime_fields)
  have "length (json_text v) \<le> Suc (length (json_text v)) \<longrightarrow> number_end [] \<longrightarrow>
        parse_value (Suc (length (json_text v))) (json_text v @ []) = Some (v, [])"
    using json_data_round_trips [OF assms] unfolding round_trips_def by blast
  then have "parse_value (Suc (length (json_text v))) (json_text v) = Some (v, [])"
    by (simp del: parse_value.simps)
  then show "JSON_parse reference_runtime (json_text v) = Inr v"
    by (simp add: reference_runtime_fields del: parse_value.simps)
qed

lemma sample_text:
  "json_text (JObj [(''n'', JNum 42), (''xs'', JArr [JNum (- 1), JStr ''two'', JObj [(''k'', JNull)]])])
     = [CHR ''{'', CHR 0x22, CHR ''n'', CHR 0x22, CHR '':'', CHR ''4'', CHR ''2'', CHR '','',
        CHR 0x22, CHR ''x'', CHR ''s'', CHR 0x22, CHR '':'', CHR ''['', CHR ''-'', CHR ''1'', CHR '','',
        CHR 0x22, CHR ''t'', CHR ''w'', CHR ''o'', CHR 0x22, CHR '','',
        CHR ''{'', CHR 0x22, CHR ''k'', CHR 0x22, CHR '':'', CHR ''n'', CHR ''u'', CHR ''l'', CHR ''l'', CHR ''}'',
        CHR '']'', CHR ''}'']"
  by (simp add: quoted_def escape_char_def quote_char_def backslash_def decimal_def digits.simps)

lemma parse_sample:
  "JSON_parse reference_runtime
     (json_text (JObj [(''n'', JNum 42), (''xs'', JArr [JNum (- 1), JStr ''two'', JObj [(''k'', JNull)]])]))
   = Inr (JObj [(''n'', JNum 42), (''xs'', JArr [JNum (- 1), JStr ''two'', JObj [(''k'', JNull)]])])"
  by (simp add: reference_runtime_fields quoted_def escape_char_def quote_char_def backslash_def
        decimal_def digits.simps keyword_def parse_number_def is_digit_def digits_value_def)

subsection \<open>Writes are numbered by position (C1)\<close>

text \<open>
  When the codec returns for every value written, a \<^verbatim>\<open>putWrites\<close> call whose config has a
  thread_id and a checkpoint_id invokes the backend's \<^verbatim>\<open>putWrites\<close> callback exactly once,
  with one record per input write, in the input's order, the record at position \<open>i\<close> carrying
  \<open>idx = i\<close> and the channel of the \<open>i\<close>-th write, whatever the callback answers.
\<close>

lemma putWrites_batch_by_position:
  assumes "truthy (opt_field thread_id config)" and "truthy (opt_field checkpoint_id config)"
    and "\<forall>x \<in> set writes. \<exists>kept. serializeValue rt this (snd x) = Inr kept"
  shows "\<exists>batch r.
           trace (snd (CallbackSaver_putWrites rt this now config writes task w))
             = trace w @ [(PutWritesCall batch, r)]
         \<and> length batch = length writes
         \<and> map idx batch = [0 ..< length writes]
         \<and> map channel batch = map fst writes"
proof -
  obtain batch where
    b: "map_throwing (toStoredWrite rt this now (the (opt_field thread_id config))
          (resolve_namespace this config) (the (opt_field checkpoint_id config)) task) (enumerate 0 writes) = Inr batch"
      "map idx batch = map fst (enumerate 0 writes)"
      "map channel batch = map fst writes"
    using storedWrites_Inr [OF assms(3)] by blast
  have len: "length batch = length writes"
    using b(3) by (metis length_map)
  show ?thesis
    using assms(1,2) b len
    by (simp add: CallbackSaver_putWrites_def putWrites_try_def rethrow_def await_eq
             split: sum.splits prod.splits)
qed

text \<open>
  A value the codec throws on stops \<^verbatim>\<open>writes.map\<close>: the operation raises what \<open>wrap\<close> builds
  from what the codec threw, and the backend is not called.
\<close>

lemma putWrites_stopped_by_codec:
  assumes "truthy (opt_field thread_id config)" and "truthy (opt_field checkpoint_id config)"
    and "serialize this \<noteq> Some False"
    and "\<forall>x \<in> set before_it. \<exists>kept. serializeValue rt this (snd x) = Inr kept"
    and "serializeValue rt this v = Inl error"
  shows "CallbackSaver_putWrites rt this now config (before_it @ (ch, v) # after_it) task w
           = (Inl (wrap rt ''Failed to save writes'' error), w)"
proof -
  have m: "map_throwing (toStoredWrite rt this now tid ns cid task)
             (enumerate n (before_it @ (ch, v) # after_it)) = Inl error" for tid ns cid n
    using assms(4)
  proof (induction before_it arbitrary: n)
    case Nil
    show ?case by (simp add: toStoredWrite_Inl [OF assms(3,5)])
  next
    case (Cons a before_it)
    obtain ch' v' where a: "a = (ch', v')" by (cases a)
    from Cons.prems a obtain kept where k: "serializeValue rt this v' = Inr kept" by auto
    from Cons.prems have "\<forall>x \<in> set before_it. \<exists>kept. serializeValue rt this (snd x) = Inr kept" by simp
    from Cons.IH [OF this, of "Suc n"] show ?case
      by (simp add: a toStoredWrite_Inr [OF k])
  qed
  show ?thesis
    using assms(1,2) by (simp add: CallbackSaver_putWrites_def putWrites_try_def rethrow_def m)
qed

text \<open>
  Claim C1 says that every \<^verbatim>\<open>putWrites\<close> call with a thread_id and a checkpoint_id forwards
  the whole batch in exactly one callback invocation, numbered by position. The code does so
  for writes of ordinary values, also of values \<^verbatim>\<open>JSON.stringify\<close> refuses (first conjunct: one
  invocation, \<open>idx\<close> 0, 1, 2). It fails to at a write whose value neither \<^verbatim>\<open>JSON.stringify\<close> nor
  \<^verbatim>\<open>String\<close> can render (second conjunct): \<^verbatim>\<open>serializeValue\<close>, whose \<^verbatim>\<open>catch\<close> is there to fall
  back on \<^verbatim>\<open>String(value)\<close>, throws from that fallback, the \<^verbatim>\<open>catch\<close> of \<^verbatim>\<open>putWrites\<close> wraps the
  \<^verbatim>\<open>TypeError\<close>, and the backend's callback is never invoked: no write of the batch is
  forwarded.
\<close>

theorem putWrites_unrenderable_value_drops_batch:
  "CallbackSaver_putWrites reference_runtime (paged_backend None no_writes) midnight
        (thread_config ''t1'' (Some ''c1''))
        [(''c1'', JNum 1), (''c2'', JCyclic), (''c3'', JStr ''v'')] ''task-1'' (start [])
     = (Inr (),
        \<lparr>store = [],
         trace = [(PutWritesCall
                     [\<lparr>w_threadId = ''t1'', w_namespace = ''default'', w_checkpointId = ''c1'',
                       taskId = ''task-1'', idx = 0, channel = ''c1'', write_type = ''write'',
                       write_value = JStr ''1'', w_createdAt = 0, w_expiresAt = None\<rparr>,
                      \<lparr>w_threadId = ''t1'', w_namespace = ''default'', w_checkpointId = ''c1'',
                       taskId = ''task-1'', idx = 1, channel = ''c2'', write_type = ''write'',
                       write_value = JStr ''[object Object]'', w_createdAt = 0, w_expiresAt = None\<rparr>,
                      \<lparr>w_threadId = ''t1'', w_namespace = ''default'', w_checkpointId = ''c1'',
                       taskId = ''task-1'', idx = 2, channel = ''c3'', write_type = ''write'',
                       write_value = JStr [CHR 0x22, CHR ''v'', CHR 0x22], w_createdAt = 0,
                       w_expiresAt = None\<rparr>],
                   None)]\<rparr>)
   \<and> CallbackSaver_putWrites reference_runtime (paged_backend None no_writes) midnight
        (thread_config ''t1'' (Some ''c1''))
        [(''c1'', JNum 1), (''c2'', JBareCycle), (''c3'', JStr ''v'')] ''task-1'' (start [])
     = (Inl (ThrownError (CallbackSaverError
               ''Failed to save writes: Cannot convert object to primitive value''
               (Some (Error ''Cannot convert object to primitive value'')))),
        \<lparr>store = [], trace = []\<rparr>)"
  by (simp add: CallbackSaver_putWrites_def putWrites_try_def rethrow_def wrap_def await_eq rejection_def
        toStoredWrite_def serializeValue_def String_value_def try_catch_def
        Let_def thread_config_fields resolve_namespace_default paged_backend_namespace start_def
        reference_runtime_fields paged_backend_fields midnight_def
        quoted_def escape_char_def quote_char_def backslash_def decimal_def digits.simps)

subsection \<open>Precondition errors (C2)\<close>

text \<open>
  Claim C2, as amended. A \<^verbatim>\<open>getTuple\<close> call whose config lacks thread_id, and a
  \<^verbatim>\<open>putWrites\<close> call whose config has a thread_id and lacks checkpoint_id, raise before any
  backend callback is invoked: the world, trace and store, is unchanged. The error raised is
  the one the operation's own \<^verbatim>\<open>catch\<close> builds: a \<^verbatim>\<open>CallbackSaverError\<close> whose message is
  the operation's failure text followed by the precondition's message and whose cause is the
  precondition error.
\<close>

theorem precondition_errors_are_wrapped:
  "(\<not> truthy (opt_field thread_id config) \<longrightarrow>
      CallbackSaver_getTuple rt this config w =
        (Inl (ThrownError (CallbackSaverError
               ''Failed to get checkpoint tuple: thread_id is required in config.configurable''
               (Some (CallbackSaverError ''thread_id is required in config.configurable'' None)))), w))
 \<and> (truthy (opt_field thread_id config) \<and> \<not> truthy (opt_field checkpoint_id config) \<longrightarrow>
      CallbackSaver_putWrites rt this now config writes task w =
        (Inl (ThrownError (CallbackSaverError
               ''Failed to save writes: checkpoint_id is required in config.configurable''
               (Some (CallbackSaverError ''checkpoint_id is required in config.configurable'' None)))), w))"
  by (simp add: CallbackSaver_getTuple_def getTuple_try_def CallbackSaver_putWrites_def
        putWrites_try_def rethrow_def wrap_def thread_id_required_def checkpoint_id_required_def Let_def)

theorem precondition_errors_are_wrapped_witness:
  "\<not> truthy (opt_field thread_id no_config)
   \<and> CallbackSaver_getTuple reference_runtime (paged_backend None no_writes) no_config (start [])
       = (Inl (ThrownError (CallbackSaverError
                ''Failed to get checkpoint tuple: thread_id is required in config.configurable''
                (Some (CallbackSaverError ''thread_id is required in config.configurable'' None)))),
          start [])
   \<and> truthy (opt_field thread_id (thread_config ''t1'' None))
   \<and> \<not> truthy (opt_field checkpoint_id (thread_config ''t1'' None))
   \<and> CallbackSaver_putWrites reference_runtime (paged_backend None no_writes) midnight
        (thread_config ''t1'' None) [(''channel1'', JNum 1)] ''task-1'' (start [])
       = (Inl (ThrownError (CallbackSaverError
                ''Failed to save writes: checkpoint_id is required in config.configurable''
                (Some (CallbackSaverError ''checkpoint_id is required in config.configurable'' None)))),
          start [])"
proof -
  have h1: "\<not> truthy (opt_field thread_id no_config)"
    by (simp add: no_config_def opt_field_def)
  have h2: "truthy (opt_field thread_id (thread_config ''t1'' None))"
    and h3: "\<not> truthy (opt_field checkpoint_id (thread_config ''t1'' None))"
    by (simp_all add: thread_config_fields)
  from precondition_errors_are_wrapped
         [of no_config reference_runtime "paged_backend None no_writes" "start []"] h1
  have a: "CallbackSaver_getTuple reference_runtime (paged_backend None no_writes) no_config (start [])
       = (Inl (ThrownError (CallbackSaverError
                ''Failed to get checkpoint tuple: thread_id is required in config.configurable''
                (Some (CallbackSaverError ''thread_id is required in config.configurable'' None)))),
          start [])"
    by blast
  from precondition_errors_are_wrapped
         [of "thread_config ''t1'' None" reference_runtime "paged_backend None no_writes" "start []"
             midnight "[(''channel1'', JNum 1)]" "''task-1''"] h2 h3
  have b: "CallbackSaver_putWrites reference_runtime (paged_backend None no_writes) midnight
        (thread_config ''t1'' None) [(''channel1'', JNum 1)] ''task-1'' (start [])
       = (Inl (ThrownError (CallbackSaverError
                ''Failed to save writes: checkpoint_id is required in config.configurable''
                (Some (CallbackSaverError ''checkpoint_id is required in config.configurable'' None)))),
          start [])"
    by blast
  show ?thesis by (intro conjI h1 h2 h3 a b)
qed

text \<open>
  Claim C2 as stated fails: the precondition error is thrown inside the operation's
  \<^verbatim>\<open>try\<close>, so the \<^verbatim>\<open>catch\<close> wraps it like a backend failure; and \<^verbatim>\<open>putWrites\<close> tests
  thread_id first, so a config lacking both reports thread_id.
\<close>

theorem precondition_errors_counterexample:
  "fst (CallbackSaver_getTuple reference_runtime (paged_backend None no_writes) no_config (start []))
     = Inl (ThrownError (CallbackSaverError
             ''Failed to get checkpoint tuple: thread_id is required in config.configurable''
             (Some (CallbackSaverError ''thread_id is required in config.configurable'' None))))
 \<and> fst (CallbackSaver_getTuple reference_runtime (paged_backend None no_writes) no_config (start []))
     \<noteq> Inl (ThrownError (CallbackSaverError ''thread_id is required in config.configurable'' None))
 \<and> fst (CallbackSaver_putWrites reference_runtime (paged_backend None no_writes) midnight
           (thread_config ''t1'' None) [(''channel1'', JNum 1)] ''task-1'' (start []))
     \<noteq> Inl (ThrownError (CallbackSaverError ''checkpoint_id is required in config.configurable'' None))
 \<and> fst (CallbackSaver_putWrites reference_runtime (paged_backend None no_writes) midnight
           no_config [(''channel1'', JNum 1)] ''task-1'' (start []))
     = Inl (ThrownError (CallbackSaverError
             ''Failed to save writes: thread_id is required in config.configurable''
             (Some (CallbackSaverError ''thread_id is required in config.configurable'' None))))"
  by (simp add: CallbackSaver_getTuple_def getTuple_try_def CallbackSaver_putWrites_def
        putWrites_try_def rethrow_def wrap_def thread_id_required_def checkpoint_id_required_def
        Let_def no_config_def opt_field_def thread_config_def start_def)

subsection \<open>A checkpoint that is not found (C3)\<close>

text \<open>
  Claim C3. When the config has a thread_id and the backend's \<^verbatim>\<open>getCheckpoint\<close> resolves with
  nothing, \<^verbatim>\<open>getTuple\<close> returns \<^verbatim>\<open>undefined\<close> and raises nothing; the only callback invoked
  is \<^verbatim>\<open>getCheckpoint\<close>, so \<^verbatim>\<open>getWrites\<close> is not called.
\<close>

theorem getTuple_not_found:
  assumes "truthy (opt_field thread_id config)"
    and "fst (getCheckpoint this (the (opt_field thread_id config)) (resolve_namespace this config)
               (opt_field checkpoint_id config) (store w)) = Inr None"
  shows "fst (CallbackSaver_getTuple rt this config w) = Inr None
       \<and> trace (snd (CallbackSaver_getTuple rt this config w))
           = trace w @ [(GetCheckpointCall (the (opt_field thread_id config))
                           (resolve_namespace this config) (opt_field checkpoint_id config), None)]"
  using assms
  by (simp add: CallbackSaver_getTuple_def getTuple_try_def rethrow_def await_eq rejection_def Let_def)

theorem getTuple_not_found_witness:
  "truthy (opt_field thread_id (thread_config ''t1'' None))
   \<and> fst (getCheckpoint (paged_backend None one_write) ''t1'' ''default'' None []) = Inr None
   \<and> fst (CallbackSaver_getTuple reference_runtime (paged_backend None one_write)
             (thread_config ''t1'' None) (start [])) = Inr None
   \<and> trace (snd (CallbackSaver_getTuple reference_runtime (paged_backend None one_write)
                    (thread_config ''t1'' None) (start [])))
        = [(GetCheckpointCall ''t1'' ''default'' None, None)]"
proof -
  have h1: "truthy (opt_field thread_id (thread_config ''t1'' None))"
    by (simp add: thread_config_fields)
  have ns: "resolve_namespace (paged_backend None one_write) (thread_config ''t1'' None) = ''default''"
    by (simp add: resolve_namespace_default paged_backend_namespace)
  have g: "fst (getCheckpoint (paged_backend None one_write) ''t1'' ''default'' None []) = Inr None"
    by (simp add: paged_backend_def)
  have h2: "fst (getCheckpoint (paged_backend None one_write)
                  (the (opt_field thread_id (thread_config ''t1'' None)))
                  (resolve_namespace (paged_backend None one_write) (thread_config ''t1'' None))
                  (opt_field checkpoint_id (thread_config ''t1'' None)) (store (start []))) = Inr None"
    using g by (simp add: ns thread_config_fields start_fields)
  from getTuple_not_found [OF h1 h2, of reference_runtime]
  have "fst (CallbackSaver_getTuple reference_runtime (paged_backend None one_write)
             (thread_config ''t1'' None) (start [])) = Inr None
   \<and> trace (snd (CallbackSaver_getTuple reference_runtime (paged_backend None one_write)
                    (thread_config ''t1'' None) (start [])))
        = [(GetCheckpointCall ''t1'' ''default'' None, None)]"
    by (simp add: ns thread_config_fields start_fields)
  with h1 g show ?thesis by (intro conjI) simp_all
qed

subsection \<open>Backend failures (C4)\<close>

lemma scripted_backend_fields:
  "getWrites (scripted_backend ws) tid ns cid s = (ws tid ns cid, s)"
  "listCheckpoints (scripted_backend ws) opts (answer # answers) = (answer, answers)"
  "cfg_namespace (scripted_backend ws) = Some ''default''"
  by (simp_all add: scripted_backend_def)

lemma yield_tuples_resolved:
  "list_all (writes_resolve ws) cps \<Longrightarrow>
   \<exists>tuples evs.
     yield_tuples rt (scripted_backend ws) cps \<lparr>store = s, trace = tr\<rparr>
       = ((tuples, None), \<lparr>store = s, trace = tr @ evs\<rparr>)
   \<and> map t_checkpoint tuples = map checkpoint cps
   \<and> (\<forall>ev \<in> set evs. snd ev = None)"
proof (induction cps arbitrary: tr)
  case Nil
  show ?case by simp
next
  case (Cons sc cps)
  let ?c = "GetWritesCall (threadId sc) (namespace sc) (checkpointId sc)"
  from Cons.prems obtain x where x: "ws (threadId sc) (namespace sc) (checkpointId sc) = Inr x"
    by (auto simp: writes_resolve_def split: sum.splits)
  obtain tuple where t: "toTuple rt (scripted_backend ws) sc x = Inr tuple"
    "t_checkpoint tuple = checkpoint sc"
    using toTuple_Inr [of rt "scripted_backend ws" sc x] by force
  from Cons.prems have "list_all (writes_resolve ws) cps" by simp
  from Cons.IH [OF this, of "tr @ [(?c, None)]"] obtain tuples evs where
    r: "yield_tuples rt (scripted_backend ws) cps \<lparr>store = s, trace = (tr @ [(?c, None)])\<rparr>
          = ((tuples, None), \<lparr>store = s, trace = (tr @ [(?c, None)]) @ evs\<rparr>)"
       "map t_checkpoint tuples = map checkpoint cps"
       "\<forall>ev \<in> set evs. snd ev = None"
    by blast
  show ?case
    using t r x
    by (intro exI [of _ "tuple # tuples"] exI [of _ "(?c, None) # evs"])
       (simp add: await_eq scripted_backend_fields rejection_def)
qed

lemma yield_tuples_rejected:
  "list_all (writes_resolve ws) cps \<Longrightarrow>
   ws (threadId sc) (namespace sc) (checkpointId sc) = Inl t \<Longrightarrow>
   \<exists>tuples evs.
     yield_tuples rt (scripted_backend ws) (cps @ sc # later) \<lparr>store = s, trace = tr\<rparr>
       = ((tuples, Some t),
          \<lparr>store = s, trace = tr @ evs @ [(GetWritesCall (threadId sc) (namespace sc) (checkpointId sc), Some t)]\<rparr>)
   \<and> map t_checkpoint tuples = map checkpoint cps
   \<and> (\<forall>ev \<in> set evs. snd ev = None)"
proof (induction cps arbitrary: tr)
  case Nil
  then show ?case
    by (intro exI [of _ "[]"]) (simp add: await_eq scripted_backend_fields rejection_def)
next
  case (Cons a cps)
  let ?c = "GetWritesCall (threadId a) (namespace a) (checkpointId a)"
  let ?f = "GetWritesCall (threadId sc) (namespace sc) (checkpointId sc)"
  from Cons.prems obtain x where x: "ws (threadId a) (namespace a) (checkpointId a) = Inr x"
    by (auto simp: writes_resolve_def split: sum.splits)
  obtain tuple where t: "toTuple rt (scripted_backend ws) a x = Inr tuple"
    "t_checkpoint tuple = checkpoint a"
    using toTuple_Inr [of rt "scripted_backend ws" a x] by force
  from Cons.prems have "list_all (writes_resolve ws) cps" by simp
  from Cons.IH [OF this Cons.prems(2), of "tr @ [(?c, None)]"] obtain tuples evs where
    r: "yield_tuples rt (scripted_backend ws) (cps @ sc # later) \<lparr>store = s, trace = (tr @ [(?c, None)])\<rparr>
          = ((tuples, Some t), \<lparr>store = s, trace = (tr @ [(?c, None)]) @ evs @ [(?f, Some t)]\<rparr>)"
       "map t_checkpoint tuples = map checkpoint cps"
       "\<forall>ev \<in> set evs. snd ev = None"
    by blast
  show ?case
    using t r x
    by (intro exI [of _ "tuple # tuples"] exI [of _ "(?c, None) # evs"])
       (simp add: await_eq scripted_backend_fields rejection_def)
qed

text \<open>
  Pages that resolve are consumed one per iteration; the loop then goes on, with the iterations
  left, from the request that follows the last of them.
\<close>

lemma list_loop_resolved_pages:
  "list_all (resolved_page ws) qs \<Longrightarrow>
   \<exists>tuples evs.
     (\<forall>m. list_loop (length qs + m) rt (scripted_backend ws) opts \<lparr>store = map Inr qs @ rest, trace = tr\<rparr>
        = (case list_loop m rt (scripted_backend ws) (request_after opts qs) \<lparr>store = rest, trace = tr @ evs\<rparr> of
             None \<Rightarrow> None
           | Some ((later, r), w3) \<Rightarrow> Some ((tuples @ later, r), w3)))
   \<and> map t_checkpoint tuples = map checkpoint (concat (map checkpoints qs))
   \<and> (\<forall>ev \<in> set evs. snd ev = None)"
proof (induction qs arbitrary: opts tr)
  case Nil
  show ?case
    by (intro exI [of _ "[]"]) (auto simp: request_after_def split: option.splits)
next
  case (Cons q qs)
  let ?c = "ListCheckpointsCall opts"
  from Cons.prems have rq: "resolved_page ws q" and qs: "list_all (resolved_page ws) qs"
    by simp_all
  from rq have q: "truthy (nextCursor q)" "list_all (writes_resolve ws) (checkpoints q)"
    by (simp_all add: resolved_page_def)
  from yield_tuples_resolved [OF q(2), of rt "map Inr qs @ rest" "tr @ [(?c, None)]"]
  obtain tuples evs where
    y: "yield_tuples rt (scripted_backend ws) (checkpoints q) \<lparr>store = map Inr qs @ rest, trace = tr @ [(?c, None)]\<rparr>
          = ((tuples, None), \<lparr>store = map Inr qs @ rest, trace = (tr @ [(?c, None)]) @ evs\<rparr>)"
       "map t_checkpoint tuples = map checkpoint (checkpoints q)"
       "\<forall>ev \<in> set evs. snd ev = None"
    by blast
  from Cons.IH [OF qs, of "opts\<lparr>before := nextCursor q\<rparr>" "(tr @ [(?c, None)]) @ evs"]
  obtain tuples2 evs2 where
    r: "\<forall>m. list_loop (length qs + m) rt (scripted_backend ws) (opts\<lparr>before := nextCursor q\<rparr>)
              \<lparr>store = map Inr qs @ rest, trace = (tr @ [(?c, None)]) @ evs\<rparr>
        = (case list_loop m rt (scripted_backend ws) (request_after (opts\<lparr>before := nextCursor q\<rparr>) qs)
                  \<lparr>store = rest, trace = ((tr @ [(?c, None)]) @ evs) @ evs2\<rparr> of
             None \<Rightarrow> None
           | Some ((later, r), w3) \<Rightarrow> Some ((tuples2 @ later, r), w3))"
       "map t_checkpoint tuples2 = map checkpoint (concat (map checkpoints qs))"
       "\<forall>ev \<in> set evs2. snd ev = None"
    by blast
  show ?case
    using y r q(1)
    by (intro exI [of _ "tuples @ tuples2"] exI [of _ "(?c, None) # evs @ evs2"])
       (auto simp: await_eq scripted_backend_fields rejection_def request_after_def split: option.splits)
qed


lemma list_loop_lister_rejects:
  assumes "list_all (resolved_page ws) qs" and "length qs < fuel"
  shows "\<exists>tuples evs.
           list_loop fuel rt (scripted_backend ws) opts \<lparr>store = map Inr qs @ Inl t # rest, trace = tr\<rparr>
             = Some ((tuples, Some t),
                     \<lparr>store = rest,
                      trace = tr @ evs @ [(ListCheckpointsCall (request_after opts qs), Some t)]\<rparr>)
         \<and> map t_checkpoint tuples = map checkpoint (concat (map checkpoints qs))
         \<and> (\<forall>ev \<in> set evs. snd ev = None)"
proof -
  from assms(2) obtain k where fuel: "fuel = length qs + Suc k"
    by (metis add_Suc_right less_iff_Suc_add)
  from list_loop_resolved_pages [OF assms(1), of rt opts "Inl t # rest" tr]
  obtain tuples evs where
    l: "list_loop (length qs + Suc k) rt (scripted_backend ws) opts \<lparr>store = map Inr qs @ Inl t # rest, trace = tr\<rparr>
        = (case list_loop (Suc k) rt (scripted_backend ws) (request_after opts qs) \<lparr>store = Inl t # rest, trace = tr @ evs\<rparr> of
             None \<Rightarrow> None
           | Some ((later, r), w3) \<Rightarrow> Some ((tuples @ later, r), w3))"
       "map t_checkpoint tuples = map checkpoint (concat (map checkpoints qs))"
       "\<forall>ev \<in> set evs. snd ev = None"
    by blast
  have l1: "list_loop fuel rt (scripted_backend ws) opts \<lparr>store = map Inr qs @ Inl t # rest, trace = tr\<rparr>
        = (case list_loop (Suc k) rt (scripted_backend ws) (request_after opts qs) \<lparr>store = Inl t # rest, trace = tr @ evs\<rparr> of
             None \<Rightarrow> None
           | Some ((later, r), w3) \<Rightarrow> Some ((tuples @ later, r), w3))"
    using l(1) by (simp only: fuel)
  show ?thesis
    using l(2,3)
    by (intro exI [of _ tuples] exI [of _ evs])
       (simp add: l1 await_eq scripted_backend_fields rejection_def)
qed

lemma list_loop_getWrites_rejects:
  assumes "list_all (resolved_page ws) qs" and "length qs < fuel"
    and "checkpoints p = cps @ sc # later"
    and "list_all (writes_resolve ws) cps"
    and "ws (threadId sc) (namespace sc) (checkpointId sc) = Inl t"
  shows "\<exists>tuples evs.
           list_loop fuel rt (scripted_backend ws) opts \<lparr>store = map Inr qs @ Inr p # rest, trace = tr\<rparr>
             = Some ((tuples, Some t),
                     \<lparr>store = rest,
                      trace = tr @ evs @ [(GetWritesCall (threadId sc) (namespace sc) (checkpointId sc), Some t)]\<rparr>)
         \<and> map t_checkpoint tuples = map checkpoint (concat (map checkpoints qs) @ cps)
         \<and> (\<forall>ev \<in> set evs. snd ev = None)"
proof -
  let ?c = "ListCheckpointsCall (request_after opts qs)"
  let ?f = "GetWritesCall (threadId sc) (namespace sc) (checkpointId sc)"
  from assms(2) obtain k where fuel: "fuel = length qs + Suc k"
    by (metis add_Suc_right less_iff_Suc_add)
  from list_loop_resolved_pages [OF assms(1), of rt opts "Inr p # rest" tr]
  obtain tuples evs where
    l: "list_loop (length qs + Suc k) rt (scripted_backend ws) opts \<lparr>store = map Inr qs @ Inr p # rest, trace = tr\<rparr>
        = (case list_loop (Suc k) rt (scripted_backend ws) (request_after opts qs) \<lparr>store = Inr p # rest, trace = tr @ evs\<rparr> of
             None \<Rightarrow> None
           | Some ((later, r), w3) \<Rightarrow> Some ((tuples @ later, r), w3))"
       "map t_checkpoint tuples = map checkpoint (concat (map checkpoints qs))"
       "\<forall>ev \<in> set evs. snd ev = None"
    by blast
  from yield_tuples_rejected [OF assms(4,5), of rt later rest "(tr @ evs) @ [(?c, None)]"]
  obtain tuples2 evs2 where
    y: "yield_tuples rt (scripted_backend ws) (cps @ sc # later) \<lparr>store = rest, trace = (tr @ evs) @ [(?c, None)]\<rparr>
          = ((tuples2, Some t), \<lparr>store = rest, trace = ((tr @ evs) @ [(?c, None)]) @ evs2 @ [(?f, Some t)]\<rparr>)"
       "map t_checkpoint tuples2 = map checkpoint cps"
       "\<forall>ev \<in> set evs2. snd ev = None"
    by blast
  have l1: "list_loop fuel rt (scripted_backend ws) opts \<lparr>store = map Inr qs @ Inr p # rest, trace = tr\<rparr>
        = (case list_loop (Suc k) rt (scripted_backend ws) (request_after opts qs) \<lparr>store = Inr p # rest, trace = tr @ evs\<rparr> of
             None \<Rightarrow> None
           | Some ((later, r), w3) \<Rightarrow> Some ((tuples @ later, r), w3))"
    using l(1) by (simp only: fuel)
  show ?thesis
    using l(2,3) y
    by (intro exI [of _ "tuples @ tuples2"] exI [of _ "evs @ (?c, None) # evs2"])
       (auto simp: l1 assms(3) await_eq scripted_backend_fields rejection_def)
qed

text \<open>
  Claim C4, as amended. For each of \<^verbatim>\<open>getTuple\<close>, \<^verbatim>\<open>list\<close>, \<^verbatim>\<open>put\<close>, \<^verbatim>\<open>putWrites\<close> and
  \<^verbatim>\<open>deleteThread\<close>: if a callback the operation invoked rejected with \<open>t\<close>, the operation raises
  what \<open>wrap\<close> builds from the operation's failure text and \<open>t\<close>, that invocation is the last
  one the operation made, and every earlier one resolved: nothing is retried.

  \<^verbatim>\<open>list\<close> loops for as long as the backend returns a cursor, so for \<^verbatim>\<open>list\<close> the statement
  above speaks of the runs that end. That a run in which the backend rejects does end, and
  how, is stated for the backends that answer from a script. When the lister resolves with
  the pages \<open>qs\<close>, each with a cursor and with writes that resolve, and then rejects with \<open>t\<close>,
  \<^verbatim>\<open>list\<close>, given a thread_id and at least \<open>length qs + 1\<close> iterations, yields the tuples of
  \<open>qs\<close> and then raises what \<open>wrap\<close> builds from \<open>t\<close>; the rejected request, the one that follows
  \<open>qs\<close>, is the last invocation and all before it resolved. When instead the lister resolves
  with a further page \<open>p\<close> and \<^verbatim>\<open>getWrites\<close> rejects with \<open>t\<close> for a checkpoint \<open>sc\<close> of \<open>p\<close>, the
  writes of the checkpoints \<open>cps\<close> before it resolving, \<^verbatim>\<open>list\<close> yields the tuples of \<open>qs\<close> and
  \<open>cps\<close> and then raises what \<open>wrap\<close> builds from \<open>t\<close>; the rejected \<^verbatim>\<open>getWrites\<close> is the last
  invocation.

  What \<open>wrap\<close> builds is a \<^verbatim>\<open>CallbackSaverError\<close> whose message is the failure text followed
  by the message of \<open>t\<close> and whose cause is \<open>t\<close>, when \<open>t\<close> is an \<^verbatim>\<open>Error\<close> instance; for any
  other rejected value that \<^verbatim>\<open>String\<close> renders, it is a \<^verbatim>\<open>CallbackSaverError\<close> without cause
  whose message ends with the rendering.
\<close>

theorem backend_rejection_wrapped_once:
  "(CallbackSaver_getTuple rt this config w = (r1, w1) \<and> (c, Some t) \<in> set (new_calls w w1) \<longrightarrow>
      r1 = Inl (wrap rt ''Failed to get checkpoint tuple'' t)
      \<and> (\<exists>pre. new_calls w w1 = pre @ [(c, Some t)] \<and> (\<forall>x \<in> set pre. snd x = None)))
 \<and> (CallbackSaver_list fuel rt this config options before_arg limit_arg w = Some ((tuples, r2), w2)
      \<and> (c, Some t) \<in> set (new_calls w w2) \<longrightarrow>
      r2 = Some (wrap rt ''Failed to list checkpoints'' t)
      \<and> (\<exists>pre. new_calls w w2 = pre @ [(c, Some t)] \<and> (\<forall>x \<in> set pre. snd x = None)))
 \<and> (CallbackSaver_put rt this now config cp md newVersions w = (r3, w3)
      \<and> (c, Some t) \<in> set (new_calls w w3) \<longrightarrow>
      r3 = Inl (wrap rt ''Failed to save checkpoint'' t)
      \<and> (\<exists>pre. new_calls w w3 = pre @ [(c, Some t)] \<and> (\<forall>x \<in> set pre. snd x = None)))
 \<and> (CallbackSaver_putWrites rt this nows config writes task w = (r4, w4)
      \<and> (c, Some t) \<in> set (new_calls w w4) \<longrightarrow>
      r4 = Inl (wrap rt ''Failed to save writes'' t)
      \<and> (\<exists>pre. new_calls w w4 = pre @ [(c, Some t)] \<and> (\<forall>x \<in> set pre. snd x = None)))
 \<and> (CallbackSaver_deleteThread rt this tid w = (r5, w5)
      \<and> (c, Some t) \<in> set (new_calls w w5) \<longrightarrow>
      r5 = Inl (wrap rt ''Failed to delete thread'' t)
      \<and> (\<exists>pre. new_calls w w5 = pre @ [(c, Some t)] \<and> (\<forall>x \<in> set pre. snd x = None)))
 \<and> (truthy (opt_field thread_id config) \<and> list_all (resolved_page ws) qs \<and> length qs < fuel \<longrightarrow>
      (\<exists>ys pre.
         CallbackSaver_list fuel rt (scripted_backend ws) config options before_arg limit_arg
             \<lparr>store = map Inr qs @ Inl t # rest, trace = tr\<rparr>
           = Some ((ys, Some (wrap rt ''Failed to list checkpoints'' t)),
                   \<lparr>store = rest,
                    trace = tr @ pre @
                      [(ListCheckpointsCall
                          (request_after
                             (listOptions_of (the (opt_field thread_id config))
                                (resolve_namespace (scripted_backend ws) config) options before_arg limit_arg)
                             qs),
                        Some t)]\<rparr>)
       \<and> map t_checkpoint ys = map checkpoint (concat (map checkpoints qs))
       \<and> (\<forall>x \<in> set pre. snd x = None)))
 \<and> (truthy (opt_field thread_id config) \<and> list_all (resolved_page ws) qs \<and> length qs < fuel
      \<and> checkpoints p = cps @ sc # later \<and> list_all (writes_resolve ws) cps
      \<and> ws (threadId sc) (namespace sc) (checkpointId sc) = Inl t \<longrightarrow>
      (\<exists>ys pre.
         CallbackSaver_list fuel rt (scripted_backend ws) config options before_arg limit_arg
             \<lparr>store = map Inr qs @ Inr p # rest, trace = tr\<rparr>
           = Some ((ys, Some (wrap rt ''Failed to list checkpoints'' t)),
                   \<lparr>store = rest,
                    trace = tr @ pre @
                      [(GetWritesCall (threadId sc) (namespace sc) (checkpointId sc), Some t)]\<rparr>)
       \<and> map t_checkpoint ys = map checkpoint (concat (map checkpoints qs) @ cps)
       \<and> (\<forall>x \<in> set pre. snd x = None)))
 \<and> wrap rt what (ThrownError e) = ThrownError (CallbackSaverError (what @ '': '' @ message e) (Some e))
 \<and> (String_of rt v = Inr rendering \<longrightarrow>
      wrap rt what (ThrownValue v) = ThrownError (CallbackSaverError (what @ '': '' @ rendering) None))"
proof -
  have g1: "CallbackSaver_getTuple rt this config w = (r1, w1) \<and> (c, Some t) \<in> set (new_calls w w1) \<longrightarrow>
      r1 = Inl (wrap rt ''Failed to get checkpoint tuple'' t)
      \<and> (\<exists>pre. new_calls w w1 = pre @ [(c, Some t)] \<and> (\<forall>x \<in> set pre. snd x = None))"
  proof
    assume a: "CallbackSaver_getTuple rt this config w = (r1, w1) \<and> (c, Some t) \<in> set (new_calls w w1)"
    from a have 1: "rethrow rt ''Failed to get checkpoint tuple'' (getTuple_try rt this config w) = (r1, w1)"
      by (simp add: CallbackSaver_getTuple_def)
    from a have 3: "(c, Some t) \<in> set (new_calls w w1)" by simp
    show "r1 = Inl (wrap rt ''Failed to get checkpoint tuple'' t)
      \<and> (\<exists>pre. new_calls w w1 = pre @ [(c, Some t)] \<and> (\<forall>x \<in> set pre. snd x = None))"
      by (rule rethrow_surfaced [OF 1 _ 3]) (rule getTuple_try_surfaced)
  qed
  have g2: "CallbackSaver_list fuel rt this config options before_arg limit_arg w = Some ((tuples, r2), w2)
      \<and> (c, Some t) \<in> set (new_calls w w2) \<longrightarrow>
      r2 = Some (wrap rt ''Failed to list checkpoints'' t)
      \<and> (\<exists>pre. new_calls w w2 = pre @ [(c, Some t)] \<and> (\<forall>x \<in> set pre. snd x = None))"
  proof
    assume a: "CallbackSaver_list fuel rt this config options before_arg limit_arg w = Some ((tuples, r2), w2)
      \<and> (c, Some t) \<in> set (new_calls w w2)"
    then obtain r0 where l: "list_try fuel rt this config options before_arg limit_arg w = Some ((tuples, r0), w2)"
      and r2: "r2 = map_option (wrap rt ''Failed to list checkpoints'') r0"
      by (auto simp: CallbackSaver_list_def split: option.splits prod.splits)
    have "\<exists>evs. trace w2 = trace w @ evs \<and> surfaced r0 evs"
    proof (cases "truthy (opt_field thread_id config)")
      case False
      with l have "w2 = w" by (simp add: list_try_def Let_def)
      then show ?thesis by (intro exI [of _ "[]"]) (simp add: surfaced_Nil)
    next
      case True
      with l show ?thesis by (auto simp: list_try_def Let_def dest: list_loop_surfaced)
    qed
    then obtain evs where e: "trace w2 = trace w @ evs" "surfaced r0 evs" by blast
    have n: "new_calls w w2 = evs" using e(1) by (simp add: new_calls_def)
    from surfacedD [OF e(2)] a n
    have "r0 = Some t" "\<exists>pre. new_calls w w2 = pre @ [(c, Some t)] \<and> (\<forall>x \<in> set pre. snd x = None)"
      by auto
    with r2 show "r2 = Some (wrap rt ''Failed to list checkpoints'' t)
        \<and> (\<exists>pre. new_calls w w2 = pre @ [(c, Some t)] \<and> (\<forall>x \<in> set pre. snd x = None))"
      by simp
  qed
  have g3: "CallbackSaver_put rt this now config cp md newVersions w = (r3, w3)
      \<and> (c, Some t) \<in> set (new_calls w w3) \<longrightarrow>
      r3 = Inl (wrap rt ''Failed to save checkpoint'' t)
      \<and> (\<exists>pre. new_calls w w3 = pre @ [(c, Some t)] \<and> (\<forall>x \<in> set pre. snd x = None))"
  proof
    assume a: "CallbackSaver_put rt this now config cp md newVersions w = (r3, w3)
      \<and> (c, Some t) \<in> set (new_calls w w3)"
    from a have 1: "rethrow rt ''Failed to save checkpoint'' (put_try this now config cp md w) = (r3, w3)"
      by (simp add: CallbackSaver_put_def)
    from a have 3: "(c, Some t) \<in> set (new_calls w w3)" by simp
    show "r3 = Inl (wrap rt ''Failed to save checkpoint'' t)
      \<and> (\<exists>pre. new_calls w w3 = pre @ [(c, Some t)] \<and> (\<forall>x \<in> set pre. snd x = None))"
      by (rule rethrow_surfaced [OF 1 _ 3]) (rule put_try_surfaced)
  qed
  have g4: "CallbackSaver_putWrites rt this nows config writes task w = (r4, w4)
      \<and> (c, Some t) \<in> set (new_calls w w4) \<longrightarrow>
      r4 = Inl (wrap rt ''Failed to save writes'' t)
      \<and> (\<exists>pre. new_calls w w4 = pre @ [(c, Some t)] \<and> (\<forall>x \<in> set pre. snd x = None))"
  proof
    assume a: "CallbackSaver_putWrites rt this nows config writes task w = (r4, w4)
      \<and> (c, Some t) \<in> set (new_calls w w4)"
    from a have 1: "rethrow rt ''Failed to save writes'' (putWrites_try rt this nows config writes task w) = (r4, w4)"
      by (simp add: CallbackSaver_putWrites_def)
    from a have 3: "(c, Some t) \<in> set (new_calls w w4)" by simp
    show "r4 = Inl (wrap rt ''Failed to save writes'' t)
      \<and> (\<exists>pre. new_calls w w4 = pre @ [(c, Some t)] \<and> (\<forall>x \<in> set pre. snd x = None))"
      by (rule rethrow_surfaced [OF 1 _ 3]) (rule putWrites_try_surfaced)
  qed
  have g5: "CallbackSaver_deleteThread rt this tid w = (r5, w5)
      \<and> (c, Some t) \<in> set (new_calls w w5) \<longrightarrow>
      r5 = Inl (wrap rt ''Failed to delete thread'' t)
      \<and> (\<exists>pre. new_calls w w5 = pre @ [(c, Some t)] \<and> (\<forall>x \<in> set pre. snd x = None))"
  proof
    assume a: "CallbackSaver_deleteThread rt this tid w = (r5, w5)
      \<and> (c, Some t) \<in> set (new_calls w w5)"
    from a have 1: "rethrow rt ''Failed to delete thread'' (await (DeleteThreadCall tid) (deleteThread this tid) w) = (r5, w5)"
      by (simp add: CallbackSaver_deleteThread_def)
    from a have 3: "(c, Some t) \<in> set (new_calls w w5)" by simp
    show "r5 = Inl (wrap rt ''Failed to delete thread'' t)
      \<and> (\<exists>pre. new_calls w w5 = pre @ [(c, Some t)] \<and> (\<forall>x \<in> set pre. snd x = None))"
      by (rule rethrow_surfaced [OF 1 _ 3]) (rule await_surfaced)
  qed
  let ?opts = "listOptions_of (the (opt_field thread_id config))
                 (resolve_namespace (scripted_backend ws) config) options before_arg limit_arg"
  have g6: "truthy (opt_field thread_id config) \<and> list_all (resolved_page ws) qs \<and> length qs < fuel \<longrightarrow>
      (\<exists>ys pre.
         CallbackSaver_list fuel rt (scripted_backend ws) config options before_arg limit_arg
             \<lparr>store = map Inr qs @ Inl t # rest, trace = tr\<rparr>
           = Some ((ys, Some (wrap rt ''Failed to list checkpoints'' t)),
                   \<lparr>store = rest,
                    trace = tr @ pre @ [(ListCheckpointsCall (request_after ?opts qs), Some t)]\<rparr>)
       \<and> map t_checkpoint ys = map checkpoint (concat (map checkpoints qs))
       \<and> (\<forall>x \<in> set pre. snd x = None))"
  proof
    assume a: "truthy (opt_field thread_id config) \<and> list_all (resolved_page ws) qs \<and> length qs < fuel"
    then have a2: "list_all (resolved_page ws) qs" and a3: "length qs < fuel" by simp_all
    from list_loop_lister_rejects [OF a2 a3, of rt ?opts t rest tr]
    obtain ys pre where
      l: "list_loop fuel rt (scripted_backend ws) ?opts \<lparr>store = map Inr qs @ Inl t # rest, trace = tr\<rparr>
             = Some ((ys, Some t),
                     \<lparr>store = rest, trace = tr @ pre @ [(ListCheckpointsCall (request_after ?opts qs), Some t)]\<rparr>)"
         "map t_checkpoint ys = map checkpoint (concat (map checkpoints qs))"
         "\<forall>ev \<in> set pre. snd ev = None"
      by blast
    show "\<exists>ys pre.
         CallbackSaver_list fuel rt (scripted_backend ws) config options before_arg limit_arg
             \<lparr>store = map Inr qs @ Inl t # rest, trace = tr\<rparr>
           = Some ((ys, Some (wrap rt ''Failed to list checkpoints'' t)),
                   \<lparr>store = rest,
                    trace = tr @ pre @ [(ListCheckpointsCall (request_after ?opts qs), Some t)]\<rparr>)
       \<and> map t_checkpoint ys = map checkpoint (concat (map checkpoints qs))
       \<and> (\<forall>x \<in> set pre. snd x = None)"
      using a l
      by (intro exI [of _ ys] exI [of _ pre]) (simp add: CallbackSaver_list_def list_try_def Let_def)
  qed
  have g7: "truthy (opt_field thread_id config) \<and> list_all (resolved_page ws) qs \<and> length qs < fuel
      \<and> checkpoints p = cps @ sc # later \<and> list_all (writes_resolve ws) cps
      \<and> ws (threadId sc) (namespace sc) (checkpointId sc) = Inl t \<longrightarrow>
      (\<exists>ys pre.
         CallbackSaver_list fuel rt (scripted_backend ws) config options before_arg limit_arg
             \<lparr>store = map Inr qs @ Inr p # rest, trace = tr\<rparr>
           = Some ((ys, Some (wrap rt ''Failed to list checkpoints'' t)),
                   \<lparr>store = rest,
                    trace = tr @ pre @
                      [(GetWritesCall (threadId sc) (namespace sc) (checkpointId sc), Some t)]\<rparr>)
       \<and> map t_checkpoint ys = map checkpoint (concat (map checkpoints qs) @ cps)
       \<and> (\<forall>x \<in> set pre. snd x = None))"
  proof
    assume a: "truthy (opt_field thread_id config) \<and> list_all (resolved_page ws) qs \<and> length qs < fuel
      \<and> checkpoints p = cps @ sc # later \<and> list_all (writes_resolve ws) cps
      \<and> ws (threadId sc) (namespace sc) (checkpointId sc) = Inl t"
    then have a2: "list_all (resolved_page ws) qs" and a3: "length qs < fuel"
      and a4: "checkpoints p = cps @ sc # later" and a5: "list_all (writes_resolve ws) cps"
      and a6: "ws (threadId sc) (namespace sc) (checkpointId sc) = Inl t"
      by simp_all
    from list_loop_getWrites_rejects [OF a2 a3 a4 a5 a6, of rt ?opts rest tr]
    obtain ys pre where
      l: "list_loop fuel rt (scripted_backend ws) ?opts \<lparr>store = map Inr qs @ Inr p # rest, trace = tr\<rparr>
             = Some ((ys, Some t),
                     \<lparr>store = rest,
                      trace = tr @ pre @ [(GetWritesCall (threadId sc) (namespace sc) (checkpointId sc), Some t)]\<rparr>)"
         "map t_checkpoint ys = map checkpoint (concat (map checkpoints qs) @ cps)"
         "\<forall>ev \<in> set pre. snd ev = None"
      by blast
    show "\<exists>ys pre.
         CallbackSaver_list fuel rt (scripted_backend ws) config options before_arg limit_arg
             \<lparr>store = map Inr qs @ Inr p # rest, trace = tr\<rparr>
           = Some ((ys, Some (wrap rt ''Failed to list checkpoints'' t)),
                   \<lparr>store = rest,
                    trace = tr @ pre @
                      [(GetWritesCall (threadId sc) (namespace sc) (checkpointId sc), Some t)]\<rparr>)
       \<and> map t_checkpoint ys = map checkpoint (concat (map checkpoints qs) @ cps)
       \<and> (\<forall>x \<in> set pre. snd x = None)"
      using a l
      by (intro exI [of _ ys] exI [of _ pre]) (simp add: CallbackSaver_list_def list_try_def Let_def)
  qed
  show ?thesis
    by (intro conjI g1 g2 g3 g4 g5 g6 g7) (simp_all add: wrap_def)
qed

lemma rejecting_runs:
  "CallbackSaver_getTuple rt (rejecting_backend t) (thread_config ''t1'' None) (start ())
     = (Inl (wrap rt ''Failed to get checkpoint tuple'' t),
        \<lparr>store = (), trace = [(GetCheckpointCall ''t1'' ''default'' None, Some t)]\<rparr>)"
  "CallbackSaver_list (Suc 0) rt (rejecting_backend t) (thread_config ''t1'' None) None None None (start ())
     = Some (([], Some (wrap rt ''Failed to list checkpoints'' t)),
        \<lparr>store = (), trace = [(ListCheckpointsCall \<lparr>l_threadId = ''t1'', l_namespace = ''default'',
                 limit = None, before = None, filter_field = None\<rparr>, Some t)]\<rparr>)"
  "CallbackSaver_put rt (rejecting_backend t) 7 (thread_config ''t1'' None)
       \<lparr>id_field = ''c2'', content = JNull\<rparr> JNull [] (start ())
     = (Inl (wrap rt ''Failed to save checkpoint'' t),
        \<lparr>store = (), trace = [(PutCheckpointCall \<lparr>threadId = ''t1'', namespace = ''default'',
             checkpointId = ''c2'', parentCheckpointId = None,
             checkpoint = \<lparr>id_field = ''c2'', content = JNull\<rparr>, metadata = JNull,
             createdAt = 7, expiresAt = None\<rparr>, Some t)]\<rparr>)"
  "CallbackSaver_putWrites rt (rejecting_backend t) midnight (thread_config ''t1'' (Some ''c1''))
       [] ''task-1'' (start ())
     = (Inl (wrap rt ''Failed to save writes'' t),
        \<lparr>store = (), trace = [(PutWritesCall [], Some t)]\<rparr>)"
  "CallbackSaver_deleteThread rt (rejecting_backend t) ''t1'' (start ())
     = (Inl (wrap rt ''Failed to delete thread'' t),
        \<lparr>store = (), trace = [(DeleteThreadCall ''t1'', Some t)]\<rparr>)"
  by (simp_all add: CallbackSaver_getTuple_def getTuple_try_def CallbackSaver_list_def list_try_def
        listOptions_of_def CallbackSaver_put_def put_try_def CallbackSaver_putWrites_def putWrites_try_def
        CallbackSaver_deleteThread_def rethrow_def await_eq rejection_def
        Let_def thread_config_fields resolve_namespace_default rejecting_backend_namespace start_fields
        rejecting_backend_fields)

theorem backend_rejection_wrapped_once_witness:
  "CallbackSaver_getTuple reference_runtime (rejecting_backend database_down) (thread_config ''t1'' None) (start ())
       = (Inl (ThrownError (CallbackSaverError ''Failed to get checkpoint tuple: Database down'' (Some (Error ''Database down'')))),
          \<lparr>store = (), trace = [(GetCheckpointCall ''t1'' ''default'' None, Some database_down)]\<rparr>)
   \<and> (GetCheckpointCall ''t1'' ''default'' None, Some database_down)
       \<in> set (new_calls (start ()) \<lparr>store = (), trace = [(GetCheckpointCall ''t1'' ''default'' None, Some database_down)]\<rparr>)
   \<and> (\<exists>pre. new_calls (start ()) \<lparr>store = (), trace = [(GetCheckpointCall ''t1'' ''default'' None, Some database_down)]\<rparr>
              = pre @ [(GetCheckpointCall ''t1'' ''default'' None, Some database_down)]
            \<and> (\<forall>x \<in> set pre. snd x = None))
   \<and> CallbackSaver_list (Suc 0) reference_runtime (rejecting_backend database_down) (thread_config ''t1'' None) None None None (start ())
       = Some (([], Some (ThrownError (CallbackSaverError ''Failed to list checkpoints: Database down'' (Some (Error ''Database down''))))),
               \<lparr>store = (), trace = [(ListCheckpointsCall \<lparr>l_threadId = ''t1'', l_namespace = ''default'', limit = None, before = None, filter_field = None\<rparr>, Some database_down)]\<rparr>)
   \<and> (ListCheckpointsCall \<lparr>l_threadId = ''t1'', l_namespace = ''default'', limit = None, before = None, filter_field = None\<rparr>, Some database_down)
       \<in> set (new_calls (start ()) \<lparr>store = (), trace = [(ListCheckpointsCall \<lparr>l_threadId = ''t1'', l_namespace = ''default'', limit = None, before = None, filter_field = None\<rparr>, Some database_down)]\<rparr>)
   \<and> (\<exists>pre. new_calls (start ()) \<lparr>store = (), trace = [(ListCheckpointsCall \<lparr>l_threadId = ''t1'', l_namespace = ''default'', limit = None, before = None, filter_field = None\<rparr>, Some database_down)]\<rparr>
              = pre @ [(ListCheckpointsCall \<lparr>l_threadId = ''t1'', l_namespace = ''default'', limit = None, before = None, filter_field = None\<rparr>, Some database_down)]
            \<and> (\<forall>x \<in> set pre. snd x = None))
   \<and> CallbackSaver_put reference_runtime (rejecting_backend database_down) 7 (thread_config ''t1'' None) \<lparr>id_field = ''c2'', content = JNull\<rparr> JNull [] (start ())
       = (Inl (ThrownError (CallbackSaverError ''Failed to save checkpoint: Database down'' (Some (Error ''Database down'')))),
          \<lparr>store = (), trace = [(PutCheckpointCall \<lparr>threadId = ''t1'', namespace = ''default'', checkpointId = ''c2'', parentCheckpointId = None, checkpoint = \<lparr>id_field = ''c2'', content = JNull\<rparr>, metadata = JNull, createdAt = 7, expiresAt = None\<rparr>, Some database_down)]\<rparr>)
   \<and> (PutCheckpointCall \<lparr>threadId = ''t1'', namespace = ''default'', checkpointId = ''c2'', parentCheckpointId = None, checkpoint = \<lparr>id_field = ''c2'', content = JNull\<rparr>, metadata = JNull, createdAt = 7, expiresAt = None\<rparr>, Some database_down)
       \<in> set (new_calls (start ()) \<lparr>store = (), trace = [(PutCheckpointCall \<lparr>threadId = ''t1'', namespace = ''default'', checkpointId = ''c2'', parentCheckpointId = None, checkpoint = \<lparr>id_field = ''c2'', content = JNull\<rparr>, metadata = JNull, createdAt = 7, expiresAt = None\<rparr>, Some database_down)]\<rparr>)
   \<and> (\<exists>pre. new_calls (start ()) \<lparr>store = (), trace = [(PutCheckpointCall \<lparr>threadId = ''t1'', namespace = ''default'', checkpointId = ''c2'', parentCheckpointId = None, checkpoint = \<lparr>id_field = ''c2'', content = JNull\<rparr>, metadata = JNull, createdAt = 7, expiresAt = None\<rparr>, Some database_down)]\<rparr>
              = pre @ [(PutCheckpointCall \<lparr>threadId = ''t1'', namespace = ''default'', checkpointId = ''c2'', parentCheckpointId = None, checkpoint = \<lparr>id_field = ''c2'', content = JNull\<rparr>, metadata = JNull, createdAt = 7, expiresAt = None\<rparr>, Some database_down)]
            \<and> (\<forall>x \<in> set pre. snd x = None))
   \<and> CallbackSaver_putWrites reference_runtime (rejecting_backend database_down) midnight (thread_config ''t1'' (Some ''c1'')) [] ''task-1'' (start ())
       = (Inl (ThrownError (CallbackSaverError ''Failed to save writes: Database down'' (Some (Error ''Database down'')))),
          \<lparr>store = (), trace = [(PutWritesCall [], Some database_down)]\<rparr>)
   \<and> (PutWritesCall [], Some database_down)
       \<in> set (new_calls (start ()) \<lparr>store = (), trace = [(PutWritesCall [], Some database_down)]\<rparr>)
   \<and> (\<exists>pre. new_calls (start ()) \<lparr>store = (), trace = [(PutWritesCall [], Some database_down)]\<rparr>
              = pre @ [(PutWritesCall [], Some database_down)]
            \<and> (\<forall>x \<in> set pre. snd x = None))
   \<and> CallbackSaver_deleteThread reference_runtime (rejecting_backend database_down) ''t1'' (start ())
       = (Inl (ThrownError (CallbackSaverError ''Failed to delete thread: Database down'' (Some (Error ''Database down'')))),
          \<lparr>store = (), trace = [(DeleteThreadCall ''t1'', Some database_down)]\<rparr>)
   \<and> (DeleteThreadCall ''t1'', Some database_down)
       \<in> set (new_calls (start ()) \<lparr>store = (), trace = [(DeleteThreadCall ''t1'', Some database_down)]\<rparr>)
   \<and> (\<exists>pre. new_calls (start ()) \<lparr>store = (), trace = [(DeleteThreadCall ''t1'', Some database_down)]\<rparr>
              = pre @ [(DeleteThreadCall ''t1'', Some database_down)]
            \<and> (\<forall>x \<in> set pre. snd x = None))
   \<and> truthy (opt_field thread_id (thread_config ''t1'' None))
   \<and> list_all (resolved_page (writes_failing_at ''b'' database_down)) [\<lparr>checkpoints = [stored ''a'' None], nextCursor = Some ''a''\<rparr>]
   \<and> length [\<lparr>checkpoints = [stored ''a'' None], nextCursor = Some ''a''\<rparr>] < Suc (Suc 0)
   \<and> (\<exists>ys pre.
         CallbackSaver_list (Suc (Suc 0)) reference_runtime (scripted_backend (writes_failing_at ''b'' database_down))
             (thread_config ''t1'' None) None None None
             \<lparr>store = [Inr \<lparr>checkpoints = [stored ''a'' None], nextCursor = Some ''a''\<rparr>, Inl database_down], trace = []\<rparr>
           = Some ((ys, Some (ThrownError (CallbackSaverError ''Failed to list checkpoints: Database down'' (Some (Error ''Database down''))))),
                   \<lparr>store = [],
                    trace = pre @ [(ListCheckpointsCall \<lparr>l_threadId = ''t1'', l_namespace = ''default'', limit = None, before = Some ''a'', filter_field = None\<rparr>, Some database_down)]\<rparr>)
       \<and> map t_checkpoint ys = [checkpoint (stored ''a'' None)]
       \<and> (\<forall>x \<in> set pre. snd x = None))
   \<and> checkpoints \<lparr>checkpoints = [stored ''c'' None, stored ''b'' None, stored ''d'' None], nextCursor = None\<rparr> = [stored ''c'' None] @ stored ''b'' None # [stored ''d'' None]
   \<and> list_all (writes_resolve (writes_failing_at ''b'' database_down)) [stored ''c'' None]
   \<and> writes_failing_at ''b'' database_down (threadId (stored ''b'' None)) (namespace (stored ''b'' None)) (checkpointId (stored ''b'' None)) = Inl database_down
   \<and> (\<exists>ys pre.
         CallbackSaver_list (Suc (Suc 0)) reference_runtime (scripted_backend (writes_failing_at ''b'' database_down))
             (thread_config ''t1'' None) None None None
             \<lparr>store = [Inr \<lparr>checkpoints = [stored ''a'' None], nextCursor = Some ''a''\<rparr>, Inr \<lparr>checkpoints = [stored ''c'' None, stored ''b'' None, stored ''d'' None], nextCursor = None\<rparr>], trace = []\<rparr>
           = Some ((ys, Some (ThrownError (CallbackSaverError ''Failed to list checkpoints: Database down'' (Some (Error ''Database down''))))),
                   \<lparr>store = [],
                    trace = pre @ [(GetWritesCall ''t1'' ''default'' ''b'', Some database_down)]\<rparr>)
       \<and> map t_checkpoint ys = [checkpoint (stored ''a'' None), checkpoint (stored ''c'' None)]
       \<and> (\<forall>x \<in> set pre. snd x = None))
   \<and> String_of reference_runtime (JStr ''boom'') = Inr ''boom''
   \<and> wrap reference_runtime ''Failed to delete thread'' (ThrownValue (JStr ''boom'')) = ThrownError (CallbackSaverError ''Failed to delete thread: boom'' None)"
proof -
  note T = backend_rejection_wrapped_once [where rt = reference_runtime
     and this = "rejecting_backend database_down" and w = "start ()" and t = database_down
     and e = "Error ''Database down''" and v = "JStr ''boom''" and rendering = "''boom''"]
  note S = backend_rejection_wrapped_once [where rt = reference_runtime and t = database_down
     and ws = "writes_failing_at ''b'' database_down"
     and qs = "[\<lparr>checkpoints = [stored ''a'' None], nextCursor = Some ''a''\<rparr>]"
     and fuel = "Suc (Suc 0)" and rest = "[]" and tr = "[]"
     and p = "\<lparr>checkpoints = [stored ''c'' None, stored ''b'' None, stored ''d'' None], nextCursor = None\<rparr>"
     and cps = "[stored ''c'' None]" and sc = "stored ''b'' None" and later = "[stored ''d'' None]"]
  note W = T [THEN conjunct2, THEN conjunct2, THEN conjunct2, THEN conjunct2, THEN conjunct2,
              THEN conjunct2, THEN conjunct2, THEN conjunct1, folded database_down_def]
  note V = T [THEN conjunct2, THEN conjunct2, THEN conjunct2, THEN conjunct2, THEN conjunct2,
              THEN conjunct2, THEN conjunct2, THEN conjunct2, rule_format]
  note A = S [THEN conjunct2, THEN conjunct2, THEN conjunct2, THEN conjunct2, THEN conjunct2,
              THEN conjunct1, rule_format]
  note B = S [THEN conjunct2, THEN conjunct2, THEN conjunct2, THEN conjunct2, THEN conjunct2,
              THEN conjunct2, THEN conjunct1, rule_format]
  have hA1: "truthy (opt_field thread_id (thread_config ''t1'' None))"
    by (simp add: thread_config_fields)
  have hA2: "list_all (resolved_page (writes_failing_at ''b'' database_down)) [\<lparr>checkpoints = [stored ''a'' None], nextCursor = Some ''a''\<rparr>]"
    by (simp add: resolved_page_def writes_resolve_def writes_failing_at_def stored_fields)
  have hA3: "length [\<lparr>checkpoints = [stored ''a'' None], nextCursor = Some ''a''\<rparr>] < Suc (Suc 0)"
    by simp
  have hB4: "checkpoints \<lparr>checkpoints = [stored ''c'' None, stored ''b'' None, stored ''d'' None], nextCursor = None\<rparr> = [stored ''c'' None] @ stored ''b'' None # [stored ''d'' None]"
    by simp
  have hB5: "list_all (writes_resolve (writes_failing_at ''b'' database_down)) [stored ''c'' None]"
    by (simp add: writes_resolve_def writes_failing_at_def stored_fields)
  have hB6: "writes_failing_at ''b'' database_down (threadId (stored ''b'' None)) (namespace (stored ''b'' None)) (checkpointId (stored ''b'' None)) = Inl database_down"
    by (simp add: writes_failing_at_def stored_fields)
  have hV: "String_of reference_runtime (JStr ''boom'') = Inr ''boom''"
    by (simp add: reference_runtime_fields)
  have request: "request_after
          (listOptions_of (the (opt_field thread_id (thread_config ''t1'' None)))
             (resolve_namespace (scripted_backend (writes_failing_at ''b'' database_down)) (thread_config ''t1'' None)) None None None)
          [\<lparr>checkpoints = [stored ''a'' None], nextCursor = Some ''a''\<rparr>]
        = \<lparr>l_threadId = ''t1'', l_namespace = ''default'', limit = None, before = Some ''a'', filter_field = None\<rparr>"
    by (simp add: request_after_def listOptions_of_def thread_config_fields resolve_namespace_default
          scripted_backend_fields)
  from A [OF conjI [OF hA1 conjI [OF hA2 hA3]], where options = None and before_arg = None and limit_arg = None]
  obtain ys pre where a:
    "CallbackSaver_list (Suc (Suc 0)) reference_runtime (scripted_backend (writes_failing_at ''b'' database_down))
         (thread_config ''t1'' None) None None None
         \<lparr>store = map Inr [\<lparr>checkpoints = [stored ''a'' None], nextCursor = Some ''a''\<rparr>] @ Inl database_down # [], trace = []\<rparr>
       = Some ((ys, Some (wrap reference_runtime ''Failed to list checkpoints'' database_down)),
               \<lparr>store = [],
                trace = [] @ pre @ [(ListCheckpointsCall \<lparr>l_threadId = ''t1'', l_namespace = ''default'', limit = None, before = Some ''a'', filter_field = None\<rparr>, Some database_down)]\<rparr>)"
    "map t_checkpoint ys = map checkpoint (concat (map checkpoints [\<lparr>checkpoints = [stored ''a'' None], nextCursor = Some ''a''\<rparr>]))"
    "\<forall>x \<in> set pre. snd x = None"
    unfolding request by blast
  have resA: "(\<exists>ys pre.
         CallbackSaver_list (Suc (Suc 0)) reference_runtime (scripted_backend (writes_failing_at ''b'' database_down))
             (thread_config ''t1'' None) None None None
             \<lparr>store = [Inr \<lparr>checkpoints = [stored ''a'' None], nextCursor = Some ''a''\<rparr>, Inl database_down], trace = []\<rparr>
           = Some ((ys, Some (ThrownError (CallbackSaverError ''Failed to list checkpoints: Database down'' (Some (Error ''Database down''))))),
                   \<lparr>store = [],
                    trace = pre @ [(ListCheckpointsCall \<lparr>l_threadId = ''t1'', l_namespace = ''default'', limit = None, before = Some ''a'', filter_field = None\<rparr>, Some database_down)]\<rparr>)
       \<and> map t_checkpoint ys = [checkpoint (stored ''a'' None)]
       \<and> (\<forall>x \<in> set pre. snd x = None))"
    using a by (intro exI [of _ ys] exI [of _ pre]) (simp add: W)
  from B [OF conjI [OF hA1 conjI [OF hA2 conjI [OF hA3 conjI [OF hB4 conjI [OF hB5 hB6]]]]],
            where options = None and before_arg = None and limit_arg = None]
  obtain ys pre where b:
    "CallbackSaver_list (Suc (Suc 0)) reference_runtime (scripted_backend (writes_failing_at ''b'' database_down))
         (thread_config ''t1'' None) None None None
         \<lparr>store = map Inr [\<lparr>checkpoints = [stored ''a'' None], nextCursor = Some ''a''\<rparr>] @ Inr \<lparr>checkpoints = [stored ''c'' None, stored ''b'' None, stored ''d'' None], nextCursor = None\<rparr> # [], trace = []\<rparr>
       = Some ((ys, Some (wrap reference_runtime ''Failed to list checkpoints'' database_down)),
               \<lparr>store = [],
                trace = [] @ pre @ [(GetWritesCall (threadId (stored ''b'' None)) (namespace (stored ''b'' None))
                                       (checkpointId (stored ''b'' None)), Some database_down)]\<rparr>)"
    "map t_checkpoint ys = map checkpoint (concat (map checkpoints [\<lparr>checkpoints = [stored ''a'' None], nextCursor = Some ''a''\<rparr>]) @ [stored ''c'' None])"
    "\<forall>x \<in> set pre. snd x = None"
    by blast
  have resB: "(\<exists>ys pre.
         CallbackSaver_list (Suc (Suc 0)) reference_runtime (scripted_backend (writes_failing_at ''b'' database_down))
             (thread_config ''t1'' None) None None None
             \<lparr>store = [Inr \<lparr>checkpoints = [stored ''a'' None], nextCursor = Some ''a''\<rparr>, Inr \<lparr>checkpoints = [stored ''c'' None, stored ''b'' None, stored ''d'' None], nextCursor = None\<rparr>], trace = []\<rparr>
           = Some ((ys, Some (ThrownError (CallbackSaverError ''Failed to list checkpoints: Database down'' (Some (Error ''Database down''))))),
                   \<lparr>store = [],
                    trace = pre @ [(GetWritesCall ''t1'' ''default'' ''b'', Some database_down)]\<rparr>)
       \<and> map t_checkpoint ys = [checkpoint (stored ''a'' None), checkpoint (stored ''c'' None)]
       \<and> (\<forall>x \<in> set pre. snd x = None))"
    using b by (intro exI [of _ ys] exI [of _ pre]) (simp add: W stored_fields)
  have resV: "wrap reference_runtime ''Failed to delete thread'' (ThrownValue (JStr ''boom'')) = ThrownError (CallbackSaverError ''Failed to delete thread: boom'' None)"
    using V [OF hV, of "''Failed to delete thread''"] by simp
  have run1: "CallbackSaver_getTuple reference_runtime (rejecting_backend database_down) (thread_config ''t1'' None) (start ())
       = (Inl (ThrownError (CallbackSaverError ''Failed to get checkpoint tuple: Database down'' (Some (Error ''Database down'')))),
          \<lparr>store = (), trace = [(GetCheckpointCall ''t1'' ''default'' None, Some database_down)]\<rparr>)"
    by (simp add: rejecting_runs W)
  have mem1: "(GetCheckpointCall ''t1'' ''default'' None, Some database_down)
       \<in> set (new_calls (start ()) \<lparr>store = (), trace = [(GetCheckpointCall ''t1'' ''default'' None, Some database_down)]\<rparr>)"
    by (simp add: new_calls_def start_fields)
  have last1: "(\<exists>pre. new_calls (start ()) \<lparr>store = (), trace = [(GetCheckpointCall ''t1'' ''default'' None, Some database_down)]\<rparr>
              = pre @ [(GetCheckpointCall ''t1'' ''default'' None, Some database_down)]
            \<and> (\<forall>x \<in> set pre. snd x = None))"
    using T [THEN conjunct1, rule_format, OF conjI [OF run1 mem1]] by (rule conjunct2)
  have run2: "CallbackSaver_list (Suc 0) reference_runtime (rejecting_backend database_down) (thread_config ''t1'' None) None None None (start ())
       = Some (([], Some (ThrownError (CallbackSaverError ''Failed to list checkpoints: Database down'' (Some (Error ''Database down''))))),
               \<lparr>store = (), trace = [(ListCheckpointsCall \<lparr>l_threadId = ''t1'', l_namespace = ''default'', limit = None, before = None, filter_field = None\<rparr>, Some database_down)]\<rparr>)"
    by (simp add: rejecting_runs W)
  have mem2: "(ListCheckpointsCall \<lparr>l_threadId = ''t1'', l_namespace = ''default'', limit = None, before = None, filter_field = None\<rparr>, Some database_down)
       \<in> set (new_calls (start ()) \<lparr>store = (), trace = [(ListCheckpointsCall \<lparr>l_threadId = ''t1'', l_namespace = ''default'', limit = None, before = None, filter_field = None\<rparr>, Some database_down)]\<rparr>)"
    by (simp add: new_calls_def start_fields)
  have last2: "(\<exists>pre. new_calls (start ()) \<lparr>store = (), trace = [(ListCheckpointsCall \<lparr>l_threadId = ''t1'', l_namespace = ''default'', limit = None, before = None, filter_field = None\<rparr>, Some database_down)]\<rparr>
              = pre @ [(ListCheckpointsCall \<lparr>l_threadId = ''t1'', l_namespace = ''default'', limit = None, before = None, filter_field = None\<rparr>, Some database_down)]
            \<and> (\<forall>x \<in> set pre. snd x = None))"
    using T [THEN conjunct2, THEN conjunct1, rule_format, OF conjI [OF run2 mem2]] by (rule conjunct2)
  have run3: "CallbackSaver_put reference_runtime (rejecting_backend database_down) 7 (thread_config ''t1'' None) \<lparr>id_field = ''c2'', content = JNull\<rparr> JNull [] (start ())
       = (Inl (ThrownError (CallbackSaverError ''Failed to save checkpoint: Database down'' (Some (Error ''Database down'')))),
          \<lparr>store = (), trace = [(PutCheckpointCall \<lparr>threadId = ''t1'', namespace = ''default'', checkpointId = ''c2'', parentCheckpointId = None, checkpoint = \<lparr>id_field = ''c2'', content = JNull\<rparr>, metadata = JNull, createdAt = 7, expiresAt = None\<rparr>, Some database_down)]\<rparr>)"
    by (simp add: rejecting_runs W)
  have mem3: "(PutCheckpointCall \<lparr>threadId = ''t1'', namespace = ''default'', checkpointId = ''c2'', parentCheckpointId = None, checkpoint = \<lparr>id_field = ''c2'', content = JNull\<rparr>, metadata = JNull, createdAt = 7, expiresAt = None\<rparr>, Some database_down)
       \<in> set (new_calls (start ()) \<lparr>store = (), trace = [(PutCheckpointCall \<lparr>threadId = ''t1'', namespace = ''default'', checkpointId = ''c2'', parentCheckpointId = None, checkpoint = \<lparr>id_field = ''c2'', content = JNull\<rparr>, metadata = JNull, createdAt = 7, expiresAt = None\<rparr>, Some database_down)]\<rparr>)"
    by (simp add: new_calls_def start_fields)
  have last3: "(\<exists>pre. new_calls (start ()) \<lparr>store = (), trace = [(PutCheckpointCall \<lparr>threadId = ''t1'', namespace = ''default'', checkpointId = ''c2'', parentCheckpointId = None, checkpoint = \<lparr>id_field = ''c2'', content = JNull\<rparr>, metadata = JNull, createdAt = 7, expiresAt = None\<rparr>, Some database_down)]\<rparr>
              = pre @ [(PutCheckpointCall \<lparr>threadId = ''t1'', namespace = ''default'', checkpointId = ''c2'', parentCheckpointId = None, checkpoint = \<lparr>id_field = ''c2'', content = JNull\<rparr>, metadata = JNull, createdAt = 7, expiresAt = None\<rparr>, Some database_down)]
            \<and> (\<forall>x \<in> set pre. snd x = None))"
    using T [THEN conjunct2, THEN conjunct2, THEN conjunct1, rule_format, OF conjI [OF run3 mem3]] by (rule conjunct2)
  have run4: "CallbackSaver_putWrites reference_runtime (rejecting_backend database_down) midnight (thread_config ''t1'' (Some ''c1'')) [] ''task-1'' (start ())
       = (Inl (ThrownError (CallbackSaverError ''Failed to save writes: Database down'' (Some (Error ''Database down'')))),
          \<lparr>store = (), trace = [(PutWritesCall [], Some database_down)]\<rparr>)"
    by (simp add: rejecting_runs W)
  have mem4: "(PutWritesCall [], Some database_down)
       \<in> set (new_calls (start ()) \<lparr>store = (), trace = [(PutWritesCall [], Some database_down)]\<rparr>)"
    by (simp add: new_calls_def start_fields)
  have last4: "(\<exists>pre. new_calls (start ()) \<lparr>store = (), trace = [(PutWritesCall [], Some database_down)]\<rparr>
              = pre @ [(PutWritesCall [], Some database_down)]
            \<and> (\<forall>x \<in> set pre. snd x = None))"
    using T [THEN conjunct2, THEN conjunct2, THEN conjunct2, THEN conjunct1, rule_format, OF conjI [OF run4 mem4]] by (rule conjunct2)
  have run5: "CallbackSaver_deleteThread reference_runtime (rejecting_backend database_down) ''t1'' (start ())
       = (Inl (ThrownError (CallbackSaverError ''Failed to delete thread: Database down'' (Some (Error ''Database down'')))),
          \<lparr>store = (), trace = [(DeleteThreadCall ''t1'', Some database_down)]\<rparr>)"
    by (simp add: rejecting_runs W)
  have mem5: "(DeleteThreadCall ''t1'', Some database_down)
       \<in> set (new_calls (start ()) \<lparr>store = (), trace = [(DeleteThreadCall ''t1'', Some database_down)]\<rparr>)"
    by (simp add: new_calls_def start_fields)
  have last5: "(\<exists>pre. new_calls (start ()) \<lparr>store = (), trace = [(DeleteThreadCall ''t1'', Some database_down)]\<rparr>
              = pre @ [(DeleteThreadCall ''t1'', Some database_down)]
            \<and> (\<forall>x \<in> set pre. snd x = None))"
    using T [THEN conjunct2, THEN conjunct2, THEN conjunct2, THEN conjunct2, THEN conjunct1, rule_format, OF conjI [OF run5 mem5]] by (rule conjunct2)
  show ?thesis
    by (intro conjI run1 mem1 last1 run2 mem2 last2 run3 mem3 last3 run4 mem4 last4 run5 mem5 last5
          hA1 hA2 hA3 resA hB4 hB5 hB6 resB hV resV)
qed

text \<open>
  Claim C4 as stated fails on the cause: a callback may reject with a value that is not an
  \<^verbatim>\<open>Error\<close> instance, and then the error raised carries no cause, since the \<^verbatim>\<open>catch\<close> attaches
  one only under \<^verbatim>\<open>error instanceof Error\<close> (first two conjuncts). When moreover \<^verbatim>\<open>String\<close>
  cannot render the rejected value, the \<^verbatim>\<open>String(error)\<close> that builds the message throws
  inside the \<^verbatim>\<open>catch\<close>, and its \<^verbatim>\<open>TypeError\<close> leaves the operation in place of a
  \<^verbatim>\<open>CallbackSaverError\<close> (last conjunct); the amended claim does not speak of that case.
\<close>

theorem backend_rejection_counterexample:
  "fst (CallbackSaver_getTuple reference_runtime (rejecting_backend (ThrownValue (JStr ''boom'')))
          (thread_config ''t1'' None) (start ()))
     = Inl (ThrownError (CallbackSaverError ''Failed to get checkpoint tuple: boom'' None))
   \<and> trace (snd (CallbackSaver_getTuple reference_runtime (rejecting_backend (ThrownValue (JStr ''boom'')))
          (thread_config ''t1'' None) (start ())))
     = [(GetCheckpointCall ''t1'' ''default'' None, Some (ThrownValue (JStr ''boom'')))]
   \<and> fst (CallbackSaver_getTuple reference_runtime (rejecting_backend (ThrownValue JBareCycle))
          (thread_config ''t1'' None) (start ()))
     = Inl (ThrownError (Error ''Cannot convert object to primitive value''))"
  by (simp add: CallbackSaver_getTuple_def getTuple_try_def rethrow_def wrap_def await_eq rejection_def
        Let_def thread_config_fields resolve_namespace_default rejecting_backend_namespace start_fields
        reference_runtime_fields rejecting_backend_fields)

subsection \<open>Listing follows the backend's pages (C5)\<close>

lemma yield_tuples_paged:
  "\<exists>tuples evs.
     yield_tuples rt (paged_backend found ws\<lparr>cfg_namespace := ns, serialize := ser\<rparr>) cps \<lparr>store = s, trace = tr\<rparr>
       = ((tuples, None), \<lparr>store = s, trace = tr @ evs\<rparr>)
   \<and> map t_checkpoint tuples = map checkpoint cps
   \<and> (\<forall>ev \<in> set evs. \<not> is_ListCheckpointsCall (fst ev))"
proof (induction cps arbitrary: tr)
  case Nil
  show ?case by simp
next
  case (Cons sc cps)
  let ?c = "GetWritesCall (threadId sc) (namespace sc) (checkpointId sc)"
  obtain tuple where t: "toTuple rt (paged_backend found ws\<lparr>cfg_namespace := ns, serialize := ser\<rparr>) sc (ws (threadId sc) (namespace sc) (checkpointId sc)) = Inr tuple"
    "t_checkpoint tuple = checkpoint sc"
    using toTuple_Inr [of rt "paged_backend found ws\<lparr>cfg_namespace := ns, serialize := ser\<rparr>" sc] by force
  from Cons [of "tr @ [(?c, None)]"] obtain tuples evs where
    r: "yield_tuples rt (paged_backend found ws\<lparr>cfg_namespace := ns, serialize := ser\<rparr>) cps \<lparr>store = s, trace = (tr @ [(?c, None)])\<rparr>
          = ((tuples, None), \<lparr>store = s, trace = (tr @ [(?c, None)]) @ evs\<rparr>)"
       "map t_checkpoint tuples = map checkpoint cps"
       "\<forall>ev \<in> set evs. \<not> is_ListCheckpointsCall (fst ev)"
    by blast
  show ?case
    using t r
    by (intro exI [of _ "tuple # tuples"] exI [of _ "(?c, None) # evs"])
       (simp add: await_eq paged_backend_fields rejection_def is_ListCheckpointsCall_def)
qed

lemma list_loop_paged:
  assumes "\<forall>q \<in> set qs. truthy (nextCursor q)" and "\<not> truthy (nextCursor p)" and "length qs < fuel"
  shows "\<exists>tuples evs.
           list_loop fuel rt (paged_backend found ws\<lparr>cfg_namespace := ns, serialize := ser\<rparr>) opts \<lparr>store = qs @ p # rest, trace = tr\<rparr>
             = Some ((tuples, None), \<lparr>store = rest, trace = tr @ evs\<rparr>)
         \<and> map t_checkpoint tuples = map checkpoint (concat (map checkpoints (qs @ [p])))
         \<and> map fst (filter (\<lambda>ev. is_ListCheckpointsCall (fst ev)) evs)
             = map (\<lambda>b. ListCheckpointsCall (opts\<lparr>before := b\<rparr>)) (before opts # map nextCursor qs)"
  using assms
proof (induction qs arbitrary: fuel opts tr)
  case Nil
  then obtain n where fuel: "fuel = Suc n" by (cases fuel) auto
  let ?c = "ListCheckpointsCall opts"
  from yield_tuples_paged [where rt = rt and found = found and ws = ws and ns = ns and ser = ser
         and cps = "checkpoints p" and s = rest and tr = "tr @ [(?c, None)]"]
  obtain tuples evs where
    y: "yield_tuples rt (paged_backend found ws\<lparr>cfg_namespace := ns, serialize := ser\<rparr>) (checkpoints p) \<lparr>store = rest, trace = tr @ [(?c, None)]\<rparr>
          = ((tuples, None), \<lparr>store = rest, trace = (tr @ [(?c, None)]) @ evs\<rparr>)"
       "map t_checkpoint tuples = map checkpoint (checkpoints p)"
       "\<forall>ev \<in> set evs. \<not> is_ListCheckpointsCall (fst ev)"
    by blast
  have f: "filter (\<lambda>ev. is_ListCheckpointsCall (fst ev)) evs = []"
    using y(3) by (simp add: filter_empty_conv)
  show ?case
    using y(1,2) Nil.prems(2) f
    by (intro exI [of _ tuples] exI [of _ "(?c, None) # evs"])
       (simp add: fuel await_eq paged_backend_fields rejection_def is_ListCheckpointsCall_def)
next
  case (Cons q qs)
  then obtain n where fuel: "fuel = Suc n" and n: "length qs < n" by (cases fuel) auto
  let ?c = "ListCheckpointsCall opts"
  from yield_tuples_paged [where rt = rt and found = found and ws = ws and ns = ns and ser = ser
         and cps = "checkpoints q" and s = "qs @ p # rest" and tr = "tr @ [(?c, None)]"]
  obtain tuples evs where
    y: "yield_tuples rt (paged_backend found ws\<lparr>cfg_namespace := ns, serialize := ser\<rparr>) (checkpoints q) \<lparr>store = qs @ p # rest, trace = tr @ [(?c, None)]\<rparr>
          = ((tuples, None), \<lparr>store = qs @ p # rest, trace = (tr @ [(?c, None)]) @ evs\<rparr>)"
       "map t_checkpoint tuples = map checkpoint (checkpoints q)"
       "\<forall>ev \<in> set evs. \<not> is_ListCheckpointsCall (fst ev)"
    by blast
  have f: "filter (\<lambda>ev. is_ListCheckpointsCall (fst ev)) evs = []"
    using y(3) by (simp add: filter_empty_conv)
  have q: "truthy (nextCursor q)" and qs: "\<forall>q \<in> set qs. truthy (nextCursor q)"
    using Cons.prems(1) by simp_all
  from Cons.IH [OF qs Cons.prems(2) n, of "opts\<lparr>before := nextCursor q\<rparr>" "(tr @ [(?c, None)]) @ evs"]
  obtain tuples2 evs2 where
    r: "list_loop n rt (paged_backend found ws\<lparr>cfg_namespace := ns, serialize := ser\<rparr>) (opts\<lparr>before := nextCursor q\<rparr>)
          \<lparr>store = qs @ p # rest, trace = (tr @ [(?c, None)]) @ evs\<rparr>
        = Some ((tuples2, None), \<lparr>store = rest, trace = ((tr @ [(?c, None)]) @ evs) @ evs2\<rparr>)"
       "map t_checkpoint tuples2 = map checkpoint (concat (map checkpoints (qs @ [p])))"
       "map fst (filter (\<lambda>ev. is_ListCheckpointsCall (fst ev)) evs2)
          = map (\<lambda>b. ListCheckpointsCall (opts\<lparr>before := nextCursor q, before := b\<rparr>))
                (before (opts\<lparr>before := nextCursor q\<rparr>) # map nextCursor qs)"
    by blast
  show ?case
    using y(1,2) r q f
    by (intro exI [of _ "tuples @ tuples2"] exI [of _ "(?c, None) # evs @ evs2"])
       (simp add: fuel await_eq paged_backend_fields rejection_def is_ListCheckpointsCall_def)
qed

text \<open>
  Claim C5. Whatever the saver's default namespace and serialize setting, let the backend's
  lister answer with the pages \<open>qs\<close>, each with a cursor, then
  with a page \<open>p\<close> without one (and hold further pages \<open>rest\<close>). Then \<^verbatim>\<open>list\<close>, given a
  thread_id and at least \<open>length qs + 1\<close> iterations, ends without error; it yields one tuple
  per checkpoint of \<open>qs\<close> and \<open>p\<close>, in the order of the pages and of the checkpoints within each
  page; it calls the lister \<open>length qs + 1\<close> times, the first time with the request built from
  the arguments and each later time with the same request whose \<open>before\<close> is the cursor of the
  page just consumed; and it never asks for \<open>rest\<close>.
\<close>

theorem list_follows_backend_pages:
  assumes "truthy (opt_field thread_id config)"
    and "\<forall>q \<in> set qs. truthy (nextCursor q)"
    and "\<not> truthy (nextCursor p)"
    and "length qs < fuel"
  shows "\<exists>tuples w'.
           CallbackSaver_list fuel rt (paged_backend found ws\<lparr>cfg_namespace := ns, serialize := ser\<rparr>) config options before_arg limit_arg
               \<lparr>store = qs @ p # rest, trace = tr\<rparr>
             = Some ((tuples, None), w')
         \<and> map t_checkpoint tuples = map checkpoint (concat (map checkpoints (qs @ [p])))
         \<and> store w' = rest
         \<and> map fst (filter (\<lambda>ev. is_ListCheckpointsCall (fst ev))
                       (new_calls \<lparr>store = qs @ p # rest, trace = tr\<rparr> w'))
             = map (\<lambda>b. ListCheckpointsCall
                          ((listOptions_of (the (opt_field thread_id config))
                              (resolve_namespace (paged_backend found ws\<lparr>cfg_namespace := ns, serialize := ser\<rparr>) config)
                              options before_arg limit_arg)\<lparr>before := b\<rparr>))
                   ((case before_arg of None \<Rightarrow> None | Some b \<Rightarrow> opt_field checkpoint_id b)
                      # map nextCursor qs)"
proof -
  let ?opts = "listOptions_of (the (opt_field thread_id config))
                 (resolve_namespace (paged_backend found ws\<lparr>cfg_namespace := ns, serialize := ser\<rparr>) config) options before_arg limit_arg"
  from list_loop_paged [OF assms(2-4), where rt = rt and found = found and ws = ws and ns = ns
         and ser = ser and opts = ?opts and rest = rest and tr = tr]
  obtain tuples evs where
    l: "list_loop fuel rt (paged_backend found ws\<lparr>cfg_namespace := ns, serialize := ser\<rparr>) ?opts \<lparr>store = qs @ p # rest, trace = tr\<rparr>
          = Some ((tuples, None), \<lparr>store = rest, trace = tr @ evs\<rparr>)"
       "map t_checkpoint tuples = map checkpoint (concat (map checkpoints (qs @ [p])))"
       "map fst (filter (\<lambda>ev. is_ListCheckpointsCall (fst ev)) evs)
          = map (\<lambda>b. ListCheckpointsCall (?opts\<lparr>before := b\<rparr>)) (before ?opts # map nextCursor qs)"
    by blast
  have b: "before ?opts = (case before_arg of None \<Rightarrow> None | Some b \<Rightarrow> opt_field checkpoint_id b)"
    by (simp add: listOptions_of_def)
  show ?thesis
    using assms(1) l
    by (intro exI [of _ tuples] exI [of _ "\<lparr>store = rest, trace = tr @ evs\<rparr>"])
       (simp add: CallbackSaver_list_def list_try_def Let_def new_calls_def b)
qed

lemma two_pages:
  "(\<forall>q \<in> set [\<lparr>checkpoints = [stored ''a'' None], nextCursor = Some ''a''\<rparr>]. truthy (nextCursor q))"
  "\<not> truthy (nextCursor \<lparr>checkpoints = [stored ''b'' (Some ''a'')], nextCursor = None\<rparr>)"
  "length [\<lparr>checkpoints = [stored ''a'' None], nextCursor = Some ''a''\<rparr>] < 2"
  by simp_all

theorem list_follows_backend_pages_witness:
  "truthy (opt_field thread_id (thread_config ''t1'' None))
   \<and> truthy (nextCursor \<lparr>checkpoints = [stored ''a'' None], nextCursor = Some ''a''\<rparr>)
   \<and> \<not> truthy (nextCursor \<lparr>checkpoints = [stored ''b'' (Some ''a'')], nextCursor = None\<rparr>)
   \<and> length [\<lparr>checkpoints = [stored ''a'' None], nextCursor = Some ''a''\<rparr>] < 2
   \<and> (\<exists>tuples w'.
         CallbackSaver_list 2 reference_runtime (paged_backend None no_writes)
             (thread_config ''t1'' None) None None (Some 1)
             \<lparr>store = [\<lparr>checkpoints = [stored ''a'' None], nextCursor = Some ''a''\<rparr>,
                       \<lparr>checkpoints = [stored ''b'' (Some ''a'')], nextCursor = None\<rparr>],
              trace = []\<rparr>
           = Some ((tuples, None), w')
       \<and> map (\<lambda>t. id_field (t_checkpoint t)) tuples = [''a'', ''b'']
       \<and> store w' = []
       \<and> map fst (filter (\<lambda>ev. is_ListCheckpointsCall (fst ev))
                     (new_calls \<lparr>store = [\<lparr>checkpoints = [stored ''a'' None], nextCursor = Some ''a''\<rparr>,
                                          \<lparr>checkpoints = [stored ''b'' (Some ''a'')], nextCursor = None\<rparr>],
                                 trace = []\<rparr> w'))
           = [ListCheckpointsCall \<lparr>l_threadId = ''t1'', l_namespace = ''default'', limit = Some 1,
                                   before = None, filter_field = None\<rparr>,
              ListCheckpointsCall \<lparr>l_threadId = ''t1'', l_namespace = ''default'', limit = Some 1,
                                   before = Some ''a'', filter_field = None\<rparr>])"
proof -
  let ?q = "\<lparr>checkpoints = [stored ''a'' None], nextCursor = Some ''a''\<rparr>"
  let ?p = "\<lparr>checkpoints = [stored ''b'' (Some ''a'')], nextCursor = None\<rparr>"
  let ?w = "\<lparr>store = [?q, ?p], trace = []\<rparr>"
  have h1: "truthy (opt_field thread_id (thread_config ''t1'' None))"
    by (simp add: thread_config_fields)
  have ns: "resolve_namespace (paged_backend None no_writes) (thread_config ''t1'' None) = ''default''"
    by (simp add: resolve_namespace_default paged_backend_namespace)
  have same: "paged_backend None no_writes\<lparr>cfg_namespace := Some ''default'', serialize := Some True\<rparr>
      = paged_backend None no_writes"
    by (simp add: paged_backend_def)
  from list_follows_backend_pages [OF h1 two_pages, where rt = reference_runtime and found = None
         and ws = no_writes and ns = "Some ''default''" and ser = "Some True" and options = None
         and before_arg = None and limit_arg = "Some 1" and rest = "[]" and tr = "[]", unfolded same]
  obtain tuples w' where
    r: "CallbackSaver_list 2 reference_runtime (paged_backend None no_writes)
             (thread_config ''t1'' None) None None (Some 1) ?w = Some ((tuples, None), w')"
       "map t_checkpoint tuples = map checkpoint (concat (map checkpoints ([?q] @ [?p])))"
       "store w' = []"
       "map fst (filter (\<lambda>ev. is_ListCheckpointsCall (fst ev)) (new_calls ?w w'))
          = map (\<lambda>b. ListCheckpointsCall
                          ((listOptions_of (the (opt_field thread_id (thread_config ''t1'' None)))
                              (resolve_namespace (paged_backend None no_writes) (thread_config ''t1'' None))
                              None None (Some 1))\<lparr>before := b\<rparr>))
                   ((case None of None \<Rightarrow> None | Some b \<Rightarrow> opt_field checkpoint_id b)
                      # map nextCursor [?q])"
    by auto
  have ids: "map (\<lambda>t. id_field (t_checkpoint t)) tuples = [''a'', ''b'']"
  proof -
    have "map (\<lambda>t. id_field (t_checkpoint t)) tuples = map id_field (map t_checkpoint tuples)"
      by simp
    also have "\<dots> = [''a'', ''b'']" unfolding r(2) by (simp add: stored_def)
    finally show ?thesis .
  qed
  have calls: "map fst (filter (\<lambda>ev. is_ListCheckpointsCall (fst ev)) (new_calls ?w w'))
           = [ListCheckpointsCall \<lparr>l_threadId = ''t1'', l_namespace = ''default'', limit = Some 1,
                                   before = None, filter_field = None\<rparr>,
              ListCheckpointsCall \<lparr>l_threadId = ''t1'', l_namespace = ''default'', limit = Some 1,
                                   before = Some ''a'', filter_field = None\<rparr>]"
    unfolding r(4) by (simp add: ns thread_config_fields listOptions_of_def)
  have ex: "\<exists>tuples w'.
         CallbackSaver_list 2 reference_runtime (paged_backend None no_writes)
             (thread_config ''t1'' None) None None (Some 1) ?w
           = Some ((tuples, None), w')
       \<and> map (\<lambda>t. id_field (t_checkpoint t)) tuples = [''a'', ''b'']
       \<and> store w' = []
       \<and> map fst (filter (\<lambda>ev. is_ListCheckpointsCall (fst ev)) (new_calls ?w w'))
           = [ListCheckpointsCall \<lparr>l_threadId = ''t1'', l_namespace = ''default'', limit = Some 1,
                                   before = None, filter_field = None\<rparr>,
              ListCheckpointsCall \<lparr>l_threadId = ''t1'', l_namespace = ''default'', limit = Some 1,
                                   before = Some ''a'', filter_field = None\<rparr>]"
    by (intro exI [of _ tuples] exI [of _ w'] conjI r(1) ids r(3) calls)
  have c1: "truthy (nextCursor \<lparr>checkpoints = [stored ''a'' None], nextCursor = Some ''a''\<rparr>)"
    by simp
  show ?thesis by (intro conjI h1 c1 two_pages(2,3) ex)
qed

subsection \<open>What put stores and returns (C6)\<close>

text \<open>
  Claim C6. A \<^verbatim>\<open>put\<close> call whose config has a thread_id invokes \<^verbatim>\<open>putCheckpoint\<close> once with a
  record whose \<open>checkpointId\<close> is \<^verbatim>\<open>checkpoint.id\<close>, whose \<open>parentCheckpointId\<close> is the config's
  checkpoint_id (absent when the config has none), under the config's thread_id and the
  resolved namespace; when the callback resolves, \<^verbatim>\<open>put\<close> returns the config made of exactly
  that thread_id, that namespace and \<^verbatim>\<open>checkpoint.id\<close>.
\<close>

theorem put_addresses_checkpoint:
  assumes "truthy (opt_field thread_id config)"
  shows "\<exists>sc r.
           trace (snd (CallbackSaver_put rt this now config cp md newVersions w))
             = trace w @ [(PutCheckpointCall sc, r)]
         \<and> checkpointId sc = id_field cp
         \<and> parentCheckpointId sc = opt_field checkpoint_id config
         \<and> Some (threadId sc) = opt_field thread_id config
         \<and> namespace sc = resolve_namespace this config
         \<and> checkpoint sc = cp \<and> metadata sc = md
         \<and> (r = None \<longrightarrow>
              fst (CallbackSaver_put rt this now config cp md newVersions w)
                = Inr \<lparr>configurable = Some
                        \<lparr>thread_id = opt_field thread_id config,
                         checkpoint_ns = Some (resolve_namespace this config),
                         checkpoint_id = Some (id_field cp),
                         checkpoint_parent_id = None\<rparr>\<rparr>)"
proof -
  obtain tid where tid: "opt_field thread_id config = Some tid"
    using assms by (cases "opt_field thread_id config") auto
  show ?thesis
    using assms tid
    by (cases "fst (putCheckpoint this
           \<lparr>threadId = tid, namespace = resolve_namespace this config, checkpointId = id_field cp,
            parentCheckpointId = opt_field checkpoint_id config, checkpoint = cp, metadata = md,
            createdAt = now, expiresAt = None\<rparr> (store w))")
       (simp_all add: CallbackSaver_put_def put_try_def rethrow_def await_eq rejection_def Let_def)
qed

theorem put_addresses_checkpoint_witness:
  "truthy (opt_field thread_id (thread_config ''t1'' (Some ''c1'')))
   \<and> (\<exists>sc.
         trace (snd (CallbackSaver_put reference_runtime (paged_backend None no_writes) 7
                       (thread_config ''t1'' (Some ''c1''))
                       \<lparr>id_field = ''c2'', content = JNull\<rparr> JNull [] (start [])))
           = [(PutCheckpointCall sc, None)]
       \<and> checkpointId sc = ''c2''
       \<and> parentCheckpointId sc = Some ''c1''
       \<and> threadId sc = ''t1''
       \<and> namespace sc = ''default'')
   \<and> fst (CallbackSaver_put reference_runtime (paged_backend None no_writes) 7
            (thread_config ''t1'' (Some ''c1''))
            \<lparr>id_field = ''c2'', content = JNull\<rparr> JNull [] (start []))
        = Inr \<lparr>configurable = Some \<lparr>thread_id = Some ''t1'', checkpoint_ns = Some ''default'',
                                      checkpoint_id = Some ''c2'', checkpoint_parent_id = None\<rparr>\<rparr>"
proof -
  let ?run = "CallbackSaver_put reference_runtime (paged_backend None no_writes) 7
                (thread_config ''t1'' (Some ''c1'')) \<lparr>id_field = ''c2'', content = JNull\<rparr> JNull [] (start [])"
  have h1: "truthy (opt_field thread_id (thread_config ''t1'' (Some ''c1'')))"
    by (simp add: thread_config_fields)
  have ns: "resolve_namespace (paged_backend None no_writes) (thread_config ''t1'' (Some ''c1'')) = ''default''"
    by (simp add: resolve_namespace_default paged_backend_namespace)
  from put_addresses_checkpoint [OF h1, of reference_runtime "paged_backend None no_writes" 7
         "\<lparr>id_field = ''c2'', content = JNull\<rparr>" JNull "[]" "start []", unfolded start_fields append_Nil]
  obtain sc r where b:
    "trace (snd ?run) = [(PutCheckpointCall sc, r)]"
    "checkpointId sc = id_field \<lparr>id_field = ''c2'', content = JNull\<rparr>"
    "parentCheckpointId sc = opt_field checkpoint_id (thread_config ''t1'' (Some ''c1''))"
    "Some (threadId sc) = opt_field thread_id (thread_config ''t1'' (Some ''c1''))"
    "namespace sc = resolve_namespace (paged_backend None no_writes) (thread_config ''t1'' (Some ''c1''))"
    "r = None \<longrightarrow> fst ?run = Inr \<lparr>configurable = Some
                        \<lparr>thread_id = opt_field thread_id (thread_config ''t1'' (Some ''c1'')),
                         checkpoint_ns = Some (resolve_namespace (paged_backend None no_writes) (thread_config ''t1'' (Some ''c1''))),
                         checkpoint_id = Some (id_field \<lparr>id_field = ''c2'', content = JNull\<rparr>),
                         checkpoint_parent_id = None\<rparr>\<rparr>"
    by blast
  note tr = b(1)
  have "snd (last (trace (snd ?run))) = None"
    by (simp add: CallbackSaver_put_def put_try_def rethrow_def await_eq rejection_def Let_def
          thread_config_fields paged_backend_def)
  with tr have r: "r = None" by simp
  have res: "fst ?run = Inr \<lparr>configurable = Some \<lparr>thread_id = Some ''t1'', checkpoint_ns = Some ''default'',
                                      checkpoint_id = Some ''c2'', checkpoint_parent_id = None\<rparr>\<rparr>"
    using b(6) r by (simp add: ns thread_config_fields)
  have "checkpointId sc = ''c2''" "parentCheckpointId sc = Some ''c1''" "threadId sc = ''t1''"
    "namespace sc = ''default''"
    using b(2-5) by (simp_all add: ns thread_config_fields)
  then have ex: "\<exists>sc.
         trace (snd ?run) = [(PutCheckpointCall sc, None)]
       \<and> checkpointId sc = ''c2''
       \<and> parentCheckpointId sc = Some ''c1''
       \<and> threadId sc = ''t1''
       \<and> namespace sc = ''default''"
    using tr r by (intro exI [of _ sc] conjI) simp_all
  show ?thesis by (intro conjI h1 ex res)
qed

subsection \<open>The codec round trip (C7)\<close>

text \<open>
  Claim C7. With serialization enabled (\<open>serialize\<close> not set to false), a JSON-serialisable
  value survives the codec: \<^verbatim>\<open>deserializeValue(serializeValue(v))\<close> is \<open>v\<close>. For any
  implementation of the built-ins, this holds of every value that \<^verbatim>\<open>JSON.stringify\<close> turns
  into a text which \<^verbatim>\<open>JSON.parse\<close> turns back into the value, and what is stored is that
  text. For the reference implementation it holds of every JSON datum: null, booleans,
  numbers, strings, and arrays and objects of such values, nested to any depth.
\<close>

theorem codec_round_trip:
  "(serialize this \<noteq> Some False \<and> JSON_stringify rt v = Inr (Some s) \<and> JSON_parse rt s = Inr v \<longrightarrow>
      (\<exists>kept. serializeValue rt this v = Inr kept \<and> kept = JStr s
              \<and> deserializeValue rt this kept = Inr v))
 \<and> (serialize this \<noteq> Some False \<and> json_data v \<longrightarrow>
      (\<exists>kept. serializeValue reference_runtime this v = Inr kept
              \<and> deserializeValue reference_runtime this kept = Inr v))"
proof -
  have general: "serialize this \<noteq> Some False \<Longrightarrow> JSON_stringify rt v = Inr (Some s) \<Longrightarrow>
      JSON_parse rt s = Inr v \<Longrightarrow>
      serializeValue rt this v = Inr (JStr s) \<and> deserializeValue rt this (JStr s) = Inr v"
    for rt v s
    by (simp add: serializeValue_def deserializeValue_def try_catch_def)
  have a: "serialize this \<noteq> Some False \<and> JSON_stringify rt v = Inr (Some s) \<and> JSON_parse rt s = Inr v \<longrightarrow>
      (\<exists>kept. serializeValue rt this v = Inr kept \<and> kept = JStr s
              \<and> deserializeValue rt this kept = Inr v)"
    using general [of rt v s] by simp
  have b: "serialize this \<noteq> Some False \<and> json_data v \<longrightarrow>
      (\<exists>kept. serializeValue reference_runtime this v = Inr kept
              \<and> deserializeValue reference_runtime this kept = Inr v)"
    using general [of reference_runtime v "json_text v"] reference_runtime_round_trips [of v]
    by auto
  show ?thesis by (intro conjI a b)
qed

theorem codec_round_trip_witness:
  "serialize (paged_backend None no_writes) \<noteq> Some False
   \<and> JSON_stringify reference_runtime
         (JObj [(''n'', JNum 42), (''xs'', JArr [JNum (- 1), JStr ''two'', JObj [(''k'', JNull)]])])
       = Inr (Some (json_text
           (JObj [(''n'', JNum 42), (''xs'', JArr [JNum (- 1), JStr ''two'', JObj [(''k'', JNull)]])])))
   \<and> JSON_parse reference_runtime
         (json_text (JObj [(''n'', JNum 42), (''xs'', JArr [JNum (- 1), JStr ''two'', JObj [(''k'', JNull)]])]))
       = Inr (JObj [(''n'', JNum 42), (''xs'', JArr [JNum (- 1), JStr ''two'', JObj [(''k'', JNull)]])])
   \<and> (\<exists>kept. serializeValue reference_runtime (paged_backend None no_writes)
                 (JObj [(''n'', JNum 42), (''xs'', JArr [JNum (- 1), JStr ''two'', JObj [(''k'', JNull)]])])
               = Inr kept
             \<and> kept = JStr (json_text
                 (JObj [(''n'', JNum 42), (''xs'', JArr [JNum (- 1), JStr ''two'', JObj [(''k'', JNull)]])]))
             \<and> deserializeValue reference_runtime (paged_backend None no_writes) kept
               = Inr (JObj [(''n'', JNum 42), (''xs'', JArr [JNum (- 1), JStr ''two'', JObj [(''k'', JNull)]])]))
   \<and> json_data (JArr [JStr ''a'', JObj [(''b'', JBool True)]])
   \<and> (\<exists>kept. serializeValue reference_runtime (paged_backend None no_writes)
                 (JArr [JStr ''a'', JObj [(''b'', JBool True)]]) = Inr kept
             \<and> deserializeValue reference_runtime (paged_backend None no_writes) kept
               = Inr (JArr [JStr ''a'', JObj [(''b'', JBool True)]]))"
proof -
  let ?v = "JObj [(''n'', JNum 42), (''xs'', JArr [JNum (- 1), JStr ''two'', JObj [(''k'', JNull)]])]"
  let ?u = "JArr [JStr ''a'', JObj [(''b'', JBool True)]]"
  have h1: "serialize (paged_backend None no_writes) \<noteq> Some False"
    by (simp add: paged_backend_def)
  have h2: "JSON_stringify reference_runtime ?v = Inr (Some (json_text ?v))"
    by (simp add: reference_runtime_fields)
  note h3 = parse_sample
  have h4: "json_data ?u" by simp
  note T = codec_round_trip [where this = "paged_backend None no_writes"]
  have r1: "\<exists>kept. serializeValue reference_runtime (paged_backend None no_writes) ?v = Inr kept
             \<and> kept = JStr (json_text ?v)
             \<and> deserializeValue reference_runtime (paged_backend None no_writes) kept = Inr ?v"
    using T [where rt = reference_runtime and v = ?v and s = "json_text ?v", THEN conjunct1] h1 h2 h3
    by blast
  have r2: "\<exists>kept. serializeValue reference_runtime (paged_backend None no_writes) ?u = Inr kept
             \<and> deserializeValue reference_runtime (paged_backend None no_writes) kept = Inr ?u"
    using T [where v = ?u, THEN conjunct2] h1 h4 by blast
  show ?thesis by (intro conjI h1 h2 h3 r1 h4 r2)
qed

subsection \<open>The codec's fallback can throw (C8)\<close>

text \<open>
  With serialization enabled, \<^verbatim>\<open>serializeValue\<close> returns the JSON text when \<^verbatim>\<open>JSON.stringify\<close>
  gives one; when \<^verbatim>\<open>JSON.stringify\<close> throws or returns \<^verbatim>\<open>undefined\<close>, it returns
  \<^verbatim>\<open>String(value)\<close> if \<^verbatim>\<open>String\<close> returns, and throws what \<^verbatim>\<open>String\<close> throws otherwise.
  \<^verbatim>\<open>deserializeValue\<close> never throws: it returns every value that is not a string unchanged,
  and every string that \<^verbatim>\<open>JSON.parse\<close> rejects unchanged.
\<close>

lemma codec_where_String_returns:
  "(serialize this \<noteq> Some False \<and> JSON_stringify rt v = Inr (Some j) \<longrightarrow>
      serializeValue rt this v = Inr (JStr j))
 \<and> (serialize this \<noteq> Some False \<and> (JSON_stringify rt v = Inr None \<or> JSON_stringify rt v = Inl e)
      \<and> String_of rt v = Inr rendering \<longrightarrow>
      serializeValue rt this v = Inr (JStr rendering))
 \<and> (serialize this \<noteq> Some False \<and> (JSON_stringify rt v = Inr None \<or> JSON_stringify rt v = Inl e)
      \<and> String_of rt v = Inl e2 \<longrightarrow>
      serializeValue rt this v = Inl e2)
 \<and> (\<exists>r. deserializeValue rt this v = Inr r)
 \<and> ((\<forall>s. v \<noteq> JStr s) \<longrightarrow> deserializeValue rt this v = Inr v)
 \<and> (JSON_parse rt s = Inl e' \<longrightarrow> deserializeValue rt this (JStr s) = Inr (JStr s))"
proof -
  have a: "serialize this \<noteq> Some False \<and> JSON_stringify rt v = Inr (Some j) \<longrightarrow>
      serializeValue rt this v = Inr (JStr j)"
    by (simp add: serializeValue_enabled)
  have b: "serialize this \<noteq> Some False \<and> (JSON_stringify rt v = Inr None \<or> JSON_stringify rt v = Inl e)
      \<and> String_of rt v = Inr rendering \<longrightarrow>
      serializeValue rt this v = Inr (JStr rendering)"
    by (auto simp: serializeValue_enabled String_value_def)
  have c: "serialize this \<noteq> Some False \<and> (JSON_stringify rt v = Inr None \<or> JSON_stringify rt v = Inl e)
      \<and> String_of rt v = Inl e2 \<longrightarrow>
      serializeValue rt this v = Inl e2"
    by (auto simp: serializeValue_enabled String_value_def)
  have d: "\<exists>r. deserializeValue rt this v = Inr r"
    by (rule deserializeValue_total)
  have e: "(\<forall>s. v \<noteq> JStr s) \<longrightarrow> deserializeValue rt this v = Inr v"
    by (cases v) (simp_all add: deserializeValue_def)
  have f: "JSON_parse rt s = Inl e' \<longrightarrow> deserializeValue rt this (JStr s) = Inr (JStr s)"
    by (simp add: deserializeValue_def try_catch_def)
  show ?thesis by (intro conjI a b c d e f)
qed

lemma codec_on_reference_values:
  "serializeValue reference_runtime (paged_backend None no_writes) (JArr [JNum 1, JCyclic])
     = Inr (JStr ''1,[object Object]'')"
  "serializeValue reference_runtime (paged_backend None no_writes) JUndefined = Inr (JStr ''undefined'')"
  "serializeValue reference_runtime (paged_backend None no_writes) (JSymbol ''tag'') = Inr (JStr ''Symbol(tag)'')"
  "deserializeValue reference_runtime (paged_backend None no_writes) (JNum 5) = Inr (JNum 5)"
  "deserializeValue reference_runtime (paged_backend None no_writes) (JStr ''not json'') = Inr (JStr ''not json'')"
  by (simp_all add: serializeValue_def deserializeValue_def String_value_def try_catch_def
        reference_runtime_fields paged_backend_def keyword_def decimal_def digits.simps)

text \<open>
  Claim C8 says that \<^verbatim>\<open>serializeValue\<close> never raises and returns some string for every value.
  The code attempts it, by the \<^verbatim>\<open>catch\<close> that falls back on \<^verbatim>\<open>String(value)\<close>, and misses the
  values on which \<^verbatim>\<open>String\<close> throws too. For the object \<^verbatim>\<open>o\<close> of
  \<^verbatim>\<open>o = Object.create(null); o.self = o\<close>, in a saver with serialization enabled:
  \<^verbatim>\<open>JSON.stringify(o)\<close> throws on the cycle, the \<^verbatim>\<open>catch\<close> evaluates \<^verbatim>\<open>String(o)\<close>, which
  throws a \<^verbatim>\<open>TypeError\<close> since \<^verbatim>\<open>o\<close> has no \<^verbatim>\<open>toString\<close>, and that error leaves
  \<^verbatim>\<open>serializeValue\<close>. A cycle of ordinary objects is rendered, as the claim says.
\<close>

theorem serializeValue_raises_on_unrenderable_value:
  "serialize (paged_backend None no_writes) = Some True
   \<and> JSON_stringify reference_runtime JBareCycle
       = Inl (ThrownError (Error ''Converting circular structure to JSON''))
   \<and> String_of reference_runtime JBareCycle
       = Inl (ThrownError (Error ''Cannot convert object to primitive value''))
   \<and> serializeValue reference_runtime (paged_backend None no_writes) JBareCycle
       = Inl (ThrownError (Error ''Cannot convert object to primitive value''))
   \<and> serializeValue reference_runtime (paged_backend None no_writes) JCyclic
       = Inr (JStr ''[object Object]'')"
  by (simp add: serializeValue_def String_value_def try_catch_def
        reference_runtime_fields paged_backend_def)

subsection \<open>The first listing request (C9)\<close>

text \<open>
  Claim C9, evaluated where it fails. In the first run the caller's options carry a before
  cursor (a config addressing checkpoint \<open>c1\<close>) and a limit, and no third argument is given:
  the first request sent to the lister takes the limit from the options and has no
  \<open>before\<close>. In the second run the same config is given as the third argument and the
  request carries \<open>c1\<close>. The source reads the cursor from its third parameter only,
  \<^verbatim>\<open>before: _before?.configurable?.checkpoint_id\<close>, while the limit falls back on the
  options, \<^verbatim>\<open>limit: _limit || options?.limit\<close>.
\<close>

theorem list_ignores_before_of_options:
  "CallbackSaver_list (Suc 0) reference_runtime (paged_backend None no_writes) (thread_config ''t1'' None)
     (Some \<lparr>o_limit = Some 5, o_before = Some (thread_config ''t1'' (Some ''c1'')), o_filter = None\<rparr>)
     None None (start [])
   = Some (([], None),
           \<lparr>store = [],
            trace = [(ListCheckpointsCall
                        \<lparr>l_threadId = ''t1'', l_namespace = ''default'', limit = Some 5,
                         before = None, filter_field = None\<rparr>, None)]\<rparr>)
 \<and> CallbackSaver_list (Suc 0) reference_runtime (paged_backend None no_writes) (thread_config ''t1'' None)
     (Some \<lparr>o_limit = Some 5, o_before = None, o_filter = None\<rparr>)
     (Some (thread_config ''t1'' (Some ''c1''))) None (start [])
   = Some (([], None),
           \<lparr>store = [],
            trace = [(ListCheckpointsCall
                        \<lparr>l_threadId = ''t1'', l_namespace = ''default'', limit = Some 5,
                         before = Some ''c1'', filter_field = None\<rparr>, None)]\<rparr>)"
  by (simp add: CallbackSaver_list_def list_try_def listOptions_of_def Let_def await_eq rejection_def
        thread_config_fields resolve_namespace_default paged_backend_namespace start_fields)
     (simp add: paged_backend_def)

subsection \<open>getTuple addresses the stored checkpoint (C10)\<close>

text \<open>
  Claim C10. When \<^verbatim>\<open>getCheckpoint\<close> resolves with a stored checkpoint, \<^verbatim>\<open>getTuple\<close> looks the
  writes up under the stored checkpoint's own threadId, namespace and checkpointId, and, when
  that lookup resolves, returns a tuple whose config carries those three (so a concrete
  checkpoint_id, whatever the caller asked for); the tuple's parentConfig is present exactly
  when the stored parentCheckpointId is set (defined and not empty), and then addresses the
  parent under the same threadId and namespace.
\<close>

theorem getTuple_uses_stored_identity:
  assumes "truthy (opt_field thread_id config)"
    and "getCheckpoint this (the (opt_field thread_id config)) (resolve_namespace this config)
           (opt_field checkpoint_id config) (store w) = (Inr (Some sc), s1)"
  shows "(\<exists>r. new_calls w (snd (CallbackSaver_getTuple rt this config w))
             = [(GetCheckpointCall (the (opt_field thread_id config)) (resolve_namespace this config)
                   (opt_field checkpoint_id config), None),
                (GetWritesCall (threadId sc) (namespace sc) (checkpointId sc), r)])
       \<and> (\<forall>ws s2. getWrites this (threadId sc) (namespace sc) (checkpointId sc) s1 = (Inr ws, s2) \<longrightarrow>
            (\<exists>t. fst (CallbackSaver_getTuple rt this config w) = Inr (Some t)
               \<and> t_config t = \<lparr>configurable = Some
                    \<lparr>thread_id = Some (threadId sc),
                     checkpoint_ns = Some (namespace sc),
                     checkpoint_id = Some (checkpointId sc),
                     checkpoint_parent_id =
                       (if truthy (parentCheckpointId sc) then parentCheckpointId sc else None)\<rparr>\<rparr>
               \<and> (parentConfig t \<noteq> None \<longleftrightarrow> truthy (parentCheckpointId sc))
               \<and> (truthy (parentCheckpointId sc) \<longrightarrow>
                    parentConfig t = Some \<lparr>configurable = Some
                      \<lparr>thread_id = Some (threadId sc),
                       checkpoint_ns = Some (namespace sc),
                       checkpoint_id = parentCheckpointId sc,
                       checkpoint_parent_id = None\<rparr>\<rparr>)))"
proof (intro conjI allI impI)
  show "\<exists>r. new_calls w (snd (CallbackSaver_getTuple rt this config w))
             = [(GetCheckpointCall (the (opt_field thread_id config)) (resolve_namespace this config)
                   (opt_field checkpoint_id config), None),
                (GetWritesCall (threadId sc) (namespace sc) (checkpointId sc), r)]"
  proof (cases "getWrites this (threadId sc) (namespace sc) (checkpointId sc) s1")
    case (Pair r s2)
    show ?thesis
    proof (cases r)
      case (Inl e)
      with Pair assms show ?thesis
        by (simp add: CallbackSaver_getTuple_def getTuple_try_def rethrow_def await_eq
              rejection_def Let_def new_calls_def)
    next
      case (Inr ws)
      obtain p where "toTuple rt this sc ws = Inr p" using toTuple_Inr by blast
      with Pair Inr assms show ?thesis
        by (simp add: CallbackSaver_getTuple_def getTuple_try_def rethrow_def await_eq
              rejection_def Let_def new_calls_def)
    qed
  qed
next
  fix ws s2
  assume gw: "getWrites this (threadId sc) (namespace sc) (checkpointId sc) s1 = (Inr ws, s2)"
  obtain pending where p: "toTuple rt this sc ws =
     Inr \<lparr>t_config = \<lparr>configurable = Some
                 \<lparr>thread_id = Some (threadId sc),
                  checkpoint_ns = Some (namespace sc),
                  checkpoint_id = Some (checkpointId sc),
                  checkpoint_parent_id =
                    (if truthy (parentCheckpointId sc) then parentCheckpointId sc else None)\<rparr>\<rparr>,
               t_checkpoint = checkpoint sc,
               t_metadata = metadata sc,
               parentConfig =
                 (if truthy (parentCheckpointId sc)
                  then Some \<lparr>configurable = Some
                         \<lparr>thread_id = Some (threadId sc),
                          checkpoint_ns = Some (namespace sc),
                          checkpoint_id = parentCheckpointId sc,
                          checkpoint_parent_id = None\<rparr>\<rparr>
                  else None),
               pendingWrites = pending\<rparr>"
    using toTuple_Inr by blast
  show "\<exists>t. fst (CallbackSaver_getTuple rt this config w) = Inr (Some t)
               \<and> t_config t = \<lparr>configurable = Some
                    \<lparr>thread_id = Some (threadId sc),
                     checkpoint_ns = Some (namespace sc),
                     checkpoint_id = Some (checkpointId sc),
                     checkpoint_parent_id =
                       (if truthy (parentCheckpointId sc) then parentCheckpointId sc else None)\<rparr>\<rparr>
               \<and> (parentConfig t \<noteq> None \<longleftrightarrow> truthy (parentCheckpointId sc))
               \<and> (truthy (parentCheckpointId sc) \<longrightarrow>
                    parentConfig t = Some \<lparr>configurable = Some
                      \<lparr>thread_id = Some (threadId sc),
                       checkpoint_ns = Some (namespace sc),
                       checkpoint_id = parentCheckpointId sc,
                       checkpoint_parent_id = None\<rparr>\<rparr>)"
    using assms gw p
    by (simp add: CallbackSaver_getTuple_def getTuple_try_def rethrow_def await_eq Let_def)
qed

theorem getTuple_uses_stored_identity_witness:
  "truthy (opt_field thread_id (thread_config ''t1'' None))
   \<and> getCheckpoint (paged_backend (Some (stored ''c9'' (Some ''c8''))) one_write) ''t1'' ''default'' None []
       = (Inr (Some (stored ''c9'' (Some ''c8''))), [])
   \<and> getWrites (paged_backend (Some (stored ''c9'' (Some ''c8''))) one_write) ''t1'' ''default'' ''c9'' []
       = (Inr (one_write ''t1'' ''default'' ''c9''), [])
   \<and> (\<exists>r. new_calls (start [])
              (snd (CallbackSaver_getTuple reference_runtime
                      (paged_backend (Some (stored ''c9'' (Some ''c8''))) one_write)
                      (thread_config ''t1'' None) (start [])))
            = [(GetCheckpointCall ''t1'' ''default'' None, None),
               (GetWritesCall ''t1'' ''default'' ''c9'', r)])
   \<and> (\<exists>t. fst (CallbackSaver_getTuple reference_runtime
                   (paged_backend (Some (stored ''c9'' (Some ''c8''))) one_write)
                   (thread_config ''t1'' None) (start [])) = Inr (Some t)
          \<and> t_config t = \<lparr>configurable = Some
               \<lparr>thread_id = Some ''t1'', checkpoint_ns = Some ''default'',
                checkpoint_id = Some ''c9'', checkpoint_parent_id = Some ''c8''\<rparr>\<rparr>
          \<and> parentConfig t = Some \<lparr>configurable = Some
               \<lparr>thread_id = Some ''t1'', checkpoint_ns = Some ''default'',
                checkpoint_id = Some ''c8'', checkpoint_parent_id = None\<rparr>\<rparr>)"
proof -
  let ?B = "paged_backend (Some (stored ''c9'' (Some ''c8''))) one_write"
  let ?run = "CallbackSaver_getTuple reference_runtime ?B (thread_config ''t1'' None) (start [])"
  have h1: "truthy (opt_field thread_id (thread_config ''t1'' None))"
    by (simp add: thread_config_fields)
  have ns: "resolve_namespace ?B (thread_config ''t1'' None) = ''default''"
    by (simp add: resolve_namespace_default paged_backend_namespace)
  have g1: "getCheckpoint ?B ''t1'' ''default'' None [] = (Inr (Some (stored ''c9'' (Some ''c8''))), [])"
    by (simp add: paged_backend_def)
  have g2: "getWrites ?B ''t1'' ''default'' ''c9'' [] = (Inr (one_write ''t1'' ''default'' ''c9''), [])"
    by (simp add: paged_backend_def)
  have h2: "getCheckpoint ?B (the (opt_field thread_id (thread_config ''t1'' None)))
              (resolve_namespace ?B (thread_config ''t1'' None))
              (opt_field checkpoint_id (thread_config ''t1'' None)) (store (start []))
            = (Inr (Some (stored ''c9'' (Some ''c8''))), [])"
    using g1 by (simp add: ns thread_config_fields start_fields)
  note T = getTuple_uses_stored_identity [OF h1 h2, of reference_runtime,
             unfolded ns thread_config_fields stored_fields option.sel]
  from T have calls: "\<exists>r. new_calls (start []) (snd ?run)
            = [(GetCheckpointCall ''t1'' ''default'' None, None),
               (GetWritesCall ''t1'' ''default'' ''c9'', r)]"
    by (rule conjunct1)
  from T g2 obtain t where t: "fst ?run = Inr (Some t)"
     "t_config t = \<lparr>configurable = Some
                    \<lparr>thread_id = Some ''t1'', checkpoint_ns = Some ''default'',
                     checkpoint_id = Some ''c9'',
                     checkpoint_parent_id = (if truthy (Some ''c8'') then Some ''c8'' else None)\<rparr>\<rparr>"
     "truthy (Some ''c8'') \<longrightarrow>
        parentConfig t = Some \<lparr>configurable = Some
                      \<lparr>thread_id = Some ''t1'', checkpoint_ns = Some ''default'',
                       checkpoint_id = Some ''c8'', checkpoint_parent_id = None\<rparr>\<rparr>"
    by blast
  have tuple: "\<exists>t. fst ?run = Inr (Some t)
          \<and> t_config t = \<lparr>configurable = Some
               \<lparr>thread_id = Some ''t1'', checkpoint_ns = Some ''default'',
                checkpoint_id = Some ''c9'', checkpoint_parent_id = Some ''c8''\<rparr>\<rparr>
          \<and> parentConfig t = Some \<lparr>configurable = Some
               \<lparr>thread_id = Some ''t1'', checkpoint_ns = Some ''default'',
                checkpoint_id = Some ''c8'', checkpoint_parent_id = None\<rparr>\<rparr>"
    using t by (intro exI [of _ t] conjI) simp_all
  show ?thesis by (intro conjI h1 g1 g2 calls tuple)
qed

end
